(* ===== verification/Prelude.thy ===== *)
theory Prelude
  imports Main "HOL-Library.Word"
begin

text \<open>
  Shared vocabulary of the development: the Go values the program handles (byte slices that may be
  nil, UUIDs, instants), the three-valued SQL comparisons its queries use, the uniqueness and
  reference conditions on tables that the schema constraints are made of, and the list lemmas the
  component theories rely on.
\<close>

section \<open>Collections of rules\<close>

named_theorems go_defs \<open>definitions of Go primitives, unfolded to evaluate\<close>
named_theorems sql_defs \<open>definitions of SQL primitives, unfolded to evaluate\<close>
named_theorems wf_intros \<open>preservation of the schema invariant, one rule per statement\<close>
named_theorems frame_simps \<open>what a statement leaves unchanged\<close>

section \<open>Go values\<close>

type_synonym byte = "8 word"
type_synonym bytes = "byte list"

text \<open>A Go \<^verbatim>\<open>[]byte\<close>: \<open>None\<close> is the nil slice, which the SQL driver sends as NULL.\<close>

type_synonym gobytes = "bytes option"

text \<open>
  A \<^verbatim>\<open>uuid.UUID\<close> is an array of 16 bytes; the program compares UUIDs and tests for
  \<^verbatim>\<open>uuid.Nil\<close>. A \<^verbatim>\<open>time.Time\<close> is its distance from Go's zero time, so the zero value is 0.
\<close>

type_synonym uuid = "128 word"
type_synonym gotime = int

abbreviation (input) uuid_Nil :: uuid where "uuid_Nil \<equiv> 0"
abbreviation (input) zero_time :: gotime where "zero_time \<equiv> 0"

definition bts :: "gobytes \<Rightarrow> bytes" where
  [go_defs]: "bts b = (case b of None \<Rightarrow> [] | Some xs \<Rightarrow> xs)"

definition slen :: "gobytes \<Rightarrow> nat" where
  [go_defs]: "slen b = length (bts b)"

definition bytes_Equal :: "gobytes \<Rightarrow> gobytes \<Rightarrow> bool" where
  [go_defs]: "bytes_Equal a b = (bts a = bts b)"

text \<open>\<^verbatim>\<open>strings.Contains\<close> and \<^verbatim>\<open>strings.HasPrefix\<close>.\<close>

definition strings_HasPrefix :: "string \<Rightarrow> string \<Rightarrow> bool" where
  [go_defs]: "strings_HasPrefix s p = (take (length p) s = p)"

fun strings_Contains :: "string \<Rightarrow> string \<Rightarrow> bool" where
  "strings_Contains [] sub = (sub = [])"
| "strings_Contains (c # s) sub =
     (strings_HasPrefix (c # s) sub \<or> strings_Contains s sub)"

text \<open>\<^verbatim>\<open>strconv.FormatInt(i, 10)\<close> and \<^verbatim>\<open>%d\<close>.\<close>

definition digit_char :: "nat \<Rightarrow> char" where
  [go_defs]: "digit_char d = char_of (48 + d)"

fun FormatNat :: "nat \<Rightarrow> string" where
  "FormatNat n = (if n < 10 then [digit_char n] else FormatNat (n div 10) @ [digit_char (n mod 10)])"

declare FormatNat.simps [simp del]

definition FormatInt :: "int \<Rightarrow> string" where
  [go_defs]: "FormatInt i = (if i < 0 then CHR ''-'' # FormatNat (nat (- i)) else FormatNat (nat i))"

text \<open>The range of a Go \<^verbatim>\<open>int32\<close> and of a PostgreSQL \<^verbatim>\<open>integer\<close>.\<close>

definition in_int32 :: "int \<Rightarrow> bool" where
  [go_defs]: "in_int32 i = (- 2147483648 \<le> i \<and> i \<le> 2147483647)"

section \<open>SQL values\<close>

text \<open>
  \<^verbatim>\<open>COALESCE(p, c)\<close> for a NOT NULL column \<open>c\<close>, \<^verbatim>\<open>NULLIF(p, q)\<close> and
  \<^verbatim>\<open>IS DISTINCT FROM\<close>. A parameter is an option; \<open>None\<close> is NULL.
\<close>

definition coalesce :: "'a option \<Rightarrow> 'a \<Rightarrow> 'a" where
  [sql_defs]: "coalesce p c = (case p of None \<Rightarrow> c | Some x \<Rightarrow> x)"

definition nullif :: "'a option \<Rightarrow> 'a option \<Rightarrow> 'a option" where
  [sql_defs]: "nullif p q = (if p \<noteq> None \<and> p = q then None else p)"

definition is_distinct :: "'a option \<Rightarrow> 'a option \<Rightarrow> bool" where
  [sql_defs]: "is_distinct p q = (p \<noteq> q)"

text \<open>\<^verbatim>\<open>p = c\<close> in a WHERE clause selects the row only when both sides are not NULL.\<close>

definition sql_eq :: "'a option \<Rightarrow> 'a option \<Rightarrow> bool" where
  [sql_defs]: "sql_eq p q = (p \<noteq> None \<and> p = q)"

lemma sql_eq_Some [simp]: "sql_eq p (Some x) = (p = Some x)"
  by (auto simp: sql_eq_def)

lemma coalesce_simps [simp]: "coalesce None c = c" "coalesce (Some x) c = x"
  by (simp_all add: coalesce_def)

lemma coalesce_nullif_self [simp]: "coalesce (nullif (Some x) (Some c)) c = x"
  by (simp add: nullif_def coalesce_def)

section \<open>Uniqueness and references on tables\<close>

text \<open>
  A UNIQUE constraint on a key that may be NULL: the keys that are not NULL are distinct.
  \<open>clash f r rs\<close> is the test an INSERT of \<open>r\<close> makes against the rows already there.
\<close>

definition uniq :: "('r \<Rightarrow> 'k option) \<Rightarrow> 'r list \<Rightarrow> bool" where
  "uniq f rs = distinct (List.map_filter f rs)"

definition clash :: "('r \<Rightarrow> 'k option) \<Rightarrow> 'r \<Rightarrow> 'r list \<Rightarrow> bool" where
  [sql_defs]: "clash f r rs = (f r \<noteq> None \<and> list_ex (\<lambda>x. f x = f r) rs)"

text \<open>A FOREIGN KEY: every key that is not NULL is a key of the referenced table.\<close>

definition refs :: "('r \<Rightarrow> 'k option) \<Rightarrow> 'r list \<Rightarrow> 'k list \<Rightarrow> bool" where
  "refs f rs ks = list_all (\<lambda>r. case f r of None \<Rightarrow> True | Some k \<Rightarrow> k \<in> set ks) rs"

lemma set_map_filter_iff [simp]: "k \<in> set (List.map_filter f rs) \<longleftrightarrow> (\<exists>r\<in>set rs. f r = Some k)"
  by (induction rs) (auto simp: List.map_filter_simps split: option.splits)

lemma map_filter_append [simp]: "List.map_filter f (xs @ ys) = List.map_filter f xs @ List.map_filter f ys"
  by (induction xs) (auto simp: List.map_filter_simps split: option.splits)

lemma uniq_Nil [simp]: "uniq f []"
  by (simp add: uniq_def List.map_filter_simps)

lemma uniq_Cons: "uniq f (r # rs) \<longleftrightarrow> \<not> clash f r rs \<and> uniq f rs"
  by (auto simp: uniq_def clash_def List.map_filter_simps list_ex_iff split: option.splits)

lemma uniq_snoc [simp]: "uniq f (rs @ [r]) \<longleftrightarrow> uniq f rs \<and> \<not> clash f r rs"
  by (auto simp: uniq_def clash_def List.map_filter_simps list_ex_iff split: option.splits)

lemma uniq_sameD:
  assumes "uniq f rs" "x \<in> set rs" "y \<in> set rs" "f x = Some k" "f y = Some k"
  shows "x = y"
  using assms by (induction rs) (auto simp: uniq_Cons clash_def list_ex_iff)

lemma uniq_append_noclash:
  assumes "uniq f (xs @ ys)" "a \<in> set xs" "b \<in> set ys" "f a = Some k"
  shows "f b \<noteq> Some k"
  using assms by (fastforce simp: uniq_def disjoint_iff)

lemma uniq_filter: "uniq f rs \<Longrightarrow> uniq f (filter p rs)"
  by (induction rs) (auto simp: uniq_Cons clash_def list_ex_iff)

lemma uniq_map_same: "(\<And>r. r \<in> set rs \<Longrightarrow> f (g r) = f r) \<Longrightarrow> uniq f (map g rs) = uniq f rs"
  by (induction rs) (auto simp: uniq_Cons clash_def list_ex_iff)

text \<open>
  An UPDATE that rewrites the rows selected by \<open>p\<close>, at most one row, keeps a UNIQUE constraint
  when the new key is not that of another row.
\<close>

lemma uniq_map_upd:
  assumes "uniq f rs"
    and "\<And>r. r \<in> set rs \<Longrightarrow> \<not> p r \<Longrightarrow> f (g r) = f r"
    and "uniq i rs"
    and "\<And>r. r \<in> set rs \<Longrightarrow> p r \<Longrightarrow> i r = Some k"
    and "\<And>r x. r \<in> set rs \<Longrightarrow> p r \<Longrightarrow> x \<in> set rs \<Longrightarrow> i x \<noteq> Some k \<Longrightarrow> f (g r) \<noteq> None \<Longrightarrow> f x \<noteq> f (g r)"
  shows "uniq f (map g rs)"
  using assms
proof (induction rs)
  case Nil
  show ?case by simp
next
  case (Cons r rs)
  have IH: "uniq f (map g rs)"
    using Cons.prems by (intro Cons.IH) (auto simp: uniq_Cons)
  have "\<not> clash f (g r) (map g rs)"
  proof
    assume "clash f (g r) (map g rs)"
    then obtain x where x: "x \<in> set rs" "f (g x) = f (g r)" "f (g r) \<noteq> None"
      by (auto simp: clash_def list_ex_iff)
    have "i x \<noteq> i r \<or> i r = None"
      using Cons.prems(3) x(1) by (auto simp: uniq_Cons clash_def list_ex_iff)
    then consider "\<not> p r" "\<not> p x" | "p r" "\<not> p x" "i x \<noteq> Some k" | "\<not> p r" "p x" "i r \<noteq> Some k"
      using Cons.prems(4)[of r] Cons.prems(4)[of x] x(1) by (cases "p r"; cases "p x"; auto; metis)
    then show False
    proof cases
      case 1
      then show False
        using x Cons.prems(1,2) by (auto simp: uniq_Cons clash_def list_ex_iff)
    next
      case 2
      then show False using Cons.prems(5)[of r x] Cons.prems(2)[of x] x by auto
    next
      case 3
      then show False using Cons.prems(5)[of x r] Cons.prems(2)[of r] x by auto
    qed
  qed
  then show ?case using IH by (simp add: uniq_Cons)
qed

lemma refs_Nil [simp]: "refs f [] ks"
  by (simp add: refs_def)

lemma refs_iff: "refs f rs ks \<longleftrightarrow> (\<forall>r\<in>set rs. \<forall>k. f r = Some k \<longrightarrow> k \<in> set ks)"
  by (auto simp: refs_def list_all_iff split: option.splits)

lemma refs_append [simp]: "refs f (rs @ rs') ks \<longleftrightarrow> refs f rs ks \<and> refs f rs' ks"
  by (auto simp: refs_def)

lemma refs_mono: "refs f rs ks \<Longrightarrow> set ks \<subseteq> set ks' \<Longrightarrow> refs f rs ks'"
  by (auto simp: refs_iff)

lemma refs_filter: "refs f rs ks \<Longrightarrow> refs f (filter p rs) ks"
  by (auto simp: refs_iff)

section \<open>Lists\<close>

lemma in_image_rest [intro]:
  "k \<in> f ` A \<Longrightarrow> k \<notin> f ` {x \<in> A. P x} \<Longrightarrow> k \<in> f ` {x \<in> A. \<not> P x}"
  by blast

lemma in_image_other [intro]: "k \<in> f ` A \<Longrightarrow> k \<noteq> i \<Longrightarrow> k \<in> f ` {x \<in> A. f x \<noteq> i}"
  by blast

lemma length_filter_distinct_key:
  assumes "distinct (map f rs)"
  shows "length (filter (\<lambda>r. f r \<in> A) rs) = card (A \<inter> f ` set rs)"
proof -
  have d: "distinct (map f (filter (\<lambda>r. f r \<in> A) rs))"
    using assms by (rule distinct_map_filter)
  have "set (map f (filter (\<lambda>r. f r \<in> A) rs)) = A \<inter> f ` set rs" by auto
  then show ?thesis using distinct_card [OF d] by simp
qed

lemma find_Some_iff_uniq:
  assumes "uniq f rs" "r \<in> set rs" "f r = Some k"
  shows "find (\<lambda>x. f x = Some k) rs = Some r"
  using assms by (induction rs) (auto simp: uniq_Cons clash_def list_ex_iff)

lemma filter_uniq:
  assumes "uniq f rs" "r \<in> set rs" "f r = Some k"
  shows "filter (\<lambda>x. f x = Some k \<and> P x) rs = (if P r then [r] else [])"
  using assms by (induction rs) (auto simp: uniq_Cons clash_def list_ex_iff filter_empty_conv)

lemma uniq_distinct_map:
  assumes "uniq f rs" "\<And>r. r \<in> set rs \<Longrightarrow> P r \<Longrightarrow> f r = Some (h (g r))"
  shows "distinct (map g (filter P rs))"
  using assms
proof (induction rs)
  case Nil
  show ?case by simp
next
  case (Cons r rs)
  have "g x \<noteq> g r" if "P r" "x \<in> set rs" "P x" for x
  proof
    assume "g x = g r"
    then have "f x = f r" using Cons.prems(2) [of x] Cons.prems(2) [of r] that by simp
    then show False using Cons.prems that by (auto simp: uniq_Cons clash_def list_ex_iff)
  qed
  moreover have "distinct (map g (filter P rs))"
    using Cons by (auto simp: uniq_Cons)
  ultimately show ?case by force
qed

lemma map_uniq_upd:
  assumes "uniq f rs" "r \<in> set rs" "f r = Some k"
  shows "map (\<lambda>x. if f x = Some k \<and> P x then g x else x) rs =
    (if P r then map (\<lambda>x. if f x = Some k then g r else x) rs else rs)"
proof -
  have "x = r" if "x \<in> set rs" "f x = Some k" for x
    using uniq_sameD [OF assms(1) that(1) assms(2) that(2) assms(3)] .
  then show ?thesis by (auto intro!: map_cong map_idI)
qed

lemma find_append_new: "find p xs = None \<Longrightarrow> find p (xs @ [y]) = (if p y then Some y else None)"
  by (induction xs) (auto split: if_splits)

lemma find_None_filter: "find p rs = None \<longleftrightarrow> filter p rs = []"
  by (induction rs) auto

lemma find_Some_mem: "find p rs = Some r \<Longrightarrow> r \<in> set rs \<and> p r"
  by (induction rs) (auto split: if_splits)

text \<open>Integer literals decoded from words are compared by the simplifier.\<close>

lemmas go_eval = go_defs sql_defs

end
