(* ===== verification/GoTypes.thy ===== *)
theory GoTypes
  imports Prelude
begin

text \<open>
  The structs of \<^verbatim>\<open>types/types.go\<close>, \<^verbatim>\<open>types/api.go\<close> and \<^verbatim>\<open>types/consts.go\<close> as records with
  the source's field names behind a two letter prefix, the \<^verbatim>\<open>Origin\<close> enumeration with its
  generated stringer, and the record \<open>ext\<close> of the functions that live outside the repository.
\<close>

section \<open>Code outside the repository\<close>

text \<open>
  Third-party functions the program calls. They are arguments of every definition that uses them:
  the key length and address function of \<^verbatim>\<open>dvote/crypto/ethereum\<close>, its hash, the \<^verbatim>\<open>TrimHex\<close> of
  \<^verbatim>\<open>dvote/util\<close>, the parser and printer of \<^verbatim>\<open>google/uuid\<close>, the e-mail syntax check of
  \<^verbatim>\<open>checkmail\<close>, the \<^verbatim>\<open>JSONB\<close> conversion of \<^verbatim>\<open>pgtype\<close> (an error, SQL NULL or bytes), the JSON
  input check of the database server, the checksummed address printer of \<^verbatim>\<open>go-ethereum\<close>, and
  whether \<^verbatim>\<open>url.ParseRequestURI\<close> accepts a text.
\<close>

record ext =
  PubKeyLengthBytes :: nat
  AddrFromPublicKey :: "gobytes \<Rightarrow> bytes option"
  HashRaw :: "bytes \<Rightarrow> bytes"
  TrimHex :: "string \<Rightarrow> string"
  uuid_Parse :: "string \<Rightarrow> uuid option"
  uuid_String :: "uuid \<Rightarrow> string"
  ValidateFormat :: "string \<Rightarrow> bool"
  JSONB_Set :: "gobytes \<Rightarrow> string + gobytes"
  json_valid :: "bytes \<Rightarrow> bool"
  AddressString :: "bytes \<Rightarrow> string"
  ParseRequestURI :: "string \<Rightarrow> bool"

section \<open>Origins\<close>

text \<open>\<^verbatim>\<open>type Origin int\<close>: any integer is a value of the type; four are named.\<close>

type_synonym Origin = int

abbreviation (input) Token :: Origin where "Token \<equiv> 0"
abbreviation (input) Form :: Origin where "Form \<equiv> 1"
abbreviation (input) DB :: Origin where "DB \<equiv> 2"
abbreviation (input) API :: Origin where "API \<equiv> 3"

definition ToOrigin :: "string \<Rightarrow> Origin" where
  "ToOrigin s =
     (if s = ''Token'' then Token
      else if s = ''Form'' then Form
      else if s = ''DB'' then DB
      else if s = ''API'' then API
      else Token)"

text \<open>The generated \<^verbatim>\<open>String\<close> method: its name table stops at \<^verbatim>\<open>DB\<close>.\<close>

definition Origin_name :: string where
  "Origin_name = ''TokenFormDB''"

definition Origin_index :: "nat list" where
  "Origin_index = [0, 5, 9, 11]"

definition Origin_String :: "Origin \<Rightarrow> string" where
  "Origin_String i =
     (if i < 0 \<or> i \<ge> int (length Origin_index - 1)
      then ''Origin('' @ FormatInt i @ '')''
      else (let lo = Origin_index ! nat i; hi = Origin_index ! nat (i + 1)
            in take (hi - lo) (drop lo Origin_name)))"

section \<open>Entities, members, users\<close>

text \<open>\<^verbatim>\<open>[][]byte\<close> is an optional list (None is nil); the element slices are byte lists.\<close>

record EntityInfo =
  ei_CallbackURL :: string
  ei_CallbackSecret :: string
  ei_Email :: string
  ei_Name :: string
  ei_Type :: string
  ei_Size :: int
  ei_CensusManagersAddresses :: "bytes list option"
  ei_Origins :: "Origin list"
  ei_Consented :: bool

record Entity =
  en_CreatedAt :: gotime
  en_UpdatedAt :: gotime
  en_ID :: gobytes
  en_IsAuthorized :: bool
  en_Info :: EntityInfo

record MemberInfo =
  mi_DateOfBirth :: gotime
  mi_Email :: string
  mi_FirstName :: string
  mi_LastName :: string
  mi_Phone :: string
  mi_StreetAddress :: string
  mi_Consented :: bool
  mi_Verified :: gotime
  mi_Origin :: Origin
  mi_CustomFields :: gobytes
  mi_Tags :: "int list option"

record Member =
  mb_CreatedAt :: gotime
  mb_UpdatedAt :: gotime
  mb_ID :: uuid
  mb_EntityID :: gobytes
  mb_PubKey :: gobytes
  mb_Info :: MemberInfo

record User =
  us_CreatedAt :: gotime
  us_UpdatedAt :: gotime
  us_PubKey :: gobytes
  us_DigestedPubKey :: gobytes

text \<open>The zero values of Go's \<^verbatim>\<open>var x T\<close> and of omitted fields.\<close>

definition zero_EntityInfo :: EntityInfo where
  "zero_EntityInfo = \<lparr>ei_CallbackURL = [], ei_CallbackSecret = [], ei_Email = [], ei_Name = [],
     ei_Type = [], ei_Size = 0, ei_CensusManagersAddresses = None, ei_Origins = [],
     ei_Consented = False\<rparr>"

definition zero_MemberInfo :: MemberInfo where
  "zero_MemberInfo = \<lparr>mi_DateOfBirth = zero_time, mi_Email = [], mi_FirstName = [],
     mi_LastName = [], mi_Phone = [], mi_StreetAddress = [], mi_Consented = False,
     mi_Verified = zero_time, mi_Origin = Token, mi_CustomFields = None, mi_Tags = None\<rparr>"

section \<open>Targets, censuses, tags\<close>

record Target =
  tg_CreatedAt :: gotime
  tg_UpdatedAt :: gotime
  tg_ID :: uuid
  tg_EntityID :: gobytes
  tg_Name :: string
  tg_Filters :: gobytes

record CensusInfo =
  ci_CreatedAt :: gotime
  ci_UpdatedAt :: gotime
  ci_Name :: string
  ci_MerkleRoot :: gobytes
  ci_MerkleTreeURI :: string
  ci_Size :: int
  ci_Ephemeral :: bool
  ci_ProcessID :: gobytes

record Census =
  cs_EntityID :: gobytes
  cs_ID :: gobytes
  cs_TargetID :: uuid
  cs_Info :: CensusInfo

record CensusMember =
  cm_MemberID :: uuid
  cm_CensusID :: gobytes
  cm_Ephemeral :: bool
  cm_PrivKey :: gobytes
  cm_PubKey :: gobytes
  cm_DigestedPubKey :: gobytes

record EphemeralMemberInfo =
  em_ID :: uuid
  em_FirstName :: string
  em_LastName :: string
  em_Email :: string
  em_PrivKey :: gobytes
  em_DigestedPubKey :: gobytes

record Tag =
  ta_ID :: int
  ta_EntityID :: gobytes
  ta_Name :: string

definition zero_CensusInfo :: CensusInfo where
  "zero_CensusInfo = \<lparr>ci_CreatedAt = zero_time, ci_UpdatedAt = zero_time, ci_Name = [],
     ci_MerkleRoot = None, ci_MerkleTreeURI = [], ci_Size = 0, ci_Ephemeral = False,
     ci_ProcessID = None\<rparr>"

definition zero_Target :: Target where
  "zero_Target = \<lparr>tg_CreatedAt = zero_time, tg_UpdatedAt = zero_time, tg_ID = uuid_Nil,
     tg_EntityID = None, tg_Name = [], tg_Filters = None\<rparr>"

section \<open>API messages\<close>

record ListOptions =
  lo_Count :: int
  lo_Order :: string
  lo_Skip :: int
  lo_SortBy :: string

record TokenEmail =
  te_Token :: uuid
  te_Email :: string

record Status =
  st_Registered :: bool
  st_NeedsUpdate :: bool

text \<open>
  The fields of \<^verbatim>\<open>types.APIrequest\<close> that a handler reads; a pointer is an option.
\<close>

record APIrequest =
  rq_Amount :: int
  rq_AuthHash :: string
  rq_Census :: "CensusInfo option"
  rq_CensusID :: string
  rq_Keys :: "string list"
  rq_Email :: string
  rq_EntityID :: gobytes
  rq_Entity :: "EntityInfo option"
  rq_ListOptions :: "ListOptions option"
  rq_MemberID :: "uuid option"
  rq_MemberIDs :: "uuid list"
  rq_Member :: "Member option"
  rq_MemberInfo :: "MemberInfo option"
  rq_MembersInfo :: "MemberInfo list"
  rq_Method :: string
  rq_ProcessID :: gobytes
  rq_TagID :: int
  rq_TagName :: string
  rq_TargetID :: "uuid option"
  rq_Timestamp :: int
  rq_Token :: string
  rq_SignaturePublicKey :: gobytes

text \<open>The fields of \<^verbatim>\<open>types.APIresponse\<close> that a handler or the router writes.\<close>

record APIresponse =
  rs_APIList :: "string list"
  rs_Census :: "Census option"
  rs_Censuses :: "Census list"
  rs_Claims :: "gobytes list"
  rs_Count :: int
  rs_Entity :: "Entity option"
  rs_Entities :: "Entity list"
  rs_Health :: int
  rs_InvalidIDs :: "uuid list"
  rs_InvalidKeys :: "string list"
  rs_Member :: "Member option"
  rs_Members :: "Member list"
  rs_MembersTokens :: "TokenEmail list"
  rs_Message :: string
  rs_Ok :: bool
  rs_Keys :: "string list"
  rs_Request :: string
  rs_Status :: "Status option"
  rs_Tag :: "Tag option"
  rs_Tags :: "Tag list"
  rs_Target :: "Target option"
  rs_Targets :: "Target list"
  rs_Timestamp :: int
  rs_Tokens :: "uuid list"
  rs_TokenStatus :: string

definition zero_APIresponse :: APIresponse where
  "zero_APIresponse = \<lparr>rs_APIList = [], rs_Census = None, rs_Censuses = [], rs_Claims = [],
     rs_Count = 0, rs_Entity = None, rs_Entities = [], rs_Health = 0, rs_InvalidIDs = [],
     rs_InvalidKeys = [], rs_Member = None, rs_Members = [], rs_MembersTokens = [],
     rs_Message = [], rs_Ok = False, rs_Keys = [], rs_Request = [], rs_Status = None,
     rs_Tag = None, rs_Tags = [], rs_Target = None, rs_Targets = [], rs_Timestamp = 0,
     rs_Tokens = [], rs_TokenStatus = []\<rparr>"

definition SetID :: "string \<Rightarrow> APIresponse \<Rightarrow> APIresponse" where
  "SetID i mrs = mrs\<lparr>rs_Request := i\<rparr>"

definition SetTimestamp :: "int \<Rightarrow> APIresponse \<Rightarrow> APIresponse" where
  "SetTimestamp ts mrs = mrs\<lparr>rs_Timestamp := ts\<rparr>"

definition SetError :: "string \<Rightarrow> APIresponse \<Rightarrow> APIresponse" where
  "SetError msg mrs = mrs\<lparr>rs_Ok := False, rs_Message := msg\<rparr>"

section \<open>Faucet constants\<close>

definition Finney :: int where "Finney = 1000000000000000"
definition MainnetDefaultFaucetAmount :: int where "MainnetDefaultFaucetAmount = Finney"
definition GoerliDefaultFaucetAmount :: int where "GoerliDefaultFaucetAmount = Finney * 1500"
definition XDAIDefaultFaucetAmount :: int where "XDAIDefaultFaucetAmount = Finney * 100"

definition DefaultFaucetAmount :: "string \<Rightarrow> string + int" where
  "DefaultFaucetAmount name =
     (if name = ''mainnet'' then Inr MainnetDefaultFaucetAmount
      else if name = ''goerli'' then Inr GoerliDefaultFaucetAmount
      else if name = ''xdai'' then Inr XDAIDefaultFaucetAmount
      else if name = ''xdaistage'' then Inr XDAIDefaultFaucetAmount
      else if name = ''sokol'' then Inr GoerliDefaultFaucetAmount
      else Inl ''chain name not found'')"

section \<open>Facts\<close>

lemma Origin_String_named:
  "Origin_String Token = ''Token''" "Origin_String Form = ''Form''" "Origin_String DB = ''DB''"
  by (simp_all add: Origin_String_def Origin_index_def Origin_name_def)

lemma ToOrigin_String: "0 \<le> i \<Longrightarrow> i < 3 \<Longrightarrow> ToOrigin (Origin_String i) = i"
proof -
  assume "0 \<le> i" "i < 3"
  then consider "i = Token" | "i = Form" | "i = DB" by linarith
  then show ?thesis by cases (simp_all add: Origin_String_named ToOrigin_def)
qed

lemma Origin_String_other: "i < 0 \<or> 3 \<le> i \<Longrightarrow> Origin_String i = ''Origin('' @ FormatInt i @ '')''"
  by (auto simp: Origin_String_def Origin_index_def)

text \<open>
  A concrete instance of the outside functions, on which the theorems are instantiated: keys of two
  bytes whose last byte is the address, UUIDs printed in unary.
\<close>

definition demo_ext :: ext where
  "demo_ext = \<lparr>PubKeyLengthBytes = 2,
     AddrFromPublicKey = (\<lambda>k. case k of Some [a, b] \<Rightarrow> Some [b] | _ \<Rightarrow> None),
     HashRaw = (\<lambda>bs. [of_nat (length bs)]),
     TrimHex = (\<lambda>s. if strings_HasPrefix s ''0x'' then drop 2 s else s),
     uuid_Parse = (\<lambda>s. if s = [] then None else Some (of_nat (length s))),
     uuid_String = (\<lambda>u. replicate (unat u) (CHR ''u'')),
     ValidateFormat = (\<lambda>s. CHR ''@'' \<in> set s),
     JSONB_Set = (\<lambda>b. Inr b),
     json_valid = (\<lambda>bs. bs = [123, 125]),
     AddressString = (\<lambda>bs. ''0x''),
     ParseRequestURI = (\<lambda>s. s \<noteq> [])\<rparr>"

end
