(* ===== verification/Util.thy ===== *)
theory Util
  imports GoTypes
begin

text \<open>
  \<^verbatim>\<open>util/util.go\<close>: entity identifiers, public key length, census identifiers, removal of
  duplicate UUIDs, hexadecimal prefixes; with the parts of Go's \<^verbatim>\<open>encoding/hex\<close> and
  \<^verbatim>\<open>strings\<close> packages they call.
\<close>

section \<open>encoding/hex\<close>

definition hex_char :: "nat \<Rightarrow> char" where
  "hex_char n = (if n < 10 then char_of (48 + n) else char_of (87 + n))"

fun hex_EncodeToString :: "bytes \<Rightarrow> string" where
  "hex_EncodeToString [] = []"
| "hex_EncodeToString (b # bs) =
     hex_char (unat b div 16) # hex_char (unat b mod 16) # hex_EncodeToString bs"

text \<open>\<^verbatim>\<open>fromHexChar\<close>: both cases of the letters are read.\<close>

definition fromHexChar :: "char \<Rightarrow> nat option" where
  "fromHexChar c =
     (let n = of_char c :: nat in
      if 48 \<le> n \<and> n \<le> 57 then Some (n - 48)
      else if 97 \<le> n \<and> n \<le> 102 then Some (n - 87)
      else if 65 \<le> n \<and> n \<le> 70 then Some (n - 55)
      else None)"

text \<open>\<^verbatim>\<open>hex.DecodeString\<close>: None for an odd length or a character that is no hex digit.\<close>

fun hex_DecodeString :: "string \<Rightarrow> bytes option" where
  "hex_DecodeString [] = Some []"
| "hex_DecodeString [c] = None"
| "hex_DecodeString (c # d # s) =
     (case (fromHexChar c, fromHexChar d) of
        (Some hi, Some lo) \<Rightarrow> map_option (\<lambda>bs. of_nat (hi * 16 + lo) # bs) (hex_DecodeString s)
      | _ \<Rightarrow> None)"

lemma fromHexChar_hex_char [simp]: "n < 16 \<Longrightarrow> fromHexChar (hex_char n) = Some n"
  by (auto simp: fromHexChar_def hex_char_def Let_def)

lemma unat_byte_less [simp]: "unat (b :: byte) < 256"
  using unsigned_less [of b] by simp

lemma hex_decode_encode [simp]: "hex_DecodeString (hex_EncodeToString bs) = Some bs"
proof (induction bs)
  case Nil
  show ?case by simp
next
  case (Cons b bs)
  have "unat b div 16 < 16" using unat_byte_less [of b] by linarith
  moreover have "unat b div 16 * 16 + unat b mod 16 = unat b" by simp
  ultimately show ?case using Cons by (simp del: unat_byte_less)
qed

lemma hex_encode_inj: "hex_EncodeToString a = hex_EncodeToString b \<Longrightarrow> a = b"
  by (metis hex_decode_encode option.inject)

lemma hex_encode_inj_iff [simp]: "hex_EncodeToString a = hex_EncodeToString b \<longleftrightarrow> a = b"
  using hex_encode_inj by blast

lemma inj_hex_encode: "inj_on hex_EncodeToString A"
  by (simp add: inj_on_def)

lemma length_hex_encode [simp]: "length (hex_EncodeToString bs) = 2 * length bs"
  by (induction bs) auto

lemma slash_not_hex: "n < 16 \<Longrightarrow> hex_char n \<noteq> CHR ''/''"
proof
  assume "n < 16" "hex_char n = CHR ''/''"
  then have "fromHexChar (CHR ''/'') = Some n" using fromHexChar_hex_char [of n] by simp
  then show False by (simp add: fromHexChar_def)
qed

lemma slash_notin_hex [simp]: "CHR ''/'' \<notin> set (hex_EncodeToString bs)"
proof (induction bs)
  case Nil
  show ?case by simp
next
  case (Cons b bs)
  have "unat b div 16 < 16" using unat_byte_less [of b] by linarith
  then show ?case using Cons slash_not_hex [of "unat b div 16"] slash_not_hex [of "unat b mod 16"]
    by (simp add: eq_commute [of "CHR ''/''"])
qed

section \<open>strings.Split on a one character separator\<close>

fun strings_Split :: "char \<Rightarrow> string \<Rightarrow> string list" where
  "strings_Split sep [] = [[]]"
| "strings_Split sep (c # s) =
     (if c = sep then [] # strings_Split sep s
      else (case strings_Split sep s of [] \<Rightarrow> [[c]] | w # ws \<Rightarrow> (c # w) # ws))"

lemma strings_Split_not_Nil [simp]: "strings_Split sep s \<noteq> []"
  by (cases s) (auto split: list.splits)

lemma strings_Split_single: "sep \<notin> set s \<Longrightarrow> strings_Split sep s = [s]"
  by (induction s) auto

lemma strings_Split_append:
  "sep \<notin> set a \<Longrightarrow> strings_Split sep (a @ sep # b) = a # strings_Split sep b"
  by (induction a) auto

lemma sep_notin_Split: "w \<in> set (strings_Split sep s) \<Longrightarrow> sep \<notin> set w"
  by (induction s arbitrary: w) (auto split: list.splits if_splits)

section \<open>util.go\<close>

definition PubKeyToEntityID :: "ext \<Rightarrow> gobytes \<Rightarrow> string + bytes" where
  "PubKeyToEntityID x pubKey =
     (case AddrFromPublicKey x pubKey of
        None \<Rightarrow> Inl ''cannot get entityID''
      | Some address \<Rightarrow> Inr address)"

definition ValidPubKey :: "ext \<Rightarrow> gobytes \<Rightarrow> bool" where
  "ValidPubKey x pubKey = (slen pubKey = PubKeyLengthBytes x)"

text \<open>The last step of \<^verbatim>\<open>DecodeCensusID\<close>: decode the component that holds the identifier.\<close>

definition decode_census_part :: "ext \<Rightarrow> string \<Rightarrow> string + bytes" where
  "decode_census_part x censusID =
     (case hex_DecodeString (TrimHex x censusID) of
        None \<Rightarrow> Inl ''cannot decode censusID''
      | Some b \<Rightarrow> Inr b)"

definition DecodeCensusID :: "ext \<Rightarrow> string \<Rightarrow> gobytes \<Rightarrow> string + bytes" where
  "DecodeCensusID x ident pubKey =
     (case strings_Split (CHR ''/'') ident of
        [a] \<Rightarrow> decode_census_part x a
      | [a, b] \<Rightarrow>
          (case hex_DecodeString (TrimHex x a) of
             None \<Rightarrow> Inl ''error decoding address''
           | Some inputAddressBytes \<Rightarrow>
               (case AddrFromPublicKey x pubKey of
                  None \<Rightarrow> Inl ''cannot extract entity address''
                | Some recoveredAddress \<Rightarrow>
                    if recoveredAddress \<noteq> inputAddressBytes
                    then Inl ''invalid address in census id''
                    else decode_census_part x b))
      | _ \<Rightarrow> Inl ''invalid census id'')"

text \<open>
  \<^verbatim>\<open>UniqueUUIDs\<close> compacts the slice in place: \<open>i\<close> is the range index, \<open>n\<close> the write
  position, \<open>arr\<close> the backing array that the loop both reads and writes.
\<close>

function unique_loop :: "nat \<Rightarrow> nat \<Rightarrow> (uuid \<Rightarrow> bool) \<Rightarrow> uuid list \<Rightarrow> uuid list \<times> nat" where
  "unique_loop i n found arr =
     (if i < length arr
      then (let element = arr ! i in
            if \<not> found element
            then unique_loop (Suc i) (Suc n) (found(element := True)) (arr[n := element])
            else unique_loop (Suc i) n found arr)
      else (arr, n))"
  by pat_completeness auto
termination
  by (relation "measure (\<lambda>(i, n, found, arr). length arr - i)") (auto simp: Let_def)

declare unique_loop.simps [simp del]

definition UniqueUUIDs :: "uuid list \<Rightarrow> uuid list" where
  "UniqueUUIDs list = (case unique_loop 0 0 (\<lambda>_. False) list of (arr, n) \<Rightarrow> take n arr)"

definition HexPrefixed :: "string \<Rightarrow> string" where
  "HexPrefixed s = (if \<not> strings_HasPrefix s ''0x'' then ''0x'' @ s else s)"

section \<open>Facts about util.go\<close>

text \<open>The specification of \<^verbatim>\<open>UniqueUUIDs\<close>: first occurrences, in order.\<close>

fun first_occurrences :: "'a set \<Rightarrow> 'a list \<Rightarrow> 'a list" where
  "first_occurrences seen [] = []"
| "first_occurrences seen (x # xs) =
     (if x \<in> seen then first_occurrences seen xs else x # first_occurrences (insert x seen) xs)"

lemma set_first_occurrences: "set (first_occurrences seen xs) = set xs - seen"
  by (induction seen xs rule: first_occurrences.induct) auto

lemma distinct_first_occurrences: "distinct (first_occurrences seen xs)"
  by (induction seen xs rule: first_occurrences.induct) (auto simp: set_first_occurrences)

lemma drop_list_update_lt: "n < k \<Longrightarrow> drop k (xs[n := x]) = drop k xs"
  by (simp add: drop_update_cancel)

lemma unique_loop_correct:
  assumes "n \<le> i" "i \<le> length arr" "unique_loop i n found arr = (arr', m)"
  shows "take m arr' = take n arr @ first_occurrences {u. found u} (drop i arr)"
  using assms
proof (induction i n found arr arbitrary: arr' m rule: unique_loop.induct)
  case (1 i n found arr)
  show ?case
  proof (cases "i < length arr")
    case False
    then show ?thesis using "1.prems" by (simp add: unique_loop.simps)
  next
    case True
    let ?e = "arr ! i"
    have d: "drop i arr = ?e # drop (Suc i) arr" using True by (simp add: Cons_nth_drop_Suc)
    show ?thesis
    proof (cases "found ?e")
      case t: True
      have "unique_loop (Suc i) n found arr = (arr', m)"
        using "1.prems"(3) True t by (simp add: unique_loop.simps [of i n found arr] Let_def)
      then show ?thesis using "1.IH"(2) [OF True refl, of arr' m] t "1.prems" True d by simp
    next
      case f: False
      let ?a = "arr[n := ?e]"
      have u: "unique_loop (Suc i) (Suc n) (found(?e := True)) ?a = (arr', m)"
        using "1.prems"(3) True f by (simp add: unique_loop.simps [of i n found arr] Let_def)
      have IH: "take m arr' = take (Suc n) ?a @
          first_occurrences {u. (found(?e := True)) u} (drop (Suc i) ?a)"
        using "1.IH"(1) [OF True refl _ _ _ u] f "1.prems"(1) True by simp
      have "take (Suc n) ?a = take n arr @ [?e]"
        using "1.prems"(1) True by (simp add: take_Suc_conv_app_nth)
      moreover have "drop (Suc i) ?a = drop (Suc i) arr"
        using "1.prems"(1) by (simp add: drop_list_update_lt)
      moreover have "{u. (found(?e := True)) u} = insert ?e {u. found u}" by auto
      ultimately show ?thesis using IH f d by simp
    qed
  qed
qed

lemma UniqueUUIDs_eq: "UniqueUUIDs xs = first_occurrences {} xs"
  using unique_loop_correct [of 0 0 xs "\<lambda>_. False"]
  by (cases "unique_loop 0 0 (\<lambda>_. False) xs") (simp add: UniqueUUIDs_def)

lemma decode_census_part_Inr:
  "decode_census_part x a = Inr b \<longleftrightarrow> hex_DecodeString (TrimHex x a) = Some b"
  by (auto simp: decode_census_part_def split: option.splits)

lemma DecodeCensusID_Inr_cases:
  assumes "DecodeCensusID x ident pk = Inr b"
  obtains (plain) "CHR ''/'' \<notin> set ident" "hex_DecodeString (TrimHex x ident) = Some b"
  | (addressed) a c where "strings_Split (CHR ''/'') ident = [a, c]"
      "hex_DecodeString (TrimHex x a) = AddrFromPublicKey x pk" "AddrFromPublicKey x pk \<noteq> None"
      "hex_DecodeString (TrimHex x c) = Some b"
proof (cases "CHR ''/'' \<in> set ident")
  case False
  then show ?thesis
    using assms plain by (auto simp: DecodeCensusID_def strings_Split_single decode_census_part_Inr)
next
  case True
  then obtain p q where pq: "ident = p @ CHR ''/'' # q" "CHR ''/'' \<notin> set p"
    by (auto dest: split_list_first)
  then obtain w ws where w: "strings_Split (CHR ''/'') ident = p # w # ws"
    by (metis neq_Nil_conv strings_Split_append strings_Split_not_Nil)
  then have ws: "ws = []"
    using assms by (auto simp: DecodeCensusID_def split: list.splits)
  show ?thesis
    using assms w ws addressed [of p w]
    by (auto simp: DecodeCensusID_def decode_census_part_Inr split: option.splits if_splits)
qed

section \<open>Properties\<close>

text \<open>
  C21: \<^verbatim>\<open>UniqueUUIDs\<close>, which overwrites the slice it is reading, returns the distinct elements of
  the slice in the order of their first occurrences.
\<close>

theorem UniqueUUIDs_correct:
  "UniqueUUIDs xs = first_occurrences {} xs \<and> distinct (UniqueUUIDs xs) \<and> set (UniqueUUIDs xs) = set xs \<and>
   (distinct xs \<longrightarrow> UniqueUUIDs xs = xs)"
proof -
  have "first_occurrences A ys = ys" if "distinct ys" "A \<inter> set ys = {}" for A and ys :: "uuid list"
    using that by (induction A ys rule: first_occurrences.induct) auto
  then show ?thesis by (simp add: UniqueUUIDs_eq set_first_occurrences distinct_first_occurrences)
qed

theorem UniqueUUIDs_correct_witness: "UniqueUUIDs [4, 9, 2] = [4, 9, 2]"
  using UniqueUUIDs_correct [of "[4, 9, 2]"] by simp

text \<open>
  C22: \<^verbatim>\<open>DecodeCensusID\<close> accepts an identifier with an address only when the address is that of
  the caller's key, and decodes the printed form of an identifier, with or without the address, to
  the identifier itself, when \<^verbatim>\<open>TrimHex\<close> removes the prefix and nothing else.
\<close>

theorem DecodeCensusID_own_address:
  assumes "\<And>bs. TrimHex x (''0x'' @ hex_EncodeToString bs) = hex_EncodeToString bs"
    and "AddrFromPublicKey x pk = Some addr"
  shows "DecodeCensusID x (''0x'' @ hex_EncodeToString a @ ''/0x'' @ hex_EncodeToString c) pk =
      (if a = addr then Inr c else Inl ''invalid address in census id'') \<and>
    DecodeCensusID x (''0x'' @ hex_EncodeToString c) pk = Inr c"
proof -
  have 1: "strings_Split (CHR ''/'') (''0x'' @ hex_EncodeToString a @ ''/0x'' @ hex_EncodeToString c) =
      [''0x'' @ hex_EncodeToString a, ''0x'' @ hex_EncodeToString c]"
    using strings_Split_append [of "CHR ''/''" "''0x'' @ hex_EncodeToString a" "''0x'' @ hex_EncodeToString c"]
      strings_Split_single [of "CHR ''/''" "''0x'' @ hex_EncodeToString c"] by simp
  have 2: "strings_Split (CHR ''/'') (''0x'' @ hex_EncodeToString c) = [''0x'' @ hex_EncodeToString c]"
    using strings_Split_single [of "CHR ''/''" "''0x'' @ hex_EncodeToString c"] by simp
  show ?thesis
    unfolding DecodeCensusID_def 1 2
    using assms by (auto simp: decode_census_part_def simp del: append_Cons)
qed

theorem DecodeCensusID_own_address_witness:
  "DecodeCensusID demo_ext ''0x07/0x0b'' (Some [1, 7]) = Inr [11]"
proof -
  have "TrimHex demo_ext (''0x'' @ hex_EncodeToString bs) = hex_EncodeToString bs" for bs
    by (simp add: demo_ext_def strings_HasPrefix_def)
  moreover have "AddrFromPublicKey demo_ext (Some [1, 7]) = Some [7]" by (simp add: demo_ext_def)
  moreover have "hex_EncodeToString [7] = ''07''" "hex_EncodeToString [11] = ''0b''" by code_simp+
  ultimately show ?thesis
    using DecodeCensusID_own_address [of demo_ext "Some [1, 7]" "[7]" "[7]" "[11]"] by simp
qed

end
