(* ===== verification/Schema.thy ===== *)
theory Schema
  imports Util
begin

text \<open>
  The relational state: the tables that the seven migrations of \<^verbatim>\<open>database/pgsql/migrations.go\<close>
  build, one record per table, with every PRIMARY KEY, UNIQUE and FOREIGN KEY constraint they
  declare. An INSERT tests the constraints the way the server does (the uniqueness of every row as
  it goes in, the references at the end of the statement); a DELETE follows the ON DELETE CASCADE
  clauses and then tests the references that have none. \<open>wf_db\<close> is the schema as an invariant.
\<close>

section \<open>Errors\<close>

text \<open>
  The values of Go's \<^verbatim>\<open>error\<close> that reach the code: \<^verbatim>\<open>sql.ErrNoRows\<close>, the server's constraint
  violations, any other failure of the driver (its text is arbitrary), and the errors the code
  builds with \<^verbatim>\<open>fmt.Errorf\<close>, which may wrap another one.
\<close>

datatype dberror =
    ErrNoRows
  | UniqueViolation string
  | ForeignKeyViolation string
  | NotNullViolation string
  | DriverError string
  | Errorf string "dberror option"

text \<open>\<^verbatim>\<open>err.Error()\<close>; \<open>CHR 0x22\<close> is the double quote.\<close>

fun err_text :: "dberror \<Rightarrow> string" where
  "err_text ErrNoRows = ''sql: no rows in result set''"
| "err_text (UniqueViolation c) =
     ''ERROR: duplicate key value violates unique constraint '' @ [CHR 0x22] @ c @ [CHR 0x22]"
| "err_text (ForeignKeyViolation c) =
     ''ERROR: violates foreign key constraint '' @ [CHR 0x22] @ c @ [CHR 0x22]"
| "err_text (NotNullViolation c) =
     ''ERROR: null value violates not-null constraint in column '' @ [CHR 0x22] @ c @ [CHR 0x22]"
| "err_text (DriverError s) = s"
| "err_text (Errorf s None) = s"
| "err_text (Errorf s (Some e)) = s @ '': '' @ err_text e"

section \<open>Tables\<close>

datatype pg_origin = PgToken | PgForm | PgDB | PgAPI

text \<open>The input function of the enum \<^verbatim>\<open>origins\<close> after migration 5.\<close>

definition origins_in :: "string \<Rightarrow> pg_origin option" where
  "origins_in s =
     (if s = ''Token'' then Some PgToken
      else if s = ''Form'' then Some PgForm
      else if s = ''DB'' then Some PgDB
      else if s = ''API'' then Some PgAPI
      else None)"

fun origins_out :: "pg_origin \<Rightarrow> string" where
  "origins_out PgToken = ''Token''"
| "origins_out PgForm = ''Form''"
| "origins_out PgDB = ''DB''"
| "origins_out PgAPI = ''API''"

record entity_row =
  e_updated_at :: gotime
  e_created_at :: gotime
  e_id :: bytes
  e_email :: string
  e_name :: string
  e_callback_url :: string
  e_callback_secret :: string
  e_census_managers_addresses :: "bytes list"
  e_is_authorized :: bool
  e_type :: string
  e_size :: int
  e_consented :: bool

record user_row =
  u_updated_at :: gotime
  u_created_at :: gotime
  u_public_key :: bytes
  u_digested_public_key :: bytes

record member_row =
  m_updated_at :: gotime
  m_created_at :: gotime
  m_id :: uuid
  m_entity_id :: bytes
  m_public_key :: gobytes
  m_street_address :: string
  m_first_name :: string
  m_last_name :: string
  m_phone :: string
  m_date_of_birth :: gotime
  m_origin :: pg_origin
  m_consented :: bool
  m_verified :: gotime
  m_custom_fields :: bytes
  m_tags :: "int list"
  m_email :: "string option"

record target_row =
  t_updated_at :: gotime
  t_created_at :: gotime
  t_id :: uuid
  t_entity_id :: bytes
  t_name :: string
  t_filters :: bytes

record census_row =
  c_updated_at :: gotime
  c_created_at :: gotime
  c_target_id :: uuid
  c_id :: bytes
  c_name :: string
  c_entity_id :: bytes
  c_merkle_root :: bytes
  c_merkle_tree_uri :: string
  c_size :: int
  c_ephemeral :: bool

record census_member_row =
  x_member_id :: uuid
  x_census_id :: bytes
  x_ephemeral :: bool
  x_public_key :: gobytes
  x_digested_public_key :: gobytes
  x_private_key :: gobytes

record tag_row =
  g_updated_at :: gotime
  g_created_at :: gotime
  g_id :: int
  g_name :: string
  g_entity_id :: bytes

text \<open>
  The whole state: the tables, the sequence behind the SERIAL column \<^verbatim>\<open>tags.id\<close> and the number of
  connections of the pool that a call took and never gave back, because it left a transaction
  neither committed nor rolled back or a result neither closed nor read to its end.
\<close>

record pgdb =
  entities :: "entity_row list"
  entities_origins :: "(pg_origin \<times> bytes) list"
  users :: "user_row list"
  members :: "member_row list"
  targets :: "target_row list"
  censuses :: "census_row list"
  census_members :: "census_member_row list"
  tags :: "tag_row list"
  tags_seq :: int
  open_tx :: nat

definition empty_db :: pgdb where
  "empty_db = \<lparr>entities = [], entities_origins = [], users = [], members = [], targets = [],
     censuses = [], census_members = [], tags = [], tags_seq = 1, open_tx = 0\<rparr>"

section \<open>The surroundings of a call\<close>

text \<open>
  What one call of a database method gets from its surroundings: \<open>io k\<close> is the failure of its
  \<open>k\<close>-th round trip to the server, if it fails; \<open>now\<close> is the instant it runs at; \<open>fresh k\<close>
  are the UUIDs drawn by \<^verbatim>\<open>uuid.New\<close> and \<^verbatim>\<open>gen_random_uuid\<close>; \<open>keygen k\<close> the key pairs (public,
  private) drawn by \<^verbatim>\<open>SignKeys.Generate\<close>, \<open>None\<close> when it fails; \<open>member_le col\<close> and
  \<open>census_le col\<close> the order that the server's collation gives to the rows by the column \<open>col\<close>.
\<close>

record env =
  io :: "nat \<Rightarrow> string option"
  now :: gotime
  fresh :: "nat \<Rightarrow> uuid"
  keygen :: "nat \<Rightarrow> (bytes \<times> bytes) option"
  member_le :: "string \<Rightarrow> member_row \<Rightarrow> member_row \<Rightarrow> bool"
  census_le :: "string \<Rightarrow> census_row \<Rightarrow> census_row \<Rightarrow> bool"

text \<open>A call that meets no failure; \<open>quiet t\<close> is one such surrounding, at the instant \<open>t\<close>.\<close>

definition no_faults :: "env \<Rightarrow> bool" where
  "no_faults ev = (io ev = (\<lambda>_. None))"

definition quiet :: "gotime \<Rightarrow> env" where
  "quiet t = \<lparr>io = (\<lambda>_. None), now = t, fresh = (\<lambda>k. word_of_int (t * 1000 + int k + 1)),
     keygen = (\<lambda>k. Some ([2, of_nat k], [9, of_nat k])),
     member_le = (\<lambda>_ a b. unat (m_id a) \<le> unat (m_id b)),
     census_le = (\<lambda>_ a b. c_created_at a \<le> c_created_at b)\<rparr>"

definition io_err :: "env \<Rightarrow> nat \<Rightarrow> dberror option" where
  "io_err ev k = map_option DriverError (io ev k)"

section \<open>Keys\<close>

definition e_key :: "entity_row \<Rightarrow> bytes option" where
  [sql_defs]: "e_key r = Some (e_id r)"
definition o_entity :: "pg_origin \<times> bytes \<Rightarrow> bytes option" where
  [sql_defs]: "o_entity r = Some (snd r)"
definition o_key :: "pg_origin \<times> bytes \<Rightarrow> (pg_origin \<times> bytes) option" where
  [sql_defs]: "o_key r = Some r"
definition u_key :: "user_row \<Rightarrow> bytes option" where
  [sql_defs]: "u_key r = Some (u_public_key r)"
definition u_digest :: "user_row \<Rightarrow> bytes option" where
  [sql_defs]: "u_digest r = Some (u_digested_public_key r)"
definition m_key :: "member_row \<Rightarrow> uuid option" where
  [sql_defs]: "m_key r = Some (m_id r)"
definition m_entity :: "member_row \<Rightarrow> bytes option" where
  [sql_defs]: "m_entity r = Some (m_entity_id r)"
definition m_origin_key :: "member_row \<Rightarrow> (pg_origin \<times> bytes) option" where
  [sql_defs]: "m_origin_key r = Some (m_origin r, m_entity_id r)"
definition m_entity_pubkey :: "member_row \<Rightarrow> (bytes \<times> bytes) option" where
  [sql_defs]: "m_entity_pubkey r = map_option (\<lambda>k. (m_entity_id r, k)) (m_public_key r)"
definition m_entity_email :: "member_row \<Rightarrow> (bytes \<times> string) option" where
  [sql_defs]: "m_entity_email r = map_option (\<lambda>k. (m_entity_id r, k)) (m_email r)"
definition t_key :: "target_row \<Rightarrow> uuid option" where
  [sql_defs]: "t_key r = Some (t_id r)"
definition t_entity :: "target_row \<Rightarrow> bytes option" where
  [sql_defs]: "t_entity r = Some (t_entity_id r)"
definition t_entity_name :: "target_row \<Rightarrow> (bytes \<times> string) option" where
  [sql_defs]: "t_entity_name r = Some (t_entity_id r, t_name r)"
definition c_key :: "census_row \<Rightarrow> bytes option" where
  [sql_defs]: "c_key r = Some (c_id r)"
definition c_entity :: "census_row \<Rightarrow> bytes option" where
  [sql_defs]: "c_entity r = Some (c_entity_id r)"
definition c_target :: "census_row \<Rightarrow> uuid option" where
  [sql_defs]: "c_target r = Some (c_target_id r)"
definition x_key :: "census_member_row \<Rightarrow> (uuid \<times> bytes) option" where
  [sql_defs]: "x_key r = Some (x_member_id r, x_census_id r)"
definition x_member :: "census_member_row \<Rightarrow> uuid option" where
  [sql_defs]: "x_member r = Some (x_member_id r)"
definition x_census :: "census_member_row \<Rightarrow> bytes option" where
  [sql_defs]: "x_census r = Some (x_census_id r)"
definition g_key :: "tag_row \<Rightarrow> int option" where
  [sql_defs]: "g_key r = Some (g_id r)"
definition g_entity :: "tag_row \<Rightarrow> bytes option" where
  [sql_defs]: "g_entity r = Some (g_entity_id r)"
definition g_name_entity :: "tag_row \<Rightarrow> (string \<times> bytes) option" where
  [sql_defs]: "g_name_entity r = Some (g_name r, g_entity_id r)"

lemmas key_defs = e_key_def o_entity_def o_key_def u_key_def u_digest_def m_key_def m_entity_def
  m_origin_key_def m_entity_pubkey_def m_entity_email_def t_key_def t_entity_def t_entity_name_def
  c_key_def c_entity_def c_target_def x_key_def x_member_def x_census_def g_key_def g_entity_def
  g_name_entity_def

abbreviation entity_ids :: "pgdb \<Rightarrow> bytes list" where
  "entity_ids db \<equiv> map e_id (entities db)"
abbreviation user_keys :: "pgdb \<Rightarrow> bytes list" where
  "user_keys db \<equiv> map u_public_key (users db)"
abbreviation member_ids :: "pgdb \<Rightarrow> uuid list" where
  "member_ids db \<equiv> map m_id (members db)"
abbreviation target_ids :: "pgdb \<Rightarrow> uuid list" where
  "target_ids db \<equiv> map t_id (targets db)"
abbreviation census_ids :: "pgdb \<Rightarrow> bytes list" where
  "census_ids db \<equiv> map c_id (censuses db)"

section \<open>The schema as an invariant\<close>

definition wf_entities :: "pgdb \<Rightarrow> bool" where
  "wf_entities db = (uniq e_key (entities db) \<and> uniq o_key (entities_origins db) \<and>
     refs o_entity (entities_origins db) (entity_ids db))"

definition wf_users :: "pgdb \<Rightarrow> bool" where
  "wf_users db = (uniq u_key (users db) \<and> uniq u_digest (users db))"

definition wf_members :: "pgdb \<Rightarrow> bool" where
  "wf_members db = (uniq m_key (members db) \<and> uniq m_entity_pubkey (members db) \<and>
     uniq m_entity_email (members db) \<and>
     refs m_entity (members db) (entity_ids db) \<and>
     refs m_public_key (members db) (user_keys db) \<and>
     refs m_origin_key (members db) (entities_origins db))"

definition wf_targets :: "pgdb \<Rightarrow> bool" where
  "wf_targets db = (uniq t_key (targets db) \<and> uniq t_entity_name (targets db) \<and>
     refs t_entity (targets db) (entity_ids db))"

definition wf_censuses :: "pgdb \<Rightarrow> bool" where
  "wf_censuses db = (uniq c_key (censuses db) \<and> refs c_entity (censuses db) (entity_ids db) \<and>
     refs c_target (censuses db) (target_ids db))"

definition wf_census_members :: "pgdb \<Rightarrow> bool" where
  "wf_census_members db = (uniq x_key (census_members db) \<and>
     refs x_member (census_members db) (member_ids db) \<and>
     refs x_census (census_members db) (census_ids db))"

text \<open>Besides its constraints, a tag's number was drawn from the sequence.\<close>

definition wf_tags :: "pgdb \<Rightarrow> bool" where
  "wf_tags db = (uniq g_key (tags db) \<and> uniq g_name_entity (tags db) \<and>
     refs g_entity (tags db) (entity_ids db) \<and>
     list_all (\<lambda>r. 1 \<le> g_id r \<and> g_id r < tags_seq db) (tags db) \<and>
     1 \<le> tags_seq db \<and> tags_seq db \<le> 2147483648)"

definition wf_db :: "pgdb \<Rightarrow> bool" where
  "wf_db db = (wf_entities db \<and> wf_users db \<and> wf_members db \<and> wf_targets db \<and>
     wf_censuses db \<and> wf_census_members db \<and> wf_tags db)"

lemmas wf_parts = wf_entities_def wf_users_def wf_members_def wf_targets_def wf_censuses_def
  wf_census_members_def wf_tags_def

lemma wf_empty_db [simp]: "wf_db empty_db"
  by (simp add: wf_db_def wf_parts empty_db_def)

lemma wf_open_tx [simp]: "wf_db (db\<lparr>open_tx := n\<rparr>) = wf_db db"
  by (simp add: wf_db_def wf_parts)

lemma no_faults_io [simp]: "no_faults ev \<Longrightarrow> io_err ev k = None"
  by (simp add: no_faults_def io_err_def)

lemma no_faults_quiet [simp]: "no_faults (quiet t)"
  by (simp add: no_faults_def quiet_def)

lemma io_err_quiet [simp]: "io_err (quiet t) k = None"
  by simp

lemma quiet_simps [simp]: "now (quiet t) = t" "fresh (quiet t) k = word_of_int (t * 1000 + int k + 1)"
  "keygen (quiet t) k = Some ([2, of_nat k], [9, of_nat k])"
  by (simp_all add: quiet_def)

section \<open>A small database\<close>

text \<open>
  Two entities with members, targets, a census with one entry, tags and users; the theorems of the
  component theories are instantiated on it.
\<close>

definition demo_entity :: "bytes \<Rightarrow> entity_row" where
  "demo_entity i = \<lparr>e_updated_at = 1, e_created_at = 1, e_id = i, e_email = ''o@x.org'', e_name = ''org'',
     e_callback_url = [], e_callback_secret = ''secret'', e_census_managers_addresses = [i],
     e_is_authorized = False, e_type = [], e_size = 10, e_consented = True\<rparr>"

definition demo_member :: "uuid \<Rightarrow> bytes \<Rightarrow> gobytes \<Rightarrow> string option \<Rightarrow> int list \<Rightarrow> member_row" where
  "demo_member u i k em ts = \<lparr>m_updated_at = 1, m_created_at = 1, m_id = u, m_entity_id = i,
     m_public_key = k, m_street_address = [], m_first_name = ''F'', m_last_name = ''L'', m_phone = [],
     m_date_of_birth = 5, m_origin = PgToken, m_consented = False, m_verified = 0,
     m_custom_fields = [123, 125], m_tags = ts, m_email = em\<rparr>"

definition demo_target :: "uuid \<Rightarrow> bytes \<Rightarrow> target_row" where
  "demo_target u i = \<lparr>t_updated_at = 1, t_created_at = 1, t_id = u, t_entity_id = i, t_name = ''all'',
     t_filters = [123, 125]\<rparr>"

definition demo_db :: pgdb where
  "demo_db = \<lparr>entities = [demo_entity [7], demo_entity [8]],
     entities_origins = [(PgToken, [7]), (PgDB, [7]), (PgToken, [8])],
     users = [\<lparr>u_updated_at = 1, u_created_at = 1, u_public_key = [4], u_digested_public_key = [5]\<rparr>,
              \<lparr>u_updated_at = 1, u_created_at = 1, u_public_key = [6], u_digested_public_key = [6]\<rparr>],
     members = [demo_member 1 [7] (Some [4]) (Some ''a@x.org'') [1], demo_member 2 [7] None None [],
                demo_member 3 [8] (Some [6]) (Some ''a@x.org'') []],
     targets = [demo_target 11 [7], demo_target 12 [8]],
     censuses = [\<lparr>c_updated_at = 1, c_created_at = 1, c_target_id = 11, c_id = [1, 1], c_name = ''c'',
       c_entity_id = [7], c_merkle_root = [3], c_merkle_tree_uri = ''uri'', c_size = 1,
       c_ephemeral = False\<rparr>],
     census_members = [\<lparr>x_member_id = 1, x_census_id = [1, 1], x_ephemeral = False,
       x_public_key = Some [4], x_digested_public_key = Some [5], x_private_key = None\<rparr>],
     tags = [\<lparr>g_updated_at = 1, g_created_at = 1, g_id = 1, g_name = ''vip'', g_entity_id = [7]\<rparr>],
     tags_seq = 2, open_tx = 0\<rparr>"

lemma wf_demo_db [simp]: "wf_db demo_db"
  by code_simp

end
