(* ===== verification/Statements.thy ===== *)
theory Statements
  imports Schema
begin

text \<open>
  The effect of the SQL statements that \<^verbatim>\<open>database/pgsql/pgsql.go\<close> sends: INSERT of one or many
  rows, DELETE with its cascades and UPDATE of members, as functions on the tables, each with the
  rule that it keeps \<open>wf_db\<close>.
\<close>

section \<open>INSERT\<close>

fun first_some :: "'a option list \<Rightarrow> 'a option" where
  "first_some [] = None"
| "first_some (None # xs) = first_some xs"
| "first_some (Some x # xs) = Some x"

lemma first_some_None_iff [simp]: "first_some xs = None \<longleftrightarrow> (\<forall>x\<in>set xs. x = None)"
  by (induction xs rule: first_some.induct) auto

lemma first_some_SomeD: "first_some xs = Some e \<Longrightarrow> Some e \<in> set xs"
  by (induction xs rule: first_some.induct) auto

definition viol :: "bool \<Rightarrow> 'e \<Rightarrow> 'e option" where
  [sql_defs]: "viol c e = (if c then Some e else None)"

lemma viol_None [simp]: "viol c e = None \<longleftrightarrow> \<not> c"
  by (simp add: viol_def)

text \<open>
  An INSERT of the rows of one VALUES list: \<open>uq\<close> is the test of the primary key and the UNIQUE
  constraints against the rows already in, \<open>fk\<close> the test of the foreign keys, made when all rows
  are in, \<open>add\<close> the effect on the table.
\<close>

fun insert_uniq :: "('r \<Rightarrow> 'd \<Rightarrow> dberror option) \<Rightarrow> ('r \<Rightarrow> 'd \<Rightarrow> 'd) \<Rightarrow> 'r list \<Rightarrow> 'd \<Rightarrow> dberror + 'd" where
  "insert_uniq uq add [] d = Inr d"
| "insert_uniq uq add (r # rs) d =
     (case uq r d of Some e \<Rightarrow> Inl e | None \<Rightarrow> insert_uniq uq add rs (add r d))"

definition insert_stmt :: "('r \<Rightarrow> 'd \<Rightarrow> dberror option) \<Rightarrow> ('r \<Rightarrow> 'd \<Rightarrow> dberror option) \<Rightarrow>
    ('r \<Rightarrow> 'd \<Rightarrow> 'd) \<Rightarrow> 'r list \<Rightarrow> 'd \<Rightarrow> dberror + 'd" where
  "insert_stmt uq fk add rs d =
     (case insert_uniq uq add rs d of
        Inl e \<Rightarrow> Inl e
      | Inr d' \<Rightarrow> (case first_some (map (\<lambda>r. fk r d') rs) of Some e \<Rightarrow> Inl e | None \<Rightarrow> Inr d'))"

text \<open>
  The contract of an insertable table: the reference test looks at other tables only, so the rows
  that a statement adds do not change it.
\<close>

locale insert_table =
  fixes uq :: "'r \<Rightarrow> 'd \<Rightarrow> dberror option"
    and fk :: "'r \<Rightarrow> 'd \<Rightarrow> dberror option"
    and add :: "'r \<Rightarrow> 'd \<Rightarrow> 'd"
  assumes fk_add: "fk r (add r' d) = fk r d"
begin

lemma insert_uniq_fold: "insert_uniq uq add rs d = Inr d' \<Longrightarrow> d' = fold add rs d"
  by (induction rs arbitrary: d) (auto split: option.splits)

lemma fk_fold: "fk r (fold add rs d) = fk r d"
  by (induction rs arbitrary: d) (auto simp: fk_add)

lemma fk_insert_uniq: "insert_uniq uq add rs d = Inr d' \<Longrightarrow> fk r d' = fk r d"
  using insert_uniq_fold fk_fold by metis

lemma insert_stmt_Inr: "insert_stmt uq fk add rs d = Inr d' \<longleftrightarrow>
    insert_uniq uq add rs d = Inr d' \<and> (\<forall>r\<in>set rs. fk r d = None)"
proof (cases "insert_uniq uq add rs d")
  case (Inl e)
  then show ?thesis by (simp add: insert_stmt_def)
next
  case (Inr d1)
  have s: "insert_stmt uq fk add rs d =
      (case first_some (map (\<lambda>r. fk r d) rs) of Some e \<Rightarrow> Inl e | None \<Rightarrow> Inr d1)"
    using Inr by (simp add: insert_stmt_def fk_insert_uniq [OF Inr])
  show ?thesis
  proof (cases "first_some (map (\<lambda>r. fk r d) rs)")
    case None
    have "insert_stmt uq fk add rs d = Inr d1" unfolding s None by simp
    then show ?thesis using None Inr by simp
  next
    case (Some e)
    then have "\<exists>r\<in>set rs. fk r d = Some e" using first_some_SomeD [OF Some] by auto
    then have "\<not> (\<forall>r\<in>set rs. fk r d = None)" by auto
    then show ?thesis using s Some by simp
  qed
qed

lemma insert_stmt_Nil [simp]: "insert_stmt uq fk add [] d = Inr d"
  by (simp add: insert_stmt_def)

lemma insert_uniq_append: "insert_uniq uq add (xs @ ys) d =
    (case insert_uniq uq add xs d of Inl e \<Rightarrow> Inl e | Inr d' \<Rightarrow> insert_uniq uq add ys d')"
  by (induction xs arbitrary: d) (auto split: option.splits)

text \<open>One statement for all rows succeeds with the result that two statements in turn have.\<close>

lemma insert_stmt_append: "insert_stmt uq fk add (xs @ ys) d = Inr d' \<longleftrightarrow>
    (\<exists>d1. insert_stmt uq fk add xs d = Inr d1 \<and> insert_stmt uq fk add ys d1 = Inr d')"
proof
  assume "insert_stmt uq fk add (xs @ ys) d = Inr d'"
  then have all: "insert_uniq uq add (xs @ ys) d = Inr d'" "\<forall>r\<in>set (xs @ ys). fk r d = None"
    by (auto simp: insert_stmt_Inr)
  then obtain d1 where d1: "insert_uniq uq add xs d = Inr d1" "insert_uniq uq add ys d1 = Inr d'"
    by (auto simp: insert_uniq_append split: sum.splits)
  then show "\<exists>d1. insert_stmt uq fk add xs d = Inr d1 \<and> insert_stmt uq fk add ys d1 = Inr d'"
    using all(2) by (auto simp: insert_stmt_Inr fk_insert_uniq [OF d1(1)])
next
  assume "\<exists>d1. insert_stmt uq fk add xs d = Inr d1 \<and> insert_stmt uq fk add ys d1 = Inr d'"
  then show "insert_stmt uq fk add (xs @ ys) d = Inr d'"
    by (auto simp: insert_stmt_Inr insert_uniq_append fk_insert_uniq)
qed

lemma insert_stmt_fold: "insert_stmt uq fk add rs d = Inr d' \<Longrightarrow> d' = fold add rs d"
  by (auto simp: insert_stmt_Inr insert_uniq_fold)

lemma insert_stmt_one: "insert_stmt uq fk add [r] d =
    (case uq r d of Some e \<Rightarrow> Inl e
     | None \<Rightarrow> (case fk r d of Some e \<Rightarrow> Inl e | None \<Rightarrow> Inr (add r d)))"
  by (cases "fk r d") (auto simp: insert_stmt_def fk_add split: option.splits)

text \<open>A property that every tested row keeps holds after the statement.\<close>

lemma insert_stmt_inv:
  assumes "insert_stmt uq fk add rs d = Inr d'" and "P d"
    and step: "\<And>r d. P d \<Longrightarrow> uq r d = None \<Longrightarrow> fk r d = None \<Longrightarrow> P (add r d)"
  shows "P d'"
  using assms(1,2)
proof (induction rs arbitrary: d)
  case Nil
  then show ?case by simp
next
  case (Cons r rs)
  then have r: "uq r d = None" "fk r d = None" "insert_stmt uq fk add rs (add r d) = Inr d'"
    by (auto simp: insert_stmt_Inr fk_add split: option.splits)
  then have "P (add r d)" using Cons.prems(2) by (intro step)
  then show ?case using Cons.IH r(3) by blast
qed

end

section \<open>The tables that are inserted into\<close>

definition entity_uq :: "entity_row \<Rightarrow> pgdb \<Rightarrow> dberror option" where
  [sql_defs]: "entity_uq r db = viol (clash e_key r (entities db)) (UniqueViolation ''entities_pkey'')"
definition entity_add :: "entity_row \<Rightarrow> pgdb \<Rightarrow> pgdb" where
  [sql_defs]: "entity_add r db = db\<lparr>entities := entities db @ [r]\<rparr>"

definition origin_uq :: "pg_origin \<times> bytes \<Rightarrow> pgdb \<Rightarrow> dberror option" where
  [sql_defs]: "origin_uq r db =
     viol (clash o_key r (entities_origins db)) (UniqueViolation ''entities_origins_pkey'')"
definition origin_fk :: "pg_origin \<times> bytes \<Rightarrow> pgdb \<Rightarrow> dberror option" where
  [sql_defs]: "origin_fk r db =
     viol (snd r \<notin> set (entity_ids db)) (ForeignKeyViolation ''entities_origins_entity_id_fkey'')"
definition origin_add :: "pg_origin \<times> bytes \<Rightarrow> pgdb \<Rightarrow> pgdb" where
  [sql_defs]: "origin_add r db = db\<lparr>entities_origins := entities_origins db @ [r]\<rparr>"

definition user_uq :: "user_row \<Rightarrow> pgdb \<Rightarrow> dberror option" where
  [sql_defs]: "user_uq r db = first_some
     [viol (clash u_key r (users db)) (UniqueViolation ''users_pkey''),
      viol (clash u_digest r (users db)) (UniqueViolation ''users_digested_public_key_unique'')]"
definition user_add :: "user_row \<Rightarrow> pgdb \<Rightarrow> pgdb" where
  [sql_defs]: "user_add r db = db\<lparr>users := users db @ [r]\<rparr>"

definition member_uq :: "member_row \<Rightarrow> pgdb \<Rightarrow> dberror option" where
  [sql_defs]: "member_uq r db = first_some
     [viol (clash m_key r (members db)) (UniqueViolation ''members_pkey''),
      viol (clash m_entity_pubkey r (members db))
        (UniqueViolation ''members_entity_id_public_key_unique''),
      viol (clash m_entity_email r (members db)) (UniqueViolation ''members_entity_id_email_unique'')]"
definition member_fk :: "member_row \<Rightarrow> pgdb \<Rightarrow> dberror option" where
  [sql_defs]: "member_fk r db = first_some
     [viol (m_entity_id r \<notin> set (entity_ids db)) (ForeignKeyViolation ''members_entity_id_fkey''),
      viol ((m_origin r, m_entity_id r) \<notin> set (entities_origins db))
        (ForeignKeyViolation ''members_entity_id_origins_fkey''),
      viol (case m_public_key r of None \<Rightarrow> False | Some k \<Rightarrow> k \<notin> set (user_keys db))
        (ForeignKeyViolation ''members_public_key_fkey'')]"
definition member_add :: "member_row \<Rightarrow> pgdb \<Rightarrow> pgdb" where
  [sql_defs]: "member_add r db = db\<lparr>members := members db @ [r]\<rparr>"

definition target_uq :: "target_row \<Rightarrow> pgdb \<Rightarrow> dberror option" where
  [sql_defs]: "target_uq r db = first_some
     [viol (clash t_key r (targets db)) (UniqueViolation ''targets_pkey''),
      viol (clash t_entity_name r (targets db)) (UniqueViolation ''targets_entity_id_name_unique'')]"
definition target_fk :: "target_row \<Rightarrow> pgdb \<Rightarrow> dberror option" where
  [sql_defs]: "target_fk r db =
     viol (t_entity_id r \<notin> set (entity_ids db)) (ForeignKeyViolation ''targets_entity_id_fkey'')"
definition target_add :: "target_row \<Rightarrow> pgdb \<Rightarrow> pgdb" where
  [sql_defs]: "target_add r db = db\<lparr>targets := targets db @ [r]\<rparr>"

definition census_uq :: "census_row \<Rightarrow> pgdb \<Rightarrow> dberror option" where
  [sql_defs]: "census_uq r db = viol (clash c_key r (censuses db)) (UniqueViolation ''censuses_pkey'')"
definition census_fk :: "census_row \<Rightarrow> pgdb \<Rightarrow> dberror option" where
  [sql_defs]: "census_fk r db = first_some
     [viol (c_target_id r \<notin> set (target_ids db)) (ForeignKeyViolation ''censuses_target_id_fkey''),
      viol (c_entity_id r \<notin> set (entity_ids db)) (ForeignKeyViolation ''censuses_entity_id_fkey'')]"
definition census_add :: "census_row \<Rightarrow> pgdb \<Rightarrow> pgdb" where
  [sql_defs]: "census_add r db = db\<lparr>censuses := censuses db @ [r]\<rparr>"

definition census_member_uq :: "census_member_row \<Rightarrow> pgdb \<Rightarrow> dberror option" where
  [sql_defs]: "census_member_uq r db =
     viol (clash x_key r (census_members db)) (UniqueViolation ''census_members_pkey'')"
definition census_member_fk :: "census_member_row \<Rightarrow> pgdb \<Rightarrow> dberror option" where
  [sql_defs]: "census_member_fk r db = first_some
     [viol (x_member_id r \<notin> set (member_ids db))
        (ForeignKeyViolation ''census_members_member_id_fkey''),
      viol (x_census_id r \<notin> set (census_ids db))
        (ForeignKeyViolation ''census_members_census_id_fkey'')]"
definition census_member_add :: "census_member_row \<Rightarrow> pgdb \<Rightarrow> pgdb" where
  [sql_defs]: "census_member_add r db = db\<lparr>census_members := census_members db @ [r]\<rparr>"

definition tag_uq :: "tag_row \<Rightarrow> pgdb \<Rightarrow> dberror option" where
  [sql_defs]: "tag_uq r db = first_some
     [viol (clash g_key r (tags db)) (UniqueViolation ''tags_pkey''),
      viol (clash g_name_entity r (tags db)) (UniqueViolation ''tags_name_entity_id_unique'')]"
definition tag_fk :: "tag_row \<Rightarrow> pgdb \<Rightarrow> dberror option" where
  [sql_defs]: "tag_fk r db =
     viol (g_entity_id r \<notin> set (entity_ids db)) (ForeignKeyViolation ''tags_entity_id_fkey'')"
definition tag_add :: "tag_row \<Rightarrow> pgdb \<Rightarrow> pgdb" where
  [sql_defs]: "tag_add r db = db\<lparr>tags := tags db @ [r]\<rparr>"

text \<open>The statements.\<close>

definition insert_entities :: "entity_row list \<Rightarrow> pgdb \<Rightarrow> dberror + pgdb" where
  "insert_entities = insert_stmt entity_uq (\<lambda>_ _. None) entity_add"
definition insert_origins :: "(pg_origin \<times> bytes) list \<Rightarrow> pgdb \<Rightarrow> dberror + pgdb" where
  "insert_origins = insert_stmt origin_uq origin_fk origin_add"
definition insert_users :: "user_row list \<Rightarrow> pgdb \<Rightarrow> dberror + pgdb" where
  "insert_users = insert_stmt user_uq (\<lambda>_ _. None) user_add"
definition insert_members :: "member_row list \<Rightarrow> pgdb \<Rightarrow> dberror + pgdb" where
  "insert_members = insert_stmt member_uq member_fk member_add"
definition insert_targets :: "target_row list \<Rightarrow> pgdb \<Rightarrow> dberror + pgdb" where
  "insert_targets = insert_stmt target_uq target_fk target_add"
definition insert_censuses :: "census_row list \<Rightarrow> pgdb \<Rightarrow> dberror + pgdb" where
  "insert_censuses = insert_stmt census_uq census_fk census_add"
definition insert_census_members :: "census_member_row list \<Rightarrow> pgdb \<Rightarrow> dberror + pgdb" where
  "insert_census_members = insert_stmt census_member_uq census_member_fk census_member_add"
definition insert_tags :: "tag_row list \<Rightarrow> pgdb \<Rightarrow> dberror + pgdb" where
  "insert_tags = insert_stmt tag_uq tag_fk tag_add"

interpretation ins_entity: insert_table entity_uq "\<lambda>_ _. None" entity_add
  by unfold_locales simp
interpretation ins_origin: insert_table origin_uq origin_fk origin_add
  by unfold_locales (simp add: origin_fk_def origin_add_def)
interpretation ins_user: insert_table user_uq "\<lambda>_ _. None" user_add
  by unfold_locales simp
interpretation ins_member: insert_table member_uq member_fk member_add
  by unfold_locales (simp add: member_fk_def member_add_def split: option.split)
interpretation ins_target: insert_table target_uq target_fk target_add
  by unfold_locales (simp add: target_fk_def target_add_def)
interpretation ins_census: insert_table census_uq census_fk census_add
  by unfold_locales (simp add: census_fk_def census_add_def)
interpretation ins_census_member: insert_table census_member_uq census_member_fk census_member_add
  by unfold_locales (simp add: census_member_fk_def census_member_add_def)
interpretation ins_tag: insert_table tag_uq tag_fk tag_add
  by unfold_locales (simp add: tag_fk_def tag_add_def)

text \<open>
  A VALUES list whose values may be refused on the way in (a NULL in a NOT NULL column, a text
  that is no JSON): such a row makes the statement fail like a violated constraint.
\<close>

type_synonym 'r val = "dberror + 'r"

definition val_test :: "('r \<Rightarrow> 'd \<Rightarrow> dberror option) \<Rightarrow> 'r val \<Rightarrow> 'd \<Rightarrow> dberror option" where
  [sql_defs]: "val_test t v d = (case v of Inl e \<Rightarrow> Some e | Inr r \<Rightarrow> t r d)"
definition val_add :: "('r \<Rightarrow> 'd \<Rightarrow> 'd) \<Rightarrow> 'r val \<Rightarrow> 'd \<Rightarrow> 'd" where
  [sql_defs]: "val_add add v d = (case v of Inl e \<Rightarrow> d | Inr r \<Rightarrow> add r d)"

lemma val_simps [simp]: "val_test t (Inl e) d = Some e" "val_test t (Inr r) d = t r d"
  "val_add add (Inl e) d = d" "val_add add (Inr r) d = add r d"
  by (simp_all add: val_test_def val_add_def)

definition insert_user_values :: "user_row val list \<Rightarrow> pgdb \<Rightarrow> dberror + pgdb" where
  "insert_user_values = insert_stmt (val_test user_uq) (\<lambda>_ _. None) (val_add user_add)"
definition insert_member_values :: "member_row val list \<Rightarrow> pgdb \<Rightarrow> dberror + pgdb" where
  "insert_member_values = insert_stmt (val_test member_uq) (val_test member_fk) (val_add member_add)"

interpretation ins_user_val: insert_table "val_test user_uq" "\<lambda>_ _. None" "val_add user_add"
  by unfold_locales simp
interpretation ins_member_val: insert_table "val_test member_uq" "val_test member_fk" "val_add member_add"
  by unfold_locales (simp add: val_test_def val_add_def ins_member.fk_add split: sum.split)

section \<open>An INSERT keeps the schema\<close>

lemma refs_ids_mono: "refs f rs (map g xs) \<Longrightarrow> refs f rs (map g (xs @ ys))"
  by (auto simp: refs_iff)

lemma refs_one: "refs f [r] ks \<longleftrightarrow> (case f r of None \<Rightarrow> True | Some k \<Rightarrow> k \<in> set ks)"
  by (simp add: refs_def)

lemma entity_add_wf: "wf_db db \<Longrightarrow> entity_uq r db = None \<Longrightarrow> wf_db (entity_add r db)"
  by (auto simp: wf_db_def wf_parts entity_uq_def entity_add_def refs_iff)

lemma origin_add_wf:
  "wf_db db \<Longrightarrow> origin_uq r db = None \<Longrightarrow> origin_fk r db = None \<Longrightarrow> wf_db (origin_add r db)"
  by (auto simp: wf_db_def wf_parts origin_uq_def origin_fk_def origin_add_def refs_iff o_entity_def)

lemma user_add_wf: "wf_db db \<Longrightarrow> user_uq r db = None \<Longrightarrow> wf_db (user_add r db)"
  by (auto simp: wf_db_def wf_parts user_uq_def user_add_def refs_iff)

lemma member_add_wf:
  "wf_db db \<Longrightarrow> member_uq r db = None \<Longrightarrow> member_fk r db = None \<Longrightarrow> wf_db (member_add r db)"
  by (auto simp: wf_db_def wf_parts member_uq_def member_fk_def member_add_def refs_iff
      m_entity_def m_origin_key_def)

lemma target_add_wf:
  "wf_db db \<Longrightarrow> target_uq r db = None \<Longrightarrow> target_fk r db = None \<Longrightarrow> wf_db (target_add r db)"
  by (auto simp: wf_db_def wf_parts target_uq_def target_fk_def target_add_def refs_iff t_entity_def)

lemma census_add_wf:
  "wf_db db \<Longrightarrow> census_uq r db = None \<Longrightarrow> census_fk r db = None \<Longrightarrow> wf_db (census_add r db)"
  by (auto simp: wf_db_def wf_parts census_uq_def census_fk_def census_add_def refs_iff
      c_entity_def c_target_def)

lemma census_member_add_wf: "wf_db db \<Longrightarrow> census_member_uq r db = None \<Longrightarrow>
    census_member_fk r db = None \<Longrightarrow> wf_db (census_member_add r db)"
  by (auto simp: wf_db_def wf_parts census_member_uq_def census_member_fk_def census_member_add_def
      refs_iff x_member_def x_census_def)

lemma tag_add_wf:
  "wf_db db \<Longrightarrow> tag_uq r db = None \<Longrightarrow> tag_fk r db = None \<Longrightarrow> 1 \<le> g_id r \<Longrightarrow> g_id r < tags_seq db \<Longrightarrow>
   wf_db (tag_add r db)"
  by (auto simp: wf_db_def wf_parts tag_uq_def tag_fk_def tag_add_def refs_iff g_entity_def)

lemma insert_entities_wf [wf_intros]: "insert_entities rs db = Inr db' \<Longrightarrow> wf_db db \<Longrightarrow> wf_db db'"
  unfolding insert_entities_def by (rule ins_entity.insert_stmt_inv) (auto intro: entity_add_wf)
lemma insert_origins_wf [wf_intros]: "insert_origins rs db = Inr db' \<Longrightarrow> wf_db db \<Longrightarrow> wf_db db'"
  unfolding insert_origins_def by (rule ins_origin.insert_stmt_inv) (auto intro: origin_add_wf)
lemma insert_users_wf [wf_intros]: "insert_users rs db = Inr db' \<Longrightarrow> wf_db db \<Longrightarrow> wf_db db'"
  unfolding insert_users_def by (rule ins_user.insert_stmt_inv) (auto intro: user_add_wf)
lemma insert_members_wf [wf_intros]: "insert_members rs db = Inr db' \<Longrightarrow> wf_db db \<Longrightarrow> wf_db db'"
  unfolding insert_members_def by (rule ins_member.insert_stmt_inv) (auto intro: member_add_wf)
lemma insert_targets_wf [wf_intros]: "insert_targets rs db = Inr db' \<Longrightarrow> wf_db db \<Longrightarrow> wf_db db'"
  unfolding insert_targets_def by (rule ins_target.insert_stmt_inv) (auto intro: target_add_wf)
lemma insert_censuses_wf [wf_intros]: "insert_censuses rs db = Inr db' \<Longrightarrow> wf_db db \<Longrightarrow> wf_db db'"
  unfolding insert_censuses_def by (rule ins_census.insert_stmt_inv) (auto intro: census_add_wf)
lemma insert_census_members_wf [wf_intros]:
  "insert_census_members rs db = Inr db' \<Longrightarrow> wf_db db \<Longrightarrow> wf_db db'"
  unfolding insert_census_members_def
  by (rule ins_census_member.insert_stmt_inv) (auto intro: census_member_add_wf)

lemma insert_user_values_wf [wf_intros]: "insert_user_values rs db = Inr db' \<Longrightarrow> wf_db db \<Longrightarrow> wf_db db'"
  unfolding insert_user_values_def
  by (rule ins_user_val.insert_stmt_inv)
    (auto intro: user_add_wf simp: val_test_def val_add_def split: sum.splits)
lemma insert_member_values_wf [wf_intros]: "insert_member_values rs db = Inr db' \<Longrightarrow> wf_db db \<Longrightarrow> wf_db db'"
  unfolding insert_member_values_def
  by (rule ins_member_val.insert_stmt_inv)
    (auto intro: member_add_wf simp: val_test_def val_add_def split: sum.splits)

text \<open>A VALUES list that went in held only proper rows, which are now at the end of the table.\<close>

lemma member_add_fold: "fold member_add rs db = db\<lparr>members := members db @ rs\<rparr>"
  by (induction rs arbitrary: db) (auto simp: member_add_def)
lemma user_add_fold: "fold user_add rs db = db\<lparr>users := users db @ rs\<rparr>"
  by (induction rs arbitrary: db) (auto simp: user_add_def)
lemma census_member_add_fold: "fold census_member_add rs db = db\<lparr>census_members := census_members db @ rs\<rparr>"
  by (induction rs arbitrary: db) (auto simp: census_member_add_def)

lemma val_insert_uniq_Inr:
  "insert_uniq (val_test uq) (val_add add) vs d = Inr d' \<Longrightarrow> \<exists>rows. vs = map Inr rows \<and> d' = fold add rows d"
proof (induction vs arbitrary: d)
  case Nil
  then show ?case by simp
next
  case (Cons v vs)
  then obtain r where r: "v = Inr r" "insert_uniq (val_test uq) (val_add add) vs (add r d) = Inr d'"
    by (cases v) (auto split: option.splits)
  then obtain rows where "vs = map Inr rows" "d' = fold add rows (add r d)" using Cons.IH by blast
  then show ?case using r(1) by (intro exI [of _ "r # rows"]) simp
qed

lemma insert_member_values_Inr:
  assumes "insert_member_values vs db = Inr db'"
  obtains rows where "vs = map Inr rows" "db' = db\<lparr>members := members db @ rows\<rparr>"
    "\<forall>r\<in>set rows. member_fk r db = None"
proof -
  have "insert_uniq (val_test member_uq) (val_add member_add) vs db = Inr db'"
    "\<forall>v\<in>set vs. val_test member_fk v db = None"
    using assms by (auto simp: insert_member_values_def ins_member_val.insert_stmt_Inr)
  then show ?thesis using that val_insert_uniq_Inr [of member_uq member_add vs db db']
    by (auto simp: member_add_fold val_test_def)
qed

lemma insert_user_values_Inr:
  assumes "insert_user_values vs db = Inr db'"
  obtains rows where "vs = map Inr rows" "db' = db\<lparr>users := users db @ rows\<rparr>"
  using assms val_insert_uniq_Inr [of user_uq user_add vs db db']
  by (auto simp: insert_user_values_def ins_user_val.insert_stmt_Inr user_add_fold)

section \<open>DELETE\<close>

definition delete_members_where :: "(member_row \<Rightarrow> bool) \<Rightarrow> pgdb \<Rightarrow> pgdb" where
  [sql_defs]: "delete_members_where p db =
     (let gone = map m_id (filter p (members db)) in
      db\<lparr>members := filter (\<lambda>r. \<not> p r) (members db),
         census_members := filter (\<lambda>r. x_member_id r \<notin> set gone) (census_members db)\<rparr>)"

definition delete_censuses_where :: "(census_row \<Rightarrow> bool) \<Rightarrow> pgdb \<Rightarrow> pgdb" where
  [sql_defs]: "delete_censuses_where p db =
     (let gone = map c_id (filter p (censuses db)) in
      db\<lparr>censuses := filter (\<lambda>r. \<not> p r) (censuses db),
         census_members := filter (\<lambda>r. x_census_id r \<notin> set gone) (census_members db)\<rparr>)"

text \<open>
  Deleting an entity cascades to its origins, members, targets, censuses and tags and from there to
  the census members. The reference from a census to its target has no cascade: a census of another
  entity that uses one of the deleted targets makes the statement fail.
\<close>

definition delete_entity_row :: "bytes \<Rightarrow> pgdb \<Rightarrow> dberror + pgdb" where
  "delete_entity_row i db =
     (let db1 = delete_censuses_where (\<lambda>r. c_entity_id r = i)
                  (delete_members_where (\<lambda>r. m_entity_id r = i) db);
          db2 = db1\<lparr>entities := filter (\<lambda>r. e_id r \<noteq> i) (entities db1),
                    entities_origins := filter (\<lambda>r. snd r \<noteq> i) (entities_origins db1),
                    targets := filter (\<lambda>r. t_entity_id r \<noteq> i) (targets db1),
                    tags := filter (\<lambda>r. g_entity_id r \<noteq> i) (tags db1)\<rparr>
      in if list_ex (\<lambda>r. c_target_id r \<notin> set (target_ids db2)) (censuses db2)
         then Inl (ForeignKeyViolation ''censuses_target_id_fkey'')
         else Inr db2)"

lemma uniq_idD: "uniq f rs \<Longrightarrow> x \<in> set rs \<Longrightarrow> y \<in> set rs \<Longrightarrow> f x = f y \<Longrightarrow> f x \<noteq> None \<Longrightarrow> x = y"
  by (auto dest: uniq_sameD)

lemma delete_members_where_wf [wf_intros]: "wf_db db \<Longrightarrow> wf_db (delete_members_where p db)"
  by (auto simp: wf_db_def wf_parts delete_members_where_def Let_def uniq_filter refs_iff x_member_def)

lemma delete_censuses_where_wf [wf_intros]: "wf_db db \<Longrightarrow> wf_db (delete_censuses_where p db)"
  by (auto simp: wf_db_def wf_parts delete_censuses_where_def Let_def uniq_filter refs_iff x_census_def)

lemma delete_entity_row_wf [wf_intros]:
  assumes "delete_entity_row i db = Inr db'" "wf_db db"
  shows "wf_db db'"
proof -
  define db1 where "db1 = delete_censuses_where (\<lambda>r. c_entity_id r = i)
                  (delete_members_where (\<lambda>r. m_entity_id r = i) db)"
  have wf1: "wf_db db1" using assms(2) by (simp add: db1_def wf_intros)
  have noc: "\<forall>r\<in>set (censuses db1). c_entity_id r \<noteq> i" "\<forall>r\<in>set (members db1). m_entity_id r \<noteq> i"
    by (auto simp: db1_def delete_censuses_where_def delete_members_where_def Let_def)
  have db': "db' = db1\<lparr>entities := filter (\<lambda>r. e_id r \<noteq> i) (entities db1),
                    entities_origins := filter (\<lambda>r. snd r \<noteq> i) (entities_origins db1),
                    targets := filter (\<lambda>r. t_entity_id r \<noteq> i) (targets db1),
                    tags := filter (\<lambda>r. g_entity_id r \<noteq> i) (tags db1)\<rparr>"
    and tg: "\<forall>r\<in>set (censuses db'). c_target_id r \<in> set (target_ids db')"
    using assms(1) by (auto simp: delete_entity_row_def Let_def db1_def list_ex_iff split: if_splits)
  have "wf_censuses db'"
    using wf1 noc tg by (auto simp: db' wf_db_def wf_censuses_def refs_iff c_entity_def c_target_def)
  moreover have "wf_members db'"
    using wf1 noc by (auto simp: db' wf_db_def wf_members_def refs_iff m_entity_def m_origin_key_def)
  moreover have "wf_entities db'" "wf_targets db'" "wf_tags db'"
    using wf1 by (auto simp: db' wf_db_def wf_parts uniq_filter refs_iff o_entity_def t_entity_def
        g_entity_def list_all_iff)
  moreover have "wf_users db'" "wf_census_members db'"
    using wf1 by (auto simp: db' wf_db_def wf_parts)
  ultimately show ?thesis by (simp add: wf_db_def)
qed

section \<open>UPDATE\<close>

text \<open>An UPDATE that rewrites no key column keeps the schema.\<close>

definition update_members :: "(member_row \<Rightarrow> bool) \<Rightarrow> (member_row \<Rightarrow> member_row) \<Rightarrow> pgdb \<Rightarrow> pgdb" where
  [sql_defs]: "update_members p g db = db\<lparr>members := map (\<lambda>r. if p r then g r else r) (members db)\<rparr>"

lemma update_members_ids:
  assumes "\<And>r. m_id (g r) = m_id r"
  shows "member_ids (update_members p g db) = member_ids db"
  using assms by (auto simp: update_members_def)

lemma update_members_keys_wf [wf_intros]:
  assumes "wf_db db"
    and "\<And>r. m_id (g r) = m_id r" "\<And>r. m_entity_id (g r) = m_entity_id r"
    and "\<And>r. m_public_key (g r) = m_public_key r" "\<And>r. m_email (g r) = m_email r"
    and "\<And>r. m_origin (g r) = m_origin r"
  shows "wf_db (update_members p g db)"
proof -
  let ?h = "\<lambda>r. if p r then g r else r"
  have key: "m_key (?h r) = m_key r" "m_entity_pubkey (?h r) = m_entity_pubkey r"
    "m_entity_email (?h r) = m_entity_email r" "m_entity (?h r) = m_entity r"
    "m_public_key (?h r) = m_public_key r" "m_origin_key (?h r) = m_origin_key r"
    "m_id (?h r) = m_id r" for r
    using assms(2-) by (auto simp: key_defs)
  have "wf_members (update_members p g db) = wf_members db"
    by (simp add: wf_members_def update_members_def uniq_map_same key refs_def list.pred_map comp_def)
  moreover have "wf_census_members (update_members p g db) = wf_census_members db"
    using update_members_ids [OF assms(2), where p = p and db = db]
    by (simp only: wf_census_members_def) (simp add: update_members_def)
  ultimately show ?thesis
    using assms(1) by (simp add: wf_db_def wf_parts update_members_def)
qed

end
