(* ===== verification/PgTypes.thy ===== *)
theory PgTypes
  imports Schema
begin

text \<open>
  \<^verbatim>\<open>database/pgsql/types.go\<close> and the generated \<^verbatim>\<open>orderbysqli_string.go\<close>: the conversions between
  the Go structs and the values the SQL driver sends and scans, and the whitelist of sort fields.
  A \<^verbatim>\<open>pgtype\<close> value with a status is an option, \<open>None\<close> for \<^verbatim>\<open>pgtype.Null\<close>.
\<close>

section \<open>Entities\<close>

record PGEntity =
  pe_Entity :: Entity
  pe_CensusManagersAddresses :: "bytes list option"
  pe_Origins :: "string list"

definition ToPGOriginArray :: "Origin list \<Rightarrow> string list" where
  "ToPGOriginArray x = map Origin_String x"

definition ToPGEntity :: "Entity \<Rightarrow> PGEntity" where
  "ToPGEntity x = \<lparr>pe_Entity = x,
     pe_CensusManagersAddresses = ei_CensusManagersAddresses (en_Info x),
     pe_Origins = ToPGOriginArray (ei_Origins (en_Info x))\<rparr>"

definition ToOriginArray :: "string list \<Rightarrow> Origin list" where
  "ToOriginArray p = map ToOrigin p"

definition StringToOriginArray :: "string list \<Rightarrow> Origin list" where
  "StringToOriginArray s = map ToOrigin s"

definition ToEntity :: "PGEntity \<Rightarrow> Entity" where
  "ToEntity x = (let y = pe_Entity x in
     y\<lparr>en_Info := (en_Info y)\<lparr>ei_CensusManagersAddresses := pe_CensusManagersAddresses x,
        ei_Origins := ToOriginArray (pe_Origins x)\<rparr>\<rparr>)"

section \<open>Members\<close>

record PGMember =
  pm_Member :: Member
  pm_CustomFields :: gobytes
  pm_Tags :: "int list option"
  pm_Email :: "string option"

definition ToPGMember :: "ext \<Rightarrow> Member \<Rightarrow> dberror + PGMember" where
  "ToPGMember x m =
     (case JSONB_Set x (mi_CustomFields (mb_Info m)) of
        Inl e \<Rightarrow> Inl (DriverError e)
      | Inr cf \<Rightarrow> Inr \<lparr>pm_Member = m, pm_CustomFields = cf, pm_Tags = mi_Tags (mb_Info m),
          pm_Email = (if mi_Email (mb_Info m) \<noteq> [] then Some (mi_Email (mb_Info m)) else None)\<rparr>)"

text \<open>
  \<^verbatim>\<open>x.CustomFields.AssignTo(y.MemberInfo.CustomFields)\<close> passes the destination slice by value, so
  the field keeps what the embedded \<^verbatim>\<open>Member\<close> had; the tags are assigned through a pointer.
\<close>

definition ToMember :: "PGMember \<Rightarrow> Member" where
  "ToMember x = (let y = pm_Member x in
     y\<lparr>mb_Info := (mb_Info y)\<lparr>mi_Tags := pm_Tags x,
        mi_Email := (case pm_Email x of None \<Rightarrow> [] | Some s \<Rightarrow> s)\<rparr>\<rparr>)"

record PGEphemeralMemberInfo =
  pf_Info :: EphemeralMemberInfo
  pf_Email :: "string option"

definition ToPGEphemeralMemberInfo :: "EphemeralMemberInfo \<Rightarrow> PGEphemeralMemberInfo" where
  "ToPGEphemeralMemberInfo x = \<lparr>pf_Info = x,
     pf_Email = (if em_Email x \<noteq> [] then Some (em_Email x) else None)\<rparr>"

definition ToEphemeralMemberInfo :: "PGEphemeralMemberInfo \<Rightarrow> EphemeralMemberInfo" where
  "ToEphemeralMemberInfo x =
     (pf_Info x)\<lparr>em_Email := (case pf_Email x of None \<Rightarrow> [] | Some s \<Rightarrow> s)\<rparr>"

section \<open>Sort fields\<close>

text \<open>\<^verbatim>\<open>type OrderBySQLi int\<close>: the constants are numbered from \<^verbatim>\<open>DateOfBirth\<close> = 0; -1 is none.\<close>

definition ToOrderBySQLi :: "string \<Rightarrow> int" where
  "ToOrderBySQLi orderBy =
     (if orderBy = ''dateOfBirth'' then 0
      else if orderBy = ''email'' then 1
      else if orderBy = ''firstName'' then 2
      else if orderBy = ''lastName'' then 3
      else if orderBy = ''phone'' then 4
      else if orderBy = ''streetAddress'' then 5
      else if orderBy = ''consented'' then 6
      else if orderBy = ''verified'' then 7
      else if orderBy = ''origin'' then 8
      else if orderBy = ''customFields'' then 9
      else if orderBy = ''name'' then 10
      else if orderBy = ''merkleRoot'' then 11
      else if orderBy = ''merkleTreeURI'' then 12
      else if orderBy = ''size'' then 13
      else if orderBy = ''createdAt'' then 14
      else if orderBy = ''updatedAt'' then 15
      else - 1)"

definition OrderBySQLi_name :: string where
  "OrderBySQLi_name = ''DateOfBirthEmailFirstNameLastNamePhoneStreetAddressConsentedVerifiedOriginCustomFieldsNameMerkleRootMerkleTreeURISizeCreatedAtUpdatedAt''"

definition OrderBySQLi_index :: "nat list" where
  "OrderBySQLi_index = [0, 11, 16, 25, 33, 38, 51, 60, 68, 74, 86, 90, 100, 113, 117, 126, 135]"

definition OrderBySQLi_String :: "int \<Rightarrow> string" where
  "OrderBySQLi_String i =
     (if i < 0 \<or> i \<ge> int (length OrderBySQLi_index - 1)
      then ''OrderBySQLi('' @ FormatInt i @ '')''
      else (let lo = OrderBySQLi_index ! nat i; hi = OrderBySQLi_index ! nat (i + 1)
            in take (hi - lo) (drop lo OrderBySQLi_name)))"

text \<open>
  \<^verbatim>\<open>strings.Title\<close> on ASCII text: the first letter of every word in upper case, where a word
  starts after a character that is no letter, digit or underscore.
\<close>

definition is_separator :: "char \<Rightarrow> bool" where
  "is_separator c = (let n = of_char c :: nat in
     \<not> (48 \<le> n \<and> n \<le> 57 \<or> 97 \<le> n \<and> n \<le> 122 \<or> 65 \<le> n \<and> n \<le> 90 \<or> n = 95))"

definition to_title :: "char \<Rightarrow> char" where
  "to_title c = (let n = of_char c :: nat in if 97 \<le> n \<and> n \<le> 122 then char_of (n - 32) else c)"

fun title_from :: "char \<Rightarrow> string \<Rightarrow> string" where
  "title_from prev [] = []"
| "title_from prev (c # s) = (if is_separator prev then to_title c else c) # title_from c s"

definition strings_Title :: "string \<Rightarrow> string" where
  "strings_Title s = title_from (CHR '' '') s"

text \<open>
  \<^verbatim>\<open>reflect.Type.FieldByName\<close> on the structs that are sorted by: their own and promoted fields
  with the \<^verbatim>\<open>db\<close> tag of each (empty for an embedded struct).
\<close>

definition CreatedUpdated_fields :: "(string \<times> string) list" where
  "CreatedUpdated_fields = [(''CreatedAt'', ''created_at''), (''UpdatedAt'', ''updated_at'')]"

definition MemberInfo_fields :: "(string \<times> string) list" where
  "MemberInfo_fields =
     [(''DateOfBirth'', ''date_of_birth''), (''Email'', ''email''), (''FirstName'', ''first_name''),
      (''LastName'', ''last_name''), (''Phone'', ''phone''), (''StreetAddress'', ''street_address''),
      (''Consented'', ''consented''), (''Verified'', ''verified''), (''Origin'', ''origin''),
      (''CustomFields'', ''custom_fields''), (''Tags'', ''tags'')]"

definition CensusInfo_fields :: "(string \<times> string) list" where
  "CensusInfo_fields =
     [(''CreatedUpdated'', []), (''Name'', ''name''), (''MerkleRoot'', ''merkle_root''),
      (''MerkleTreeURI'', ''merkle_tree_uri''), (''Size'', ''size''),
      (''Ephemeral'', ''ephemeral''), (''ProcessID'', ''process_id'')] @ CreatedUpdated_fields"

definition Census_fields :: "(string \<times> string) list" where
  "Census_fields =
     [(''EntityID'', ''entity_id''), (''ID'', ''id''), (''TargetID'', ''target_id''),
      (''CensusInfo'', [])] @ CensusInfo_fields"

section \<open>Facts\<close>

lemma ToMember_ToPGMember:
  "ToPGMember x m = Inr p \<Longrightarrow> ToMember p = m"
  by (cases m; cases "mb_Info m") (auto simp: ToPGMember_def ToMember_def Let_def split: sum.splits if_splits)

lemma ToPGMember_Inr:
  assumes "ToPGMember x m = Inr p"
  shows "pm_Member p = m" "pm_Tags p = mi_Tags (mb_Info m)"
    "pm_Email p = (if mi_Email (mb_Info m) \<noteq> [] then Some (mi_Email (mb_Info m)) else None)"
    "JSONB_Set x (mi_CustomFields (mb_Info m)) = Inr (pm_CustomFields p)"
  using assms by (auto simp: ToPGMember_def split: sum.splits)

lemma ToEphemeralMemberInfo_inverse: "ToEphemeralMemberInfo (ToPGEphemeralMemberInfo x) = x"
  by (cases x) (auto simp: ToEphemeralMemberInfo_def ToPGEphemeralMemberInfo_def)

lemma origins_in_out [simp]: "origins_in (origins_out p) = Some p"
  by (cases p) (simp_all add: origins_in_def)

definition sort_fields :: "string list" where
  "sort_fields = [''dateOfBirth'', ''email'', ''firstName'', ''lastName'', ''phone'',
     ''streetAddress'', ''consented'', ''verified'', ''origin'', ''customFields'', ''name'',
     ''merkleRoot'', ''merkleTreeURI'', ''size'', ''createdAt'', ''updatedAt'']"

lemma ToOrderBySQLi_whitelist: "ToOrderBySQLi s \<noteq> - 1 \<longleftrightarrow> s \<in> set sort_fields"
  by (simp add: ToOrderBySQLi_def sort_fields_def)

end
