(* ===== verification/PgEntities.thy ===== *)
theory PgEntities
  imports Statements PgTypes
begin

text \<open>
  The methods of \<^verbatim>\<open>database/pgsql/pgsql.go\<close> on entities and users. A method takes the
  surroundings of the call and the state; one that writes returns the new state and Go's
  \<^verbatim>\<open>error\<close> (\<open>None\<close> is nil), one that only reads returns its results. The round trips are
  numbered in the order the code makes them. \<open>leak\<close> marks the returns that leave a begun
  transaction neither committed nor rolled back, or a result open.
\<close>

definition leak :: "pgdb \<Rightarrow> pgdb" where
  "leak db = db\<lparr>open_tx := Suc (open_tx db)\<rparr>"

text \<open>What an error leaves behind: the tables as they were, and perhaps one lost connection.\<close>

definition rolled_back :: "pgdb \<Rightarrow> pgdb \<Rightarrow> bool" where
  "rolled_back db db' = (db' = db \<or> db' = leak db)"

lemma rolled_back_refl [simp]: "rolled_back db db" "rolled_back db (leak db)"
  by (simp_all add: rolled_back_def)

lemma wf_leak [simp]: "wf_db (leak db) = wf_db db"
  by (simp add: leak_def)

lemma rolled_back_wf: "rolled_back db db' \<Longrightarrow> wf_db db' = wf_db db"
  by (auto simp: rolled_back_def)

lemma leak_simps [simp]: "entities (leak db) = entities db" "users (leak db) = users db"
  "entities_origins (leak db) = entities_origins db" "members (leak db) = members db"
  "targets (leak db) = targets db" "censuses (leak db) = censuses db"
  "census_members (leak db) = census_members db" "tags (leak db) = tags db"
  "tags_seq (leak db) = tags_seq db" "open_tx (leak db) = Suc (open_tx db)"
  by (simp_all add: leak_def)

section \<open>Entities\<close>

definition entity_row_of :: "bytes \<Rightarrow> gotime \<Rightarrow> EntityInfo \<Rightarrow> entity_row" where
  "entity_row_of i t info = \<lparr>e_updated_at = t, e_created_at = t, e_id = i, e_email = ei_Email info,
     e_name = ei_Name info, e_callback_url = ei_CallbackURL info,
     e_callback_secret = ei_CallbackSecret info,
     e_census_managers_addresses =
       (case ei_CensusManagersAddresses info of None \<Rightarrow> [] | Some a \<Rightarrow> a),
     e_is_authorized = False, e_type = ei_Type info, e_size = ei_Size info,
     e_consented = ei_Consented info\<rparr>"

text \<open>The first INSERT of \<^verbatim>\<open>AddEntity\<close>: the driver encodes the size as an \<^verbatim>\<open>integer\<close>.\<close>

definition insert_entity_query :: "env \<Rightarrow> gobytes \<Rightarrow> EntityInfo \<Rightarrow> pgdb \<Rightarrow> dberror + pgdb" where
  "insert_entity_query ev entityID info db =
     (case io_err ev 1 of
        Some e \<Rightarrow> Inl e
      | None \<Rightarrow>
          if \<not> in_int32 (ei_Size info) then Inl (DriverError ''out of range for integer'')
          else (case entityID of
                  None \<Rightarrow> Inl (NotNullViolation ''id'')
                | Some i \<Rightarrow> insert_entities [entity_row_of i (now ev) info] db))"

text \<open>\<^verbatim>\<open>unnest(cast($2 AS Origins[]))\<close>: a text that is no value of the enum is an error.\<close>

definition insert_origins_query :: "env \<Rightarrow> gobytes \<Rightarrow> string list \<Rightarrow> pgdb \<Rightarrow> dberror + pgdb" where
  "insert_origins_query ev entityID origins db =
     (case io_err ev 2 of
        Some e \<Rightarrow> Inl e
      | None \<Rightarrow>
          (case those (map origins_in origins) of
             None \<Rightarrow> Inl (DriverError ''invalid input value for enum origins'')
           | Some os \<Rightarrow> insert_origins (map (\<lambda>or. (or, bts entityID)) os) db))"

definition AddEntity :: "env \<Rightarrow> gobytes \<Rightarrow> EntityInfo \<Rightarrow> pgdb \<Rightarrow> pgdb \<times> dberror option" where
  "AddEntity ev entityID info db =
     (if ei_CensusManagersAddresses info = None
      then (db, Some (Errorf ''census manager addresses not found'' None))
      else case io_err ev 0 of
        Some e \<Rightarrow> (db, Some (Errorf ''cannot initialize postgres transaction'' (Some e)))
      | None \<Rightarrow>
          (let pgEntity = ToPGEntity \<lparr>en_CreatedAt = now ev, en_UpdatedAt = now ev, en_ID = entityID,
                 en_IsAuthorized = False, en_Info = info\<rparr>
           in case insert_entity_query ev entityID info db of
                Inl e \<Rightarrow> (leak db, Some (Errorf ''cannot add insert query in the transaction'' (Some e)))
              | Inr tx1 \<Rightarrow>
                  (case insert_origins_query ev entityID (pe_Origins pgEntity) tx1 of
                     Inl e \<Rightarrow> (db, Some (Errorf ''cannot add insert query in the transaction'' (Some e)))
                   | Inr tx2 \<Rightarrow>
                       (case io_err ev 3 of
                          Some e \<Rightarrow> (db, Some (Errorf ''error commiting transactions to the DB'' (Some e)))
                        | None \<Rightarrow> (tx2, None)))))"

definition EntityOrigins :: "env \<Rightarrow> nat \<Rightarrow> gobytes \<Rightarrow> pgdb \<Rightarrow> dberror + Origin list" where
  "EntityOrigins ev k entityID db =
     (case io_err ev k of
        Some e \<Rightarrow> Inl (Errorf ''cannot retrieve entity origins'' (Some e))
      | None \<Rightarrow> Inr (StringToOriginArray
          (map (origins_out \<circ> fst) (filter (\<lambda>r. sql_eq entityID (o_entity r)) (entities_origins db)))))"

text \<open>The columns that \<^verbatim>\<open>Entity\<close> selects; the time stamps are not among them.\<close>

definition scan_entity :: "entity_row \<Rightarrow> PGEntity" where
  "scan_entity r = \<lparr>pe_Entity = \<lparr>en_CreatedAt = zero_time, en_UpdatedAt = zero_time,
       en_ID = Some (e_id r), en_IsAuthorized = e_is_authorized r,
       en_Info = zero_EntityInfo\<lparr>ei_CallbackURL := e_callback_url r,
         ei_CallbackSecret := e_callback_secret r, ei_Email := e_email r, ei_Name := e_name r,
         ei_Type := e_type r, ei_Size := e_size r, ei_Consented := e_consented r\<rparr>\<rparr>,
     pe_CensusManagersAddresses = Some (e_census_managers_addresses r), pe_Origins = []\<rparr>"

definition Entity :: "env \<Rightarrow> gobytes \<Rightarrow> pgdb \<Rightarrow> dberror + Entity" where
  "Entity ev entityID db =
     (case io_err ev 0 of
        Some e \<Rightarrow> Inl e
      | None \<Rightarrow>
          (case find (\<lambda>r. sql_eq entityID (e_key r)) (entities db) of
             None \<Rightarrow> Inl ErrNoRows
           | Some r \<Rightarrow>
               (let entity = ToEntity (scan_entity r) in
                case EntityOrigins ev 1 entityID db of
                  Inl e \<Rightarrow> if e \<noteq> ErrNoRows then Inl (Errorf ''cannot entity origins'' (Some e))
                           else Inr (entity\<lparr>en_Info := (en_Info entity)\<lparr>ei_Origins := []\<rparr>\<rparr>)
                | Inr origins \<Rightarrow>
                    Inr (entity\<lparr>en_Info := (en_Info entity)\<lparr>ei_Origins := origins\<rparr>\<rparr>))))"

definition DeleteEntity :: "env \<Rightarrow> gobytes \<Rightarrow> pgdb \<Rightarrow> pgdb \<times> dberror option" where
  "DeleteEntity ev entityID db =
     (if slen entityID = 0 then (db, Some (Errorf ''invalid arguments'' None))
      else case io_err ev 0 of
        Some e \<Rightarrow> (db, Some (Errorf ''error deleting entity'' (Some e)))
      | None \<Rightarrow>
          if bts entityID \<notin> set (entity_ids db) then (db, Some (Errorf ''nothing to delete'' None))
          else (case delete_entity_row (bts entityID) db of
                  Inl e \<Rightarrow> (db, Some (Errorf ''error deleting entity'' (Some e)))
                | Inr db' \<Rightarrow> (db', None)))"

definition EntitiesID :: "env \<Rightarrow> pgdb \<Rightarrow> dberror + string list" where
  "EntitiesID ev db =
     (case io_err ev 0 of
        Some e \<Rightarrow> Inl e
      | None \<Rightarrow> Inr (map (\<lambda>r. hex_EncodeToString (e_id r)) (entities db)))"

definition update_entities :: "(entity_row \<Rightarrow> bool) \<Rightarrow> (entity_row \<Rightarrow> entity_row) \<Rightarrow> pgdb \<Rightarrow> pgdb" where
  "update_entities p g db = db\<lparr>entities := map (\<lambda>r. if p r then g r else r) (entities db)\<rparr>"

definition AuthorizeEntity :: "env \<Rightarrow> gobytes \<Rightarrow> pgdb \<Rightarrow> pgdb \<times> dberror option" where
  "AuthorizeEntity ev entityID db =
     (case io_err ev 0 of
        Some e \<Rightarrow> (db, Some (Errorf ''error updating entity'' (Some e)))
      | None \<Rightarrow>
          (let p = (\<lambda>r. sql_eq entityID (e_key r) \<and> is_distinct (Some True) (Some (e_is_authorized r)));
               rows = length (filter p (entities db));
               db' = update_entities p (\<lambda>r. r\<lparr>e_is_authorized :=
                       coalesce (nullif (Some True) (Some False)) (e_is_authorized r),
                       e_updated_at := now ev\<rparr>) db
           in if rows = 0 then (db', Some (Errorf ''already authorized'' None))
              else if rows \<noteq> 1 then (db', Some (Errorf ''could not authorize'' None))
              else (db', None)))"

definition UpdateEntity :: "env \<Rightarrow> gobytes \<Rightarrow> EntityInfo \<Rightarrow> pgdb \<Rightarrow> pgdb \<times> (dberror + nat)" where
  "UpdateEntity ev entityID info db =
     (case io_err ev 0 of
        Some e \<Rightarrow> (db, Inl (Errorf ''error updating entity'' (Some e)))
      | None \<Rightarrow>
          (let p = (\<lambda>r. sql_eq entityID (e_key r) \<and>
                 (is_distinct (Some (ei_Name info)) (Some (e_name r)) \<or>
                  is_distinct (Some (ei_CallbackURL info)) (Some (e_callback_url r)) \<or>
                  is_distinct (Some (ei_CallbackSecret info)) (Some (e_callback_secret r)) \<or>
                  is_distinct (Some (ei_Email info)) (Some (e_email r))));
               rows = length (filter p (entities db));
               db' = update_entities p (\<lambda>r. r\<lparr>
                       e_name := coalesce (nullif (Some (ei_Name info)) (Some [])) (e_name r),
                       e_callback_url := ei_CallbackURL info,
                       e_callback_secret := ei_CallbackSecret info,
                       e_email := coalesce (nullif (Some (ei_Email info)) (Some [])) (e_email r),
                       e_updated_at := now ev\<rparr>) db
           in if rows \<noteq> 1 \<and> rows \<noteq> 0 then (db', Inl (Errorf ''expected to update 0 or 1 rows'' None))
              else (db', Inr rows)))"

definition EntityHas :: "gobytes \<Rightarrow> uuid option \<Rightarrow> bool" where
  "EntityHas entityID memberID = True"

text \<open>\<^verbatim>\<open>encode(id,'hex') as ID\<close> is scanned into the byte slice \<^verbatim>\<open>Entity.ID\<close> as text.\<close>

definition str_bytes :: "string \<Rightarrow> bytes" where
  "str_bytes s = map (\<lambda>c. of_nat (of_char c)) s"

definition AdminEntityList :: "env \<Rightarrow> pgdb \<Rightarrow> dberror + Entity list" where
  "AdminEntityList ev db =
     (case io_err ev 0 of
        Some e \<Rightarrow> Inl e
      | None \<Rightarrow> Inr (map (\<lambda>r. \<lparr>en_CreatedAt = e_created_at r, en_UpdatedAt = e_updated_at r,
          en_ID = Some (str_bytes (hex_EncodeToString (e_id r))), en_IsAuthorized = False,
          en_Info = zero_EntityInfo\<lparr>ei_Name := e_name r, ei_Email := e_email r,
            ei_Type := e_type r, ei_Size := e_size r\<rparr>\<rparr>) (entities db)))"

section \<open>Users\<close>

definition user_row_of :: "bytes \<Rightarrow> bytes \<Rightarrow> gotime \<Rightarrow> user_row" where
  "user_row_of k d t = \<lparr>u_updated_at = t, u_created_at = t, u_public_key = k, u_digested_public_key = d\<rparr>"

definition AddUser :: "env \<Rightarrow> nat \<Rightarrow> User \<Rightarrow> pgdb \<Rightarrow> pgdb \<times> dberror option" where
  "AddUser ev k user db =
     (case us_PubKey user of
        None \<Rightarrow> (db, Some (Errorf ''invalid public Key'' None))
      | Some pk \<Rightarrow>
          (let digested = (if slen (us_DigestedPubKey user) = 0 then pk else bts (us_DigestedPubKey user))
           in case io_err ev k of
                Some e \<Rightarrow> (db, Some (Errorf ''cannot add user'' (Some e)))
              | None \<Rightarrow>
                  (case insert_users [user_row_of pk digested (now ev)] db of
                     Inl e \<Rightarrow> (db, Some (Errorf ''cannot add user'' (Some e)))
                   | Inr db' \<Rightarrow> (db', None))))"

definition User :: "env \<Rightarrow> nat \<Rightarrow> gobytes \<Rightarrow> pgdb \<Rightarrow> dberror + User" where
  "User ev k pubKey db =
     (case io_err ev k of
        Some e \<Rightarrow> Inl e
      | None \<Rightarrow>
          (case find (\<lambda>r. sql_eq pubKey (u_key r)) (users db) of
             None \<Rightarrow> Inl ErrNoRows
           | Some r \<Rightarrow> Inr \<lparr>us_CreatedAt = zero_time, us_UpdatedAt = zero_time,
               us_PubKey = Some (u_public_key r), us_DigestedPubKey = Some (u_digested_public_key r)\<rparr>))"

section \<open>Facts about entities\<close>

text \<open>The stringer and the enum meet on the first three origins only.\<close>

lemma origins_in_String: "origins_in (Origin_String i) = Some p \<Longrightarrow> 0 \<le> i \<and> i < 3"
proof (rule ccontr)
  assume p: "origins_in (Origin_String i) = Some p" and "\<not> (0 \<le> i \<and> i < 3)"
  then have "i < 0 \<or> 3 \<le> i" by linarith
  then show False using p by (auto simp: Origin_String_other origins_in_def split: if_splits)
qed

lemma origins_out_in: "origins_in s = Some p \<Longrightarrow> origins_out p = s"
  by (auto simp: origins_in_def split: if_splits)

lemma ToOrigin_out_in: "origins_in (Origin_String i) = Some p \<Longrightarrow> ToOrigin (origins_out p) = i"
  using origins_in_String [of i p] by (simp add: origins_out_in ToOrigin_String)

lemma those_origins:
  "those (map origins_in (ToPGOriginArray os)) = Some ps \<Longrightarrow>
   StringToOriginArray (map origins_out ps) = os \<and> (\<forall>i\<in>set os. 0 \<le> i \<and> i < 3)"
  by (induction os arbitrary: ps)
    (auto simp: ToPGOriginArray_def StringToOriginArray_def ToOrigin_out_in
      split: option.splits dest: origins_in_String)

lemma insert_entity_query_Inr:
  assumes "insert_entity_query ev entityID info db = Inr tx"
  obtains i where "entityID = Some i" "i \<notin> set (entity_ids db)"
    "tx = db\<lparr>entities := entities db @ [entity_row_of i (now ev) info]\<rparr>" "in_int32 (ei_Size info)"
  using assms
  by (auto simp: insert_entity_query_def insert_entities_def ins_entity.insert_stmt_one entity_uq_def
      entity_add_def viol_def clash_def e_key_def list_ex_iff entity_row_of_def
      split: option.splits if_splits)

lemma origin_add_fold: "fold origin_add rs db = db\<lparr>entities_origins := entities_origins db @ rs\<rparr>"
  by (induction rs arbitrary: db) (auto simp: origin_add_def)

lemma insert_origins_query_Inr:
  assumes "insert_origins_query ev entityID os db = Inr tx"
  obtains ps where "those (map origins_in os) = Some ps"
    "tx = db\<lparr>entities_origins := entities_origins db @ map (\<lambda>or. (or, bts entityID)) ps\<rparr>"
  using assms
  by (auto simp: insert_origins_query_def insert_origins_def origin_add_fold
      split: option.splits dest!: ins_origin.insert_stmt_fold)

lemma AddEntity_None:
  assumes "AddEntity ev entityID info db = (db', None)"
  obtains i ps addrs where "entityID = Some i" "i \<notin> set (entity_ids db)"
    "ei_CensusManagersAddresses info = Some addrs"
    "those (map origins_in (ToPGOriginArray (ei_Origins info))) = Some ps"
    "db' = db\<lparr>entities := entities db @ [entity_row_of i (now ev) info],
              entities_origins := entities_origins db @ map (\<lambda>or. (or, i)) ps\<rparr>"
  using assms
  by (auto simp: AddEntity_def Let_def ToPGEntity_def bts_def
      split: option.splits if_splits sum.splits
      elim!: insert_entity_query_Inr insert_origins_query_Inr)

lemma entity_row_of_sel [simp]: "e_id (entity_row_of i t info) = i"
  by (simp add: entity_row_of_def)

lemma insert_entity_query_wf [wf_intros]:
  "insert_entity_query ev i info db = Inr tx \<Longrightarrow> wf_db db \<Longrightarrow> wf_db tx"
  by (auto simp: insert_entity_query_def split: option.splits if_splits intro: wf_intros)

lemma insert_origins_query_wf [wf_intros]:
  "insert_origins_query ev i os db = Inr tx \<Longrightarrow> wf_db db \<Longrightarrow> wf_db tx"
  by (auto simp: insert_origins_query_def split: option.splits intro: wf_intros)

lemma AddEntity_wf [wf_intros]: "wf_db db \<Longrightarrow> wf_db (fst (AddEntity ev entityID info db))"
  by (auto simp: AddEntity_def Let_def split: option.splits sum.splits intro: wf_intros)

lemma AddUser_wf [wf_intros]: "wf_db db \<Longrightarrow> wf_db (fst (AddUser ev k user db))"
  by (auto simp: AddUser_def Let_def split: option.splits sum.splits intro: wf_intros)

lemma DeleteEntity_wf [wf_intros]: "wf_db db \<Longrightarrow> wf_db (fst (DeleteEntity ev entityID db))"
  by (auto simp: DeleteEntity_def split: option.splits sum.splits intro: wf_intros)

lemma update_entities_frame [frame_simps]:
  "entities_origins (update_entities p g db) = entities_origins db"
  "users (update_entities p g db) = users db" "members (update_entities p g db) = members db"
  "targets (update_entities p g db) = targets db" "censuses (update_entities p g db) = censuses db"
  "census_members (update_entities p g db) = census_members db"
  "tags (update_entities p g db) = tags db" "tags_seq (update_entities p g db) = tags_seq db"
  by (simp_all add: update_entities_def)

lemma update_entities_wf [wf_intros]:
  assumes "wf_db db" "\<And>r. e_id (g r) = e_id r"
  shows "wf_db (update_entities p g db)"
proof -
  let ?h = "\<lambda>r. if p r then g r else r"
  have key: "e_key (?h r) = e_key r" for r using assms(2) by (simp add: e_key_def)
  have ids: "entity_ids (update_entities p g db) = entity_ids db"
    using assms(2) by (auto simp: update_entities_def)
  have "uniq e_key (entities (update_entities p g db))"
    using assms(1) by (simp add: update_entities_def uniq_map_same key wf_db_def wf_entities_def)
  then show ?thesis
    using assms(1) unfolding wf_db_def wf_parts ids by (simp add: frame_simps)
qed

lemma AuthorizeEntity_wf [wf_intros]: "wf_db db \<Longrightarrow> wf_db (fst (AuthorizeEntity ev entityID db))"
  by (auto simp: AuthorizeEntity_def Let_def split: option.splits intro!: update_entities_wf)

lemma UpdateEntity_wf [wf_intros]: "wf_db db \<Longrightarrow> wf_db (fst (UpdateEntity ev entityID info db))"
  by (auto simp: UpdateEntity_def Let_def split: option.splits intro!: update_entities_wf)

lemma DeleteEntity_None:
  assumes "DeleteEntity ev entityID db = (db', None)"
  shows "bts entityID \<in> set (entity_ids db)" "delete_entity_row (bts entityID) db = Inr db'"
  using assms by (auto simp: DeleteEntity_def split: option.splits if_splits sum.splits)

definition entity_members :: "bytes \<Rightarrow> pgdb \<Rightarrow> uuid list" where
  "entity_members i db = map m_id (filter (\<lambda>r. m_entity_id r = i) (members db))"

definition entity_censuses :: "bytes \<Rightarrow> pgdb \<Rightarrow> bytes list" where
  "entity_censuses i db = map c_id (filter (\<lambda>r. c_entity_id r = i) (censuses db))"

section \<open>Properties\<close>

text \<open>A small authority used in the examples below.\<close>

definition demo_info :: EntityInfo where
  "demo_info = zero_EntityInfo\<lparr>ei_Name := ''org'', ei_Email := ''a@b'',
     ei_CensusManagersAddresses := Some [[1, 2]], ei_Origins := [Token, DB]\<rparr>"

text \<open>
  What \<^verbatim>\<open>AddEntity\<close> stored, \<^verbatim>\<open>Entity\<close> reads back: all fields of the entity's information,
  the origins in their order included, not yet authorized.
\<close>

lemma AddEntity_then_Entity:
  assumes "wf_db db" and "AddEntity ev entityID info db = (db', None)" and "no_faults ev'"
  shows "Entity ev' entityID db' = Inr \<lparr>en_CreatedAt = zero_time, en_UpdatedAt = zero_time,
    en_ID = entityID, en_IsAuthorized = False, en_Info = info\<rparr>"
proof -
  from assms(2) obtain i ps addrs where i: "entityID = Some i" "i \<notin> set (entity_ids db)"
    and ad: "ei_CensusManagersAddresses info = Some addrs"
    and ps: "those (map origins_in (ToPGOriginArray (ei_Origins info))) = Some ps"
    and db': "db' = db\<lparr>entities := entities db @ [entity_row_of i (now ev) info],
              entities_origins := entities_origins db @ map (\<lambda>or. (or, i)) ps\<rparr>"
    by (rule AddEntity_None)
  have row: "find (\<lambda>r. sql_eq entityID (e_key r)) (entities db') = Some (entity_row_of i (now ev) info)"
  proof -
    have "find (\<lambda>r. sql_eq entityID (e_key r)) (entities db) = None"
      using i by (auto simp: find_None_iff e_key_def)
    then show ?thesis using i(1) by (simp add: db' find_append_new e_key_def)
  qed
  have "filter (\<lambda>r. snd r = i) (entities_origins db) = []"
    using assms(1) i(2)
    by (fastforce simp: wf_db_def wf_entities_def refs_iff o_entity_def filter_empty_conv)
  then have "EntityOrigins ev' 1 entityID db' = Inr (ei_Origins info)"
    using assms(3) i(1) those_origins [OF ps]
    by (simp add: EntityOrigins_def db' o_entity_def eq_commute comp_def)
  then show ?thesis
    using assms(3) row i(1) ad
    by (cases info) (simp add: Entity_def Let_def scan_entity_def ToEntity_def entity_row_of_def
        ToOriginArray_def zero_EntityInfo_def)
qed

text \<open>
  \<^verbatim>\<open>AddEntity\<close> is all or nothing: when it returns an error the tables are what they were
  (the row of the entity does not stay behind when its origins are refused); at worst the begun
  transaction is left open.
\<close>

lemma AddEntity_atomic:
  assumes "snd (AddEntity ev entityID info db) = Some e"
  shows "rolled_back db (fst (AddEntity ev entityID info db))"
  using assms
  by (auto simp: AddEntity_def Let_def split: option.splits if_splits sum.splits)

text \<open>
  Signing up an existing entity is recognisable: the error text names the primary key
  \<^verbatim>\<open>entities_pkey\<close>, which is what the manager looks for; but each such call leaves one
  transaction open.
\<close>

lemma AddEntity_existing:
  assumes "no_faults ev" and "i \<in> set (entity_ids db)"
    and "ei_CensusManagersAddresses info \<noteq> None" and "in_int32 (ei_Size info)"
  shows "\<exists>e. AddEntity ev (Some i) info db = (leak db, Some e) \<and>
    strings_Contains (err_text e) ''entities_pkey''"
proof -
  have "insert_entity_query ev (Some i) info db = Inl (UniqueViolation ''entities_pkey'')"
    using assms by (auto simp: insert_entity_query_def insert_entities_def ins_entity.insert_stmt_one
        entity_uq_def viol_def clash_def e_key_def list_ex_iff split: option.splits)
  then have "AddEntity ev (Some i) info db = (leak db,
      Some (Errorf ''cannot add insert query in the transaction'' (Some (UniqueViolation ''entities_pkey''))))"
    using assms by (simp add: AddEntity_def Let_def)
  moreover have "strings_Contains (err_text (Errorf ''cannot add insert query in the transaction''
      (Some (UniqueViolation ''entities_pkey'')))) ''entities_pkey''"
    by code_simp
  ultimately show ?thesis by blast
qed

text \<open>
  An entity with the origin \<^verbatim>\<open>API\<close> (or any number outside the three that the generated
  stringer knows) is never stored: its text is no value of the database's enum.
\<close>

lemma AddEntity_origin_refused:
  assumes "orig \<in> set (ei_Origins info)" and "orig < 0 \<or> API \<le> orig"
  shows "snd (AddEntity ev entityID info db) \<noteq> None"
proof
  assume "snd (AddEntity ev entityID info db) = None"
  then have "AddEntity ev entityID info db = (fst (AddEntity ev entityID info db), None)"
    by (metis prod.collapse)
  then obtain ps where "those (map origins_in (ToPGOriginArray (ei_Origins info))) = Some ps"
    by (rule AddEntity_None)
  then have "\<forall>i\<in>set (ei_Origins info). 0 \<le> i \<and> i < 3" using those_origins by blast
  then show False using assms by force
qed



text \<open>
  \<^verbatim>\<open>UpdateEntity\<close> of an existing entity reports the number of rows it changed, 0 exactly when
  the four fields are already as asked; the name and the e-mail are kept when the new value is
  empty, the callback fields are always overwritten, nothing else of the row changes and no other
  entity does.
\<close>

lemma UpdateEntity_effect:
  assumes "wf_db db" and "no_faults ev" and "r \<in> set (entities db)"
  shows "UpdateEntity ev (Some (e_id r)) info db =
    (if ei_Name info = e_name r \<and> ei_CallbackURL info = e_callback_url r \<and>
        ei_CallbackSecret info = e_callback_secret r \<and> ei_Email info = e_email r
     then (db, Inr 0)
     else (db\<lparr>entities := map (\<lambda>x. if e_id x = e_id r
            then r\<lparr>e_name := (if ei_Name info = [] then e_name r else ei_Name info),
              e_callback_url := ei_CallbackURL info, e_callback_secret := ei_CallbackSecret info,
              e_email := (if ei_Email info = [] then e_email r else ei_Email info),
              e_updated_at := now ev\<rparr>
            else x) (entities db)\<rparr>, Inr 1))"
proof -
  let ?same = "\<lambda>r. ei_Name info = e_name r \<and> ei_CallbackURL info = e_callback_url r \<and>
         ei_CallbackSecret info = e_callback_secret r \<and> ei_Email info = e_email r"
  let ?p = "\<lambda>x. e_key x = Some (e_id r) \<and> \<not> ?same x"
  let ?g = "\<lambda>r. r\<lparr>e_name := (if ei_Name info = [] then e_name r else ei_Name info),
              e_callback_url := ei_CallbackURL info, e_callback_secret := ei_CallbackSecret info,
              e_email := (if ei_Email info = [] then e_email r else ei_Email info),
              e_updated_at := now ev\<rparr>"
  have un: "uniq e_key (entities db)" using assms(1) by (simp add: wf_db_def wf_entities_def)
  have rows: "filter ?p (entities db) = (if ?same r then [] else [r])"
    using filter_uniq [OF un assms(3), of "e_id r" "\<lambda>x. \<not> ?same x"] by (auto simp: e_key_def)
  have m: "map (\<lambda>x. if ?p x then ?g x else x) (entities db) = (if \<not> ?same r
      then map (\<lambda>x. if e_key x = Some (e_id r) then ?g r else x) (entities db) else entities db)"
    by (rule map_uniq_upd [OF un assms(3)]) (simp add: e_key_def)
  have "UpdateEntity ev (Some (e_id r)) info db =
      (update_entities ?p ?g db, Inr (length (filter ?p (entities db))))"
    using assms(2) rows unfolding UpdateEntity_def Let_def sql_eq_def is_distinct_def nullif_def
    by (simp add: eq_commute [of "Some (e_id r)"] coalesce_def if_distrib cong: if_cong)
      (auto split: if_splits)
  then show ?thesis by (simp only: rows update_entities_def m) (auto simp: e_key_def)
qed

end
