(* ===== verification/Bulk.thy ===== *)
theory Bulk
  imports Statements
begin

text \<open>
  \<^verbatim>\<open>bulkInsert\<close> of \<^verbatim>\<open>database/pgsql/pgsql.go\<close>: a slice is inserted in batches so that no statement
  has more than 65535 placeholders. The loop is kept as written, with its index and its batch
  bounds; \<open>exec k batch d\<close> stands for the \<open>k\<close>-th \<^verbatim>\<open>tx.NamedExec(bulkQuery, batch)\<close>.
\<close>

definition maxBulkInsert :: "nat \<Rightarrow> nat" where
  "maxBulkInsert numField = 65536 div numField - 1"

text \<open>
  A batch is never empty when \<^verbatim>\<open>maxBulkInsert\<close> is positive; the callers pass 2, 4, 6 and 12 fields.
  For an empty batch \<^verbatim>\<open>sqlx\<close> reports an error before anything is sent, and the loop ends there.
\<close>

function bulk_loop :: "(nat \<Rightarrow> 'r list \<Rightarrow> 'd \<Rightarrow> dberror + 'd) \<Rightarrow> nat \<Rightarrow> 'r list \<Rightarrow> nat \<Rightarrow> nat \<Rightarrow> 'd \<Rightarrow> dberror + 'd" where
  "bulk_loop exec step bulkSlice k i d =
     (if i < length bulkSlice
      then if step = 0 then Inl (DriverError ''length of array is 0'')
      else (let limit = (if length bulkSlice < i + step then length bulkSlice else i + step);
                batch = take (limit - i) (drop i bulkSlice)
            in case exec k batch d of
                 Inl e \<Rightarrow> Inl (Errorf ''error during batch insert'' (Some e))
               | Inr d' \<Rightarrow> bulk_loop exec step bulkSlice (Suc k) (i + step) d')
      else Inr d)"
  by pat_completeness auto
termination
  by (relation "measure (\<lambda>(exec, step, bulkSlice, k, i, d). length bulkSlice - i)") auto

declare bulk_loop.simps [simp del]

definition bulkInsert :: "(nat \<Rightarrow> 'r list \<Rightarrow> 'd \<Rightarrow> dberror + 'd) \<Rightarrow> 'r list \<Rightarrow> nat \<Rightarrow> 'd \<Rightarrow> dberror + 'd" where
  "bulkInsert exec bulkData numField d = bulk_loop exec (maxBulkInsert numField) bulkData 0 0 d"

section \<open>The batches that are sent\<close>

text \<open>The reference: consecutive pieces of \<open>step\<close> rows, the last one shorter.\<close>

function batches :: "nat \<Rightarrow> 'r list \<Rightarrow> 'r list list" where
  "batches step rs = (if rs = [] \<or> step = 0 then [] else take step rs # batches step (drop step rs))"
  by pat_completeness auto
termination
  by (relation "measure (\<lambda>(step, rs). length rs)") auto

declare batches.simps [simp del]

fun exec_batches :: "(nat \<Rightarrow> 'r list \<Rightarrow> 'd \<Rightarrow> dberror + 'd) \<Rightarrow> nat \<Rightarrow> 'r list list \<Rightarrow> 'd \<Rightarrow> dberror + 'd" where
  "exec_batches exec k [] d = Inr d"
| "exec_batches exec k (b # bs) d =
     (case exec k b d of
        Inl e \<Rightarrow> Inl (Errorf ''error during batch insert'' (Some e))
      | Inr d' \<Rightarrow> exec_batches exec (Suc k) bs d')"

lemma bulk_loop_batches:
  "0 < step \<Longrightarrow> bulk_loop exec step rs k i d = exec_batches exec k (batches step (drop i rs)) d"
proof (induction exec step rs k i d rule: bulk_loop.induct)
  case (1 exec step rs k i d)
  show ?case
  proof (cases "i < length rs")
    case False
    then show ?thesis by (simp add: bulk_loop.simps batches.simps)
  next
    case True
    let ?limit = "if length rs < i + step then length rs else i + step"
    have b: "take (?limit - i) (drop i rs) = take step (drop i rs)" by auto
    have bs: "batches step (drop i rs) = take step (drop i rs) # batches step (drop (i + step) rs)"
      using True "1.prems" by (simp add: batches.simps [of step "drop i rs"] add.commute)
    show ?thesis
    proof (cases "exec k (take step (drop i rs)) d")
      case (Inl e)
      then show ?thesis using True "1.prems" b
        by (simp add: bulk_loop.simps [of exec step rs k i d] bs Let_def del: take_drop)
    next
      case (Inr d')
      have "bulk_loop exec step rs k i d = bulk_loop exec step rs (Suc k) (i + step) d'"
        using True "1.prems" Inr b by (simp add: bulk_loop.simps [of exec step rs k i d] Let_def)
      moreover have "bulk_loop exec step rs (Suc k) (i + step) d' =
          exec_batches exec (Suc k) (batches step (drop (i + step) rs)) d'"
        using "1.IH" [OF True _ refl refl, of d'] "1.prems" Inr b by simp
      ultimately show ?thesis using Inr bs by simp
    qed
  qed
qed

lemma concat_batches: "0 < step \<Longrightarrow> concat (batches step rs) = rs"
proof (induction step rs rule: batches.induct)
  case (1 step rs)
  then show ?case
    by (cases "rs = []") (simp add: batches.simps, simp add: batches.simps [of step rs])
qed

lemma batches_bound: "b \<in> set (batches step rs) \<Longrightarrow> b \<noteq> [] \<and> length b \<le> step"
proof (induction step rs rule: batches.induct)
  case (1 step rs)
  then show ?case by (cases "rs = [] \<or> step = 0") (auto simp: batches.simps [of step rs])
qed

lemma maxBulkInsert_placeholders: "0 < n \<Longrightarrow> m \<le> maxBulkInsert n \<Longrightarrow> m * n \<le> 65536 - n"
proof -
  assume n: "0 < n" and m: "m \<le> maxBulkInsert n"
  have "m * n \<le> (65536 div n - 1) * n" using m by (simp add: maxBulkInsert_def)
  also have "\<dots> = 65536 div n * n - n" by (simp add: diff_mult_distrib)
  also have "\<dots> \<le> 65536 - n" using div_times_less_eq_dividend [of 65536 n] by linarith
  finally show ?thesis .
qed

lemma maxBulkInsert_pos: "0 < n \<Longrightarrow> n \<le> 32768 \<Longrightarrow> 0 < maxBulkInsert n"
proof -
  assume n: "0 < n" "n \<le> 32768"
  have "2 * n div n \<le> 65536 div n" using n by (intro div_le_mono) simp
  then show ?thesis using n by (simp add: maxBulkInsert_def)
qed

section \<open>Batching agrees with one statement\<close>

text \<open>Each batch is one round trip, which may fail, followed by the INSERT on the transaction.\<close>

definition batch_exec :: "env \<Rightarrow> nat \<Rightarrow> ('r list \<Rightarrow> 'd \<Rightarrow> dberror + 'd) \<Rightarrow> nat \<Rightarrow> 'r list \<Rightarrow> 'd \<Rightarrow> dberror + 'd" where
  "batch_exec ev k0 stmt k batch d =
     (case io_err ev (k0 + k) of Some e \<Rightarrow> Inl e | None \<Rightarrow> stmt batch d)"

lemma bulkInsert_exec_batches:
  "0 < numField \<Longrightarrow> numField \<le> 32768 \<Longrightarrow>
   bulkInsert exec rs numField d = exec_batches exec 0 (batches (maxBulkInsert numField) rs) d"
  by (simp add: bulkInsert_def bulk_loop_batches maxBulkInsert_pos)

context insert_table
begin

lemma exec_batches_Inr:
  "exec_batches (batch_exec ev k0 (insert_stmt uq fk add)) k bs d = Inr d' \<Longrightarrow>
   insert_stmt uq fk add (concat bs) d = Inr d'"
proof (induction bs arbitrary: k d)
  case Nil
  then show ?case by simp
next
  case (Cons b bs)
  then show ?case
    by (auto simp: batch_exec_def insert_stmt_append split: sum.splits option.splits)
qed

lemma exec_batches_complete:
  "(\<And>i. io ev i = None) \<Longrightarrow> insert_stmt uq fk add (concat bs) d = Inr d' \<Longrightarrow>
   exec_batches (batch_exec ev k0 (insert_stmt uq fk add)) k bs d = Inr d'"
proof (induction bs arbitrary: k d)
  case Nil
  then show ?case by simp
next
  case (Cons b bs)
  from Cons.prems(2) obtain d1 where d1: "insert_stmt uq fk add b d = Inr d1"
    "insert_stmt uq fk add (concat bs) d1 = Inr d'"
    by (auto simp: insert_stmt_append)
  then show ?case using Cons.IH [OF Cons.prems(1) d1(2)] Cons.prems(1)
    by (simp add: batch_exec_def io_err_def)
qed

lemma bulkInsert_sound:
  assumes "0 < numField" "numField \<le> 32768"
    and "bulkInsert (batch_exec ev k0 (insert_stmt uq fk add)) rs numField d = Inr d'"
  shows "insert_stmt uq fk add rs d = Inr d'"
  using assms exec_batches_Inr [of ev k0 0 "batches (maxBulkInsert numField) rs" d d']
  by (simp add: bulkInsert_exec_batches concat_batches maxBulkInsert_pos)

lemma bulkInsert_complete:
  assumes "0 < numField" "numField \<le> 32768" "\<And>i. io ev i = None"
    and "insert_stmt uq fk add rs d = Inr d'"
  shows "bulkInsert (batch_exec ev k0 (insert_stmt uq fk add)) rs numField d = Inr d'"
  using assms exec_batches_complete [of ev "batches (maxBulkInsert numField) rs" d d' k0 0]
  by (simp add: bulkInsert_exec_batches concat_batches maxBulkInsert_pos)

end

lemmas bulk_users_sound = ins_user_val.bulkInsert_sound [folded insert_user_values_def]
lemmas bulk_members_sound = ins_member_val.bulkInsert_sound [folded insert_member_values_def]
lemmas bulk_members_complete = ins_member_val.bulkInsert_complete [folded insert_member_values_def]
lemmas bulk_users_complete = ins_user_val.bulkInsert_complete [folded insert_user_values_def]
lemmas bulk_census_members_complete = ins_census_member.bulkInsert_complete [folded insert_census_members_def]
lemmas bulk_census_members_sound = ins_census_member.bulkInsert_sound [folded insert_census_members_def]

section \<open>Properties\<close>

text \<open>
  C23: inserting a slice of members in batches is the same as inserting it with one statement: the
  bulk insert succeeds exactly when the one statement would, with the same table, as long as no
  round trip fails; and when it succeeds the result is always that of the one statement.
\<close>

theorem bulkInsert_members_one_statement:
  assumes "0 < numField" "numField \<le> 32768"
  shows "(bulkInsert (batch_exec ev k insert_member_values) rs numField db = Inr db' \<longrightarrow>
      insert_member_values rs db = Inr db') \<and>
    (no_faults ev \<longrightarrow> insert_member_values rs db = Inr db' \<longrightarrow>
      bulkInsert (batch_exec ev k insert_member_values) rs numField db = Inr db')"
  using bulk_members_sound [OF assms] bulk_members_complete [OF assms] by (auto simp: no_faults_def)

theorem bulkInsert_members_one_statement_witness:
  "bulkInsert (batch_exec (quiet 1) 0 insert_member_values) [Inr (demo_member 9 [8] None None [])] 12 demo_db =
   Inr (demo_db\<lparr>members := members demo_db @ [demo_member 9 [8] None None []]\<rparr>)"
proof -
  have "insert_member_values [Inr (demo_member 9 [8] None None [])] demo_db =
      Inr (demo_db\<lparr>members := members demo_db @ [demo_member 9 [8] None None []]\<rparr>)"
    by code_simp
  then show ?thesis
    by (rule bulkInsert_members_one_statement [THEN conjunct2, rule_format, OF _ _ no_faults_quiet, rotated 2])
      simp_all
qed

text \<open>
  C25: the batches partition the slice in order, none is empty, and none needs more than the 65535
  placeholders that the wire protocol can number.
\<close>

theorem bulkInsert_placeholders:
  assumes "0 < numField" "numField \<le> 32768"
  shows "bulkInsert exec rs numField d = exec_batches exec 0 (batches (maxBulkInsert numField) rs) d \<and>
    concat (batches (maxBulkInsert numField) rs) = rs \<and>
    (\<forall>b\<in>set (batches (maxBulkInsert numField) rs). b \<noteq> [] \<and> length b * numField \<le> 65535)"
proof -
  have "length b * numField \<le> 65535" if "b \<in> set (batches (maxBulkInsert numField) rs)" for b
    using maxBulkInsert_placeholders [OF assms(1)] batches_bound [OF that] assms(1)
    by fastforce
  then show ?thesis
    using assms batches_bound by (auto simp: bulkInsert_exec_batches concat_batches maxBulkInsert_pos)
qed

theorem bulkInsert_placeholders_witness:
  "concat (batches (maxBulkInsert 12) (replicate 6000 (0 :: nat))) = replicate 6000 0"
  using bulkInsert_placeholders [of 12 "\<lambda>_ _ _. Inr ()" "replicate 6000 (0 :: nat)" "()"] by simp

end
