(* ===== verification/PgMembers.thy ===== *)
theory PgMembers
  imports PgEntities Bulk
begin

text \<open>
  The methods of \<^verbatim>\<open>database/pgsql/pgsql.go\<close> that create, import, update and register members. A
  method that may panic returns an option, \<open>None\<close> for the panic. In the bulk methods the round
  trips 0 and 1 are the begin and the commit; the batches come after them.
\<close>

section \<open>Rows sent by an INSERT\<close>

text \<open>
  The columns of the INSERT INTO members of \<^verbatim>\<open>AddMember\<close>, \<^verbatim>\<open>ImportMembers\<close>,
  \<^verbatim>\<open>ImportMembersWithPubKey\<close> and \<^verbatim>\<open>AddMemberBulk\<close>; the origin, the consent and the tags are
  left to their defaults.
\<close>

definition member_value :: "ext \<Rightarrow> gotime \<Rightarrow> uuid \<Rightarrow> PGMember \<Rightarrow> member_row val" where
  "member_value x t u p =
     (let m = pm_Member p; info = mb_Info m in
      case mb_EntityID m of
        None \<Rightarrow> Inl (NotNullViolation ''entity_id'')
      | Some i \<Rightarrow>
          (case pm_CustomFields p of
             None \<Rightarrow> Inl (NotNullViolation ''custom_fields'')
           | Some cf \<Rightarrow>
               if \<not> json_valid x cf then Inl (DriverError ''invalid input syntax for type json'')
               else Inr \<lparr>m_updated_at = t, m_created_at = t, m_id = u, m_entity_id = i,
                 m_public_key = mb_PubKey m, m_street_address = mi_StreetAddress info,
                 m_first_name = mi_FirstName info, m_last_name = mi_LastName info,
                 m_phone = mi_Phone info, m_date_of_birth = mi_DateOfBirth info, m_origin = PgToken,
                 m_consented = False, m_verified = mi_Verified info, m_custom_fields = cf,
                 m_tags = [], m_email = pm_Email p\<rparr>))"

text \<open>The columns of the INSERT of \<^verbatim>\<open>CreateMembersWithTokens\<close>, for a member with no data.\<close>

definition token_value :: "gotime \<Rightarrow> gobytes \<Rightarrow> uuid \<Rightarrow> member_row val" where
  "token_value t entityID u =
     (case entityID of
        None \<Rightarrow> Inl (NotNullViolation ''entity_id'')
      | Some i \<Rightarrow> Inr \<lparr>m_updated_at = t, m_created_at = t, m_id = u, m_entity_id = i,
          m_public_key = None, m_street_address = [], m_first_name = [], m_last_name = [],
          m_phone = [], m_date_of_birth = zero_time, m_origin = PgToken, m_consented = False,
          m_verified = zero_time, m_custom_fields = [123, 125], m_tags = [], m_email = None\<rparr>)"

definition zero_Member :: Member where
  "zero_Member = \<lparr>mb_CreatedAt = zero_time, mb_UpdatedAt = zero_time, mb_ID = uuid_Nil,
     mb_EntityID = None, mb_PubKey = None, mb_Info = zero_MemberInfo\<rparr>"

section \<open>Members with tokens\<close>

definition CreateMembersWithTokens :: "env \<Rightarrow> gobytes \<Rightarrow> uuid list \<Rightarrow> pgdb \<Rightarrow> pgdb \<times> dberror option" where
  "CreateMembersWithTokens ev entityID tokens db =
     (if list_ex (\<lambda>t. t = uuid_Nil) tokens
      then (db, Some (Errorf ''error parsing the uuids'' None))
      else case io_err ev 0 of
        Some e \<Rightarrow> (db, Some (Errorf ''cannot initialize postgres transaction'' (Some e)))
      | None \<Rightarrow>
          (case bulkInsert (batch_exec ev 2 insert_member_values)
                  (map (token_value (now ev) entityID) tokens) 12 db of
             Inl e \<Rightarrow> (db, Some (Errorf ''error during bulk insert'' (Some e)))
           | Inr tx \<Rightarrow>
               (case io_err ev 1 of
                  Some e \<Rightarrow> (db, Some (Errorf ''something is very wrong: error rolling back'' (Some e)))
                | None \<Rightarrow> (tx, None))))"

definition CreateNMembers :: "env \<Rightarrow> gobytes \<Rightarrow> int \<Rightarrow> pgdb \<Rightarrow> pgdb \<times> uuid list \<times> dberror option" where
  "CreateNMembers ev entityID n db =
     (let tokens = map (fresh ev) [0..<nat n] in
      case CreateMembersWithTokens ev entityID tokens db of (db', err) \<Rightarrow> (db', tokens, err))"

section \<open>AddMember\<close>

text \<open>
  The user row that is inserted on the transaction when the lookup, made outside of it, found
  none; \<open>k\<close> numbers the round trip.
\<close>

definition tx_add_user :: "env \<Rightarrow> nat \<Rightarrow> gobytes \<Rightarrow> pgdb \<Rightarrow> dberror + pgdb" where
  "tx_add_user ev k pubKey tx =
     (case io_err ev k of
        Some e \<Rightarrow> Inl e
      | None \<Rightarrow>
          (case pubKey of
             None \<Rightarrow> Inl (NotNullViolation ''public_key'')
           | Some pk \<Rightarrow> insert_users [user_row_of pk pk (now ev)] tx))"

text \<open>
  The INSERT with RETURNING of \<^verbatim>\<open>AddMember\<close>: a refused row shows as a result without rows, a
  failure of the round trip as an error of \<^verbatim>\<open>NamedQuery\<close> (3), of \<^verbatim>\<open>Scan\<close> or \<^verbatim>\<open>Close\<close> (4) or of the
  commit (5). Each of these rolls back.
\<close>

definition tx_add_member :: "env \<Rightarrow> ext \<Rightarrow> PGMember \<Rightarrow> pgdb \<Rightarrow> dberror + pgdb \<times> uuid" where
  "tx_add_member ev x pgmember tx =
     (case io_err ev 3 of
        Some e \<Rightarrow> Inl (Errorf ''error rolling back member and user creation'' (Some e))
      | None \<Rightarrow>
          (case insert_member_values [member_value x (now ev) (fresh ev 0) pgmember] tx of
             Inl _ \<Rightarrow> Inl (Errorf ''no rows affected after adding member, posible violation of db constraints'' None)
           | Inr tx' \<Rightarrow>
               (case io_err ev 4 of
                  Some e \<Rightarrow> Inl (Errorf ''error rolling back member and user creation'' (Some e))
                | None \<Rightarrow>
                    (case io_err ev 5 of
                       Some e \<Rightarrow> Inl (Errorf ''error rolling back member and user creation'' (Some e))
                     | None \<Rightarrow> Inr (tx', fresh ev 0)))))"

definition AddMember :: "env \<Rightarrow> ext \<Rightarrow> gobytes \<Rightarrow> gobytes \<Rightarrow> MemberInfo \<Rightarrow> pgdb \<Rightarrow>
    (pgdb \<times> (dberror + uuid)) option" where
  "AddMember ev x entityID pubKey info db =
     (let member = zero_Member\<lparr>mb_EntityID := entityID, mb_PubKey := pubKey, mb_Info := info\<rparr> in
      case io_err ev 0 of
        Some e \<Rightarrow> Some (db, Inl (Errorf ''cannot initialize postgres transaction'' (Some e)))
      | None \<Rightarrow>
          (case (case User ev 1 pubKey db of
                   Inr _ \<Rightarrow> Inr db
                 | Inl ErrNoRows \<Rightarrow>
                     (case tx_add_user ev 2 pubKey db of
                        Inl e \<Rightarrow> Inl (db, Errorf ''error rolling back user creation for member'' (Some e))
                      | Inr tx \<Rightarrow> Inr tx)
                 | Inl e \<Rightarrow> Inl (leak db, Errorf ''error retrieving members corresponding user'' (Some e))) of
             Inl (db', e) \<Rightarrow> Some (db', Inl e)
           | Inr tx \<Rightarrow>
               (case ToPGMember x member of
                  Inl _ \<Rightarrow> None
                | Inr pgmember \<Rightarrow>
                    (case tx_add_member ev x pgmember tx of
                       Inl e \<Rightarrow> Some (db, Inl e)
                     | Inr (tx', u) \<Rightarrow> Some (tx', Inr u)))))"

section \<open>Imports\<close>

definition createEthRandomKeysBatch :: "env \<Rightarrow> nat \<Rightarrow> (bytes \<times> bytes) list option" where
  "createEthRandomKeysBatch ev n = those (map (keygen ev) [0..<n])"

text \<open>
  The loop of \<^verbatim>\<open>ImportMembersWithPubKey\<close>: every user is stored on its own, outside of any
  transaction, before the members are inserted.
\<close>

fun import_users_loop :: "env \<Rightarrow> ext \<Rightarrow> gobytes \<Rightarrow> nat \<Rightarrow> MemberInfo list \<Rightarrow> (bytes \<times> bytes) list \<Rightarrow>
    pgdb \<Rightarrow> pgdb \<times> (dberror + PGMember list)" where
  "import_users_loop ev x entityID idx (member # info) (key # keys) db =
     (case AddUser ev (2 + idx) \<lparr>us_CreatedAt = zero_time, us_UpdatedAt = zero_time,
              us_PubKey = Some (fst key), us_DigestedPubKey = None\<rparr> db of
        (db1, Some e) \<Rightarrow> (db1, Inl (Errorf ''error creating generated user for imported member'' (Some e)))
      | (db1, None) \<Rightarrow>
          (case ToPGMember x (zero_Member\<lparr>mb_EntityID := entityID, mb_PubKey := Some (fst key),
                   mb_Info := member\<rparr>) of
             Inl e \<Rightarrow> (db1, Inl (Errorf ''cannot convert member data types to postgres types'' (Some e)))
           | Inr pgMember \<Rightarrow>
               (case import_users_loop ev x entityID (Suc idx) info keys db1 of
                  (db2, Inl e) \<Rightarrow> (db2, Inl e)
                | (db2, Inr ms) \<Rightarrow> (db2, Inr (pgMember # ms)))))"
| "import_users_loop ev x entityID idx info keys db = (db, Inr [])"

text \<open>The values of a slice of members, each with the UUID the server draws for it.\<close>

definition member_values :: "env \<Rightarrow> ext \<Rightarrow> PGMember list \<Rightarrow> member_row val list" where
  "member_values ev x ps = map (\<lambda>(k, p). member_value x (now ev) (fresh ev k) p) (enumerate 0 ps)"

definition ImportMembersWithPubKey :: "env \<Rightarrow> ext \<Rightarrow> gobytes \<Rightarrow> MemberInfo list \<Rightarrow> pgdb \<Rightarrow>
    (pgdb \<times> dberror option) option" where
  "ImportMembersWithPubKey ev x entityID info db =
     (if info = [] then Some (db, Some (Errorf ''no member data provided'' None))
      else case createEthRandomKeysBatch ev (length info) of
        None \<Rightarrow> None
      | Some keys \<Rightarrow>
          (case import_users_loop ev x entityID 0 info keys db of
             (db1, Inl e) \<Rightarrow> Some (db1, Some e)
           | (db1, Inr pms) \<Rightarrow>
               (case io_err ev 0 of
                  Some e \<Rightarrow> Some (db1, Some (Errorf ''cannot initialize postgres transaction'' (Some e)))
                | None \<Rightarrow>
                    (case bulkInsert (batch_exec ev (2 + length info) insert_member_values)
                            (member_values ev x pms) 12 db1 of
                       Inl e \<Rightarrow> Some (db1, Some (Errorf ''error during bulk insert'' (Some e)))
                     | Inr tx \<Rightarrow>
                         (case io_err ev 1 of
                            Some e \<Rightarrow> Some (db1, Some (Errorf ''something is very wrong: error rolling back'' (Some e)))
                          | None \<Rightarrow> Some (tx, None))))))"

text \<open>\<^verbatim>\<open>ToPGMember\<close> on every member, up to the first failure.\<close>

fun pg_members :: "ext \<Rightarrow> gobytes \<Rightarrow> MemberInfo list \<Rightarrow> dberror + PGMember list" where
  "pg_members x entityID [] = Inr []"
| "pg_members x entityID (info # infos) =
     (case ToPGMember x (zero_Member\<lparr>mb_EntityID := entityID, mb_Info := info\<rparr>) of
        Inl e \<Rightarrow> Inl (Errorf ''cannot convert member data types to postgres types'' (Some e))
      | Inr p \<Rightarrow> (case pg_members x entityID infos of Inl e \<Rightarrow> Inl e | Inr ps \<Rightarrow> Inr (p # ps)))"

definition ImportMembers :: "env \<Rightarrow> ext \<Rightarrow> gobytes \<Rightarrow> MemberInfo list \<Rightarrow> pgdb \<Rightarrow> pgdb \<times> dberror option" where
  "ImportMembers ev x entityID info db =
     (if info = [] then (db, Some (Errorf ''no member data provided'' None))
      else case pg_members x entityID info of
        Inl e \<Rightarrow> (db, Some e)
      | Inr pms \<Rightarrow>
          (case io_err ev 0 of
             Some e \<Rightarrow> (db, Some (Errorf ''cannot initialize postgres transaction'' (Some e)))
           | None \<Rightarrow>
               (case bulkInsert (batch_exec ev 2 insert_member_values) (member_values ev x pms) 12 db of
                  Inl (Errorf s (Some (UniqueViolation c))) \<Rightarrow>
                    if c = ''members_entity_id_email_unique''
                    then (db, Some (Errorf ''error during bulk insert: duplicate email'' None))
                    else (db, Some (Errorf ''error during bulk insert'' (Some (Errorf s (Some (UniqueViolation c))))))
                | Inl e \<Rightarrow> (db, Some (Errorf ''error during bulk insert'' (Some e)))
                | Inr tx \<Rightarrow>
                    (case io_err ev 1 of
                       Some e \<Rightarrow> (db, Some (Errorf ''something is very wrong: error rolling back'' (Some e)))
                     | None \<Rightarrow> (tx, None)))))"

text \<open>
  The loop of \<^verbatim>\<open>AddMemberBulk\<close>, with the transaction already begun: the users and the members to
  insert, or the error of the first member that is refused.
\<close>

fun bulk_members_loop :: "env \<Rightarrow> ext \<Rightarrow> gobytes \<Rightarrow> Member list \<Rightarrow> dberror + user_row val list \<times> PGMember list" where
  "bulk_members_loop ev x entityID [] = Inr ([], [])"
| "bulk_members_loop ev x entityID (member # ms) =
     (if slen (mb_PubKey member) = 0 then Inl (Errorf ''found empty public keys'' None)
      else if slen (mb_EntityID member) > 0 \<and> \<not> bytes_Equal (mb_EntityID member) entityID
      then Inl (Errorf ''expected member entityID'' None)
      else (let member' = (if slen (mb_EntityID member) = 0 then member\<lparr>mb_EntityID := entityID\<rparr> else member) in
            case ToPGMember x member' of
              Inl e \<Rightarrow> Inl (Errorf ''cannot convert member data types to postgres types'' (Some e))
            | Inr p \<Rightarrow>
                (case bulk_members_loop ev x entityID ms of
                   Inl e \<Rightarrow> Inl e
                 | Inr (us, ps) \<Rightarrow>
                     Inr (Inr (user_row_of (bts (mb_PubKey member)) (bts (mb_PubKey member)) (now ev)) # us,
                          p # ps))))"

text \<open>The batches of the users are numbered from 2, those of the members from 2 plus the number of members.\<close>

definition AddMemberBulk :: "env \<Rightarrow> ext \<Rightarrow> gobytes \<Rightarrow> Member list \<Rightarrow> pgdb \<Rightarrow> pgdb \<times> dberror option" where
  "AddMemberBulk ev x entityID ms db =
     (if ms = [] then (db, Some (Errorf ''no member data provided'' None))
      else case io_err ev 0 of
        Some e \<Rightarrow> (db, Some (Errorf ''cannot initialize postgres transaction'' (Some e)))
      | None \<Rightarrow>
          (case bulk_members_loop ev x entityID ms of
             Inl e \<Rightarrow> (leak db, Some e)
           | Inr (us, pgMembers) \<Rightarrow>
               (case bulkInsert (batch_exec ev 2 insert_user_values) us 4 db of
                  Inl e \<Rightarrow> (db, Some (Errorf ''error during bulk insert'' (Some e)))
                | Inr tx1 \<Rightarrow>
                    (case bulkInsert (batch_exec ev (2 + length ms) insert_member_values)
                            (member_values ev x pgMembers) 12 tx1 of
                       Inl e \<Rightarrow> (db, Some (Errorf ''error during bulk insert'' (Some e)))
                     | Inr tx2 \<Rightarrow>
                         (case io_err ev 1 of
                            Some e \<Rightarrow> (db, Some (Errorf ''could not commit bulk import'' (Some e)))
                          | None \<Rightarrow> (tx2, None))))))"

section \<open>Updates\<close>

text \<open>An UPDATE of members that may break the unique e-mail or the unique public key of an entity.\<close>

definition update_members_checked :: "(member_row \<Rightarrow> bool) \<Rightarrow> (member_row \<Rightarrow> member_row) \<Rightarrow> pgdb \<Rightarrow> dberror + pgdb" where
  "update_members_checked p g db =
     (let db' = update_members p g db in
      if \<not> uniq m_entity_pubkey (members db')
      then Inl (UniqueViolation ''members_entity_id_public_key_unique'')
      else if \<not> uniq m_entity_email (members db')
      then Inl (UniqueViolation ''members_entity_id_email_unique'')
      else if \<not> refs m_public_key (members db') (user_keys db')
      then Inl (ForeignKeyViolation ''members_public_key_fkey'')
      else Inr db')"

text \<open>The row as the SET clause of \<^verbatim>\<open>UpdateMember\<close> rewrites it, and the condition on the new values.\<close>

definition member_set :: "gotime \<Rightarrow> PGMember \<Rightarrow> member_row \<Rightarrow> member_row" where
  "member_set t p r =
     (let info = mb_Info (pm_Member p) in
      r\<lparr>m_street_address := coalesce (nullif (Some (mi_StreetAddress info)) (Some [])) (m_street_address r),
        m_first_name := coalesce (nullif (Some (mi_FirstName info)) (Some [])) (m_first_name r),
        m_last_name := coalesce (nullif (Some (mi_LastName info)) (Some [])) (m_last_name r),
        m_email := (case pm_Email p of None \<Rightarrow> m_email r | Some e \<Rightarrow> Some e),
        m_date_of_birth := coalesce (nullif (Some (mi_DateOfBirth info)) (Some (m_date_of_birth r))) (m_date_of_birth r),
        m_tags := coalesce (pm_Tags p) (m_tags r),
        m_updated_at := t\<rparr>)"

definition member_differs :: "PGMember \<Rightarrow> member_row \<Rightarrow> bool" where
  "member_differs p r =
     (let info = mb_Info (pm_Member p) in
      is_distinct (Some (mi_StreetAddress info)) (Some (m_street_address r)) \<or>
      is_distinct (Some (mi_FirstName info)) (Some (m_first_name r)) \<or>
      is_distinct (Some (mi_LastName info)) (Some (m_last_name r)) \<or>
      is_distinct (pm_Email p) (m_email r) \<or>
      is_distinct (Some (mi_DateOfBirth info)) (Some (m_date_of_birth r)) \<or>
      is_distinct (pm_Tags p) (Some (m_tags r)))"

definition UpdateMember :: "env \<Rightarrow> ext \<Rightarrow> gobytes \<Rightarrow> uuid option \<Rightarrow> MemberInfo \<Rightarrow> pgdb \<Rightarrow> pgdb \<times> (dberror + nat)" where
  "UpdateMember ev x entityID memberID info db =
     (case memberID of
        None \<Rightarrow> (db, Inl (Errorf ''memberID is nil'' None))
      | Some u \<Rightarrow>
          (case ToPGMember x (zero_Member\<lparr>mb_ID := u, mb_EntityID := entityID, mb_Info := info\<rparr>) of
             Inl e \<Rightarrow> (db, Inl (Errorf ''cannot convert member data types to postgres types'' (Some e)))
           | Inr pgmember \<Rightarrow>
               (case io_err ev 0 of
                  Some e \<Rightarrow> (db, Inl (Errorf ''error updating member'' (Some e)))
                | None \<Rightarrow>
                    (let p = (\<lambda>r. m_id r = u \<and> sql_eq entityID (m_entity r) \<and> member_differs pgmember r);
                         rows = length (filter p (members db))
                     in case update_members_checked p (member_set (now ev) pgmember) db of
                          Inl e \<Rightarrow> (db, Inl (Errorf ''error updating member'' (Some e)))
                        | Inr db' \<Rightarrow>
                            if rows \<noteq> 1 \<and> rows \<noteq> 0
                            then (db', Inl (Errorf ''expected to update 0 or 1 rows'' None))
                            else (db', Inr rows)))))"

text \<open>
  The UPDATE of \<^verbatim>\<open>RegisterMember\<close>, the count of its rows and the commit: \<open>Inl\<close> rolls the
  transaction back.
\<close>

definition tx_register_member :: "env \<Rightarrow> gobytes \<Rightarrow> gobytes \<Rightarrow> uuid \<Rightarrow> pgdb \<Rightarrow> dberror + pgdb" where
  "tx_register_member ev entityID pubKey u tx =
     (case io_err ev 3 of
        Some e \<Rightarrow> Inl (Errorf ''error rolling back member and user creation'' (Some e))
      | None \<Rightarrow>
          (let p = (\<lambda>r. m_id r = u \<and> sql_eq entityID (m_entity r)) in
           case update_members_checked p
                  (\<lambda>r. r\<lparr>m_public_key := pubKey, m_updated_at := now ev, m_verified := now ev\<rparr>) tx of
             Inl e \<Rightarrow> Inl (Errorf ''error rolling back member and user creation'' (Some e))
           | Inr tx' \<Rightarrow>
               if length (filter p (members tx)) \<noteq> 1
               then Inl (Errorf ''expected 1 row affected after adding member'' None)
               else (case io_err ev 4 of
                       Some e \<Rightarrow> Inl (Errorf ''error rolling back member and user creation'' (Some e))
                     | None \<Rightarrow> Inr tx')))"

definition RegisterMember :: "env \<Rightarrow> ext \<Rightarrow> gobytes \<Rightarrow> gobytes \<Rightarrow> uuid option \<Rightarrow> pgdb \<Rightarrow> pgdb \<times> dberror option" where
  "RegisterMember ev x entityID pubKey token db =
     (case token of
        None \<Rightarrow> (db, Some (Errorf ''token is nil'' None))
      | Some u \<Rightarrow>
          (case io_err ev 0 of
             Some e \<Rightarrow> (db, Some (Errorf ''cannot initialize postgres transaction'' (Some e)))
           | None \<Rightarrow>
               if \<not> ValidPubKey x pubKey then (leak db, Some (Errorf ''invalid public key size'' None))
               else
                 (case (case User ev 1 pubKey db of
                          Inr _ \<Rightarrow> Inr db
                        | Inl ErrNoRows \<Rightarrow>
                            (case tx_add_user ev 2 pubKey db of
                               Inl e \<Rightarrow> Inl (db, Errorf ''error rolling back user creation for member'' (Some e))
                             | Inr tx \<Rightarrow> Inr tx)
                        | Inl e \<Rightarrow> Inl (leak db, Errorf ''error retrieving members corresponding user'' (Some e))) of
                    Inl (db', e) \<Rightarrow> (db', Some e)
                  | Inr tx \<Rightarrow>
                      (case ToPGMember x (zero_Member\<lparr>mb_ID := u, mb_EntityID := entityID, mb_PubKey := pubKey\<rparr>) of
                         Inl e \<Rightarrow> (leak db, Some (Errorf ''cannot convert member data types to postgres types'' (Some e)))
                       | Inr pgmember \<Rightarrow>
                           (case tx_register_member ev entityID pubKey u tx of
                              Inl e \<Rightarrow> (db, Some e)
                            | Inr tx' \<Rightarrow> (tx', None))))))"

section \<open>The schema is kept\<close>

lemma update_members_frame [frame_simps]:
  "entities (update_members p g db) = entities db"
  "entities_origins (update_members p g db) = entities_origins db"
  "users (update_members p g db) = users db"
  "targets (update_members p g db) = targets db" "censuses (update_members p g db) = censuses db"
  "census_members (update_members p g db) = census_members db"
  "tags (update_members p g db) = tags db" "tags_seq (update_members p g db) = tags_seq db"
  "open_tx (update_members p g db) = open_tx db"
  by (simp_all add: update_members_def)

lemma update_members_checked_wf:
  assumes "update_members_checked p g db = Inr db'" "wf_db db"
    and g: "\<And>r. m_id (g r) = m_id r" "\<And>r. m_entity_id (g r) = m_entity_id r" "\<And>r. m_origin (g r) = m_origin r"
  shows "wf_db db'"
proof -
  let ?h = "\<lambda>r. if p r then g r else r"
  have key: "m_key (?h r) = m_key r" "m_entity (?h r) = m_entity r" "m_origin_key (?h r) = m_origin_key r" for r
    using g by (auto simp: key_defs)
  have db': "db' = update_members p g db" and ok: "uniq m_entity_pubkey (members db')"
    "uniq m_entity_email (members db')" "refs m_public_key (members db') (user_keys db')"
    using assms(1) by (auto simp: update_members_checked_def Let_def split: if_splits)
  have "uniq m_key (members db')" "refs m_entity (members db') (entity_ids db')"
    "refs m_origin_key (members db') (entities_origins db')"
    using assms(2)
    by (simp_all add: db' update_members_def wf_db_def wf_members_def uniq_map_same key refs_def list.pred_map comp_def)
  then have "wf_members db'" using ok by (simp add: wf_members_def)
  moreover have "wf_census_members db'"
    using assms(2) update_members_ids [OF g(1), where p = p and db = db]
    by (simp add: db' wf_db_def wf_census_members_def frame_simps)
  ultimately show ?thesis
    using assms(2) by (simp add: wf_db_def wf_parts db' frame_simps)
qed

lemmas bulk_wf = bulk_members_sound [THEN insert_member_values_wf, rotated 2]
  bulk_users_sound [THEN insert_user_values_wf, rotated 2]

lemma CreateMembersWithTokens_wf [wf_intros]: "wf_db db \<Longrightarrow> wf_db (fst (CreateMembersWithTokens ev i ts db))"
  by (auto simp: CreateMembersWithTokens_def split: option.splits sum.splits dest: bulk_wf)

lemma CreateNMembers_wf [wf_intros]: "wf_db db \<Longrightarrow> wf_db (fst (CreateNMembers ev i n db))"
  using CreateMembersWithTokens_wf [of db ev i "map (fresh ev) [0..<nat n]"]
  by (auto simp: CreateNMembers_def Let_def split: prod.splits)

lemma tx_add_user_wf [wf_intros]: "tx_add_user ev k pk db = Inr tx \<Longrightarrow> wf_db db \<Longrightarrow> wf_db tx"
  by (auto simp: tx_add_user_def split: option.splits intro: wf_intros)

lemma tx_add_member_wf [wf_intros]: "tx_add_member ev x p db = Inr (tx, u) \<Longrightarrow> wf_db db \<Longrightarrow> wf_db tx"
  by (auto simp: tx_add_member_def split: option.splits sum.splits intro: wf_intros)

lemma AddMember_wf [wf_intros]: "AddMember ev x i pk info db = Some (db', r) \<Longrightarrow> wf_db db \<Longrightarrow> wf_db db'"
  by (auto simp: AddMember_def Let_def split: option.splits sum.splits prod.splits dberror.splits intro: wf_intros)

lemma import_users_loop_wf: "wf_db db \<Longrightarrow> wf_db (fst (import_users_loop ev x i idx infos keys db))"
proof (induction ev x i idx infos keys db rule: import_users_loop.induct)
  case (1 ev x i idx member info key keys db)
  let ?u = "\<lparr>us_CreatedAt = zero_time, us_UpdatedAt = zero_time, us_PubKey = Some (fst key), us_DigestedPubKey = None\<rparr>"
  have "wf_db (fst (AddUser ev (2 + idx) ?u db))" using "1.prems" by (rule AddUser_wf)
  then show ?case using "1.IH"
    by (auto split: prod.splits option.splits sum.splits)
qed simp_all

lemma import_users_loop_wf':
  "import_users_loop ev x i idx infos keys db = (db', r) \<Longrightarrow> wf_db db \<Longrightarrow> wf_db db'"
  using import_users_loop_wf by (metis fst_conv)

lemma ImportMembersWithPubKey_wf [wf_intros]:
  "ImportMembersWithPubKey ev x i info db = Some (db', r) \<Longrightarrow> wf_db db \<Longrightarrow> wf_db db'"
  by (auto simp: ImportMembersWithPubKey_def split: option.splits sum.splits prod.splits if_splits
      dest!: bulk_wf import_users_loop_wf')

lemma ImportMembers_wf [wf_intros]: "wf_db db \<Longrightarrow> wf_db (fst (ImportMembers ev x i info db))"
  by (auto simp: ImportMembers_def split: option.splits sum.splits dberror.splits dest: bulk_wf)

lemma AddMemberBulk_wf [wf_intros]: "wf_db db \<Longrightarrow> wf_db (fst (AddMemberBulk ev x i ms db))"
  by (auto simp: AddMemberBulk_def split: option.splits sum.splits prod.splits dest!: bulk_wf)

lemma UpdateMember_wf [wf_intros]: "wf_db db \<Longrightarrow> wf_db (fst (UpdateMember ev x i u info db))"
  by (auto simp: UpdateMember_def Let_def member_set_def split: option.splits sum.splits
      elim!: update_members_checked_wf)

lemma tx_register_member_wf [wf_intros]: "tx_register_member ev i pk u db = Inr tx \<Longrightarrow> wf_db db \<Longrightarrow> wf_db tx"
  by (auto simp: tx_register_member_def Let_def split: option.splits sum.splits if_splits
      elim!: update_members_checked_wf)

lemma RegisterMember_wf [wf_intros]: "wf_db db \<Longrightarrow> wf_db (fst (RegisterMember ev x i pk u db))"
  by (auto simp: RegisterMember_def Let_def split: option.splits sum.splits prod.splits dberror.splits
      intro: wf_intros)

section \<open>Effects\<close>

lemma CreateMembersWithTokens_None:
  assumes "CreateMembersWithTokens ev entityID ts db = (db', None)"
  shows "uuid_Nil \<notin> set ts" "insert_member_values (map (token_value (now ev) entityID) ts) db = Inr db'"
  using assms bulk_members_sound [of 12 ev 2 "map (token_value (now ev) entityID) ts" db db']
  by (auto simp: CreateMembersWithTokens_def list_ex_iff split: option.splits sum.splits if_splits)

lemma CreateMembersWithTokens_quiet:
  assumes "no_faults ev" "uuid_Nil \<notin> set ts"
    and "insert_member_values (map (token_value (now ev) entityID) ts) db = Inr db'"
  shows "CreateMembersWithTokens ev entityID ts db = (db', None)"
  using assms bulk_members_complete [of 12 ev "map (token_value (now ev) entityID) ts" db db' 2]
  by (auto simp: CreateMembersWithTokens_def list_ex_iff no_faults_def io_err_def)

lemma token_value_Inr: "map (token_value t entityID) ts = map Inr rows \<Longrightarrow> map m_id rows = ts \<and>
   (\<forall>r\<in>set rows. Some (m_entity_id r) = entityID \<and> m_public_key r = None \<and> m_email r = None)"
proof (induction ts arbitrary: rows)
  case Nil
  then show ?case by simp
next
  case (Cons u ts)
  then obtain r rows' where r: "rows = r # rows'" "token_value t entityID u = Inr r"
    "map (token_value t entityID) ts = map Inr rows'"
    by (cases rows) auto
  then show ?case using Cons.IH [OF r(3)] by (auto simp: token_value_def split: option.splits)
qed

lemma uniq_m_key_append: "uniq m_key (rs @ rs') \<longleftrightarrow>
    uniq m_key rs \<and> distinct (map m_id rs') \<and> set (map m_id rs) \<inter> set (map m_id rs') = {}"
proof -
  have "List.map_filter m_key xs = map m_id xs" for xs :: "member_row list"
    by (induction xs) (auto simp: List.map_filter_simps m_key_def)
  then show ?thesis by (auto simp: uniq_def)
qed

lemma uniq_map_m_id: "uniq m_key rs \<longleftrightarrow> distinct (map m_id rs)"
  using uniq_m_key_append [of "[]" rs] by simp

text \<open>How a transaction that may first have to add the user ends.\<close>

lemma tx_add_user_Inr:
  assumes "tx_add_user ev k pubKey db = Inr tx"
  obtains pk where "pubKey = Some pk" "tx = db\<lparr>users := users db @ [user_row_of pk pk (now ev)]\<rparr>"
  using assms by (auto simp: tx_add_user_def insert_users_def ins_user.insert_stmt_one user_add_def
      split: option.splits)

text \<open>The state in which a user for the key exists: as before, or with the new row.\<close>

definition with_user :: "env \<Rightarrow> gobytes \<Rightarrow> pgdb \<Rightarrow> pgdb" where
  "with_user ev pubKey db =
     (case pubKey of
        None \<Rightarrow> db
      | Some pk \<Rightarrow> if pk \<in> set (user_keys db) then db
          else db\<lparr>users := users db @ [user_row_of pk pk (now ev)]\<rparr>)"

lemma with_user_simps [simp]: "members (with_user ev k db) = members db"
  "entities (with_user ev k db) = entities db" "entities_origins (with_user ev k db) = entities_origins db"
  "targets (with_user ev k db) = targets db" "censuses (with_user ev k db) = censuses db"
  "census_members (with_user ev k db) = census_members db" "tags (with_user ev k db) = tags db"
  "tags_seq (with_user ev k db) = tags_seq db" "open_tx (with_user ev k db) = open_tx db"
  by (simp_all add: with_user_def split: option.splits)

lemma with_user_key: "pk \<in> set (user_keys (with_user ev (Some pk) db))"
  by (simp add: with_user_def user_row_of_def)

lemma User_cases:
  "User ev k pubKey db = Inl ErrNoRows \<Longrightarrow> \<forall>pk. pubKey = Some pk \<longrightarrow> pk \<notin> set (user_keys db)"
  "User ev k pubKey db = Inr v \<Longrightarrow> \<exists>pk. pubKey = Some pk \<and> pk \<in> set (user_keys db)"
  by (auto simp: User_def io_err_def u_key_def sql_eq_def find_None_iff split: option.splits dest!: find_Some_mem)

lemma RegisterMember_None:
  assumes "RegisterMember ev x entityID pubKey token db = (db', None)"
  obtains u pk where "token = Some u" "pubKey = Some pk" "ValidPubKey x pubKey"
    "tx_register_member ev entityID pubKey u (with_user ev pubKey db) = Inr db'"
  using assms
  by (auto simp: RegisterMember_def with_user_def split: option.splits sum.splits prod.splits dberror.splits if_splits
      dest!: User_cases elim!: tx_add_user_Inr)

lemma AddMember_Inr:
  assumes "AddMember ev x entityID pubKey info db = Some (db', Inr u)"
  obtains pk p where "pubKey = Some pk" "tx_add_member ev x p (with_user ev pubKey db) = Inr (db', u)"
    "ToPGMember x (zero_Member\<lparr>mb_EntityID := entityID, mb_PubKey := pubKey, mb_Info := info\<rparr>) = Inr p"
  using assms
  by (auto simp: AddMember_def Let_def with_user_def split: option.splits sum.splits prod.splits dberror.splits if_splits
      dest!: User_cases elim!: tx_add_user_Inr)

lemma update_members_checked_Inr:
  "update_members_checked p g db = Inr db' \<Longrightarrow> db' = update_members p g db"
  by (auto simp: update_members_checked_def Let_def split: if_splits)

text \<open>An UPDATE addressed by member and entity rewrites the one row with that identifier.\<close>

lemma update_one_member:
  assumes "wf_db db" "r \<in> set (members db)"
  shows "filter (\<lambda>y. m_id y = m_id r \<and> sql_eq (Some (m_entity_id r)) (m_entity y) \<and> P y) (members db) =
      (if P r then [r] else [])" (is "filter ?p _ = _")
    and "members (update_members (\<lambda>y. m_id y = m_id r \<and> sql_eq (Some (m_entity_id r)) (m_entity y) \<and> P y) g db) =
      (if P r then map (\<lambda>y. if m_id y = m_id r then g r else y) (members db) else members db)"
proof -
  let ?Q = "\<lambda>y. sql_eq (Some (m_entity_id r)) (m_entity y) \<and> P y"
  have un: "uniq m_key (members db)" using assms(1) by (simp add: wf_db_def wf_members_def)
  have k: "m_key r = Some (m_id r)" by (simp add: m_key_def)
  have Q: "?Q r = P r" by (simp add: m_entity_def)
  show "filter ?p (members db) = (if P r then [r] else [])"
    using filter_uniq [OF un assms(2) k, of ?Q] unfolding Q by (simp add: m_key_def)
  show "members (update_members ?p g db) =
      (if P r then map (\<lambda>y. if m_id y = m_id r then g r else y) (members db) else members db)"
    using map_uniq_upd [OF un assms(2) k, of ?Q g] unfolding Q by (simp add: m_key_def update_members_def)
qed

text \<open>A successful registration rewrites the one member of the token.\<close>

lemma register_member_effect:
  assumes "wf_db db" and "RegisterMember ev x entityID pubKey (Some u) db = (db', None)"
  obtains pk r where "pubKey = Some pk" "length pk = PubKeyLengthBytes x"
    "r \<in> set (members db)" "m_id r = u" "entityID = Some (m_entity_id r)"
    "db' = (with_user ev pubKey db)\<lparr>members := map (\<lambda>y. if m_id y = u
      then r\<lparr>m_public_key := Some pk, m_updated_at := now ev, m_verified := now ev\<rparr> else y) (members db)\<rparr>"
proof -
  from assms(2) obtain pk where pk: "pubKey = Some pk" "ValidPubKey x pubKey"
    and tx: "tx_register_member ev entityID pubKey u (with_user ev pubKey db) = Inr db'"
    by (rule RegisterMember_None) auto
  let ?p = "\<lambda>r. m_id r = u \<and> sql_eq entityID (m_entity r)"
  let ?g = "\<lambda>r. r\<lparr>m_public_key := pubKey, m_updated_at := now ev, m_verified := now ev\<rparr>"
  have up: "db' = update_members ?p ?g (with_user ev pubKey db)"
    and one: "length (filter ?p (members db)) = 1"
    using tx by (auto simp: tx_register_member_def Let_def split: option.splits sum.splits if_splits
        dest!: update_members_checked_Inr)
  from one obtain r where r: "filter ?p (members db) = [r]" by (auto simp: length_Suc_conv)
  then have "r \<in> set (filter ?p (members db))" by simp
  then have r': "r \<in> set (members db)" "m_id r = u" "entityID = Some (m_entity_id r)"
    by (auto simp: m_entity_def sql_eq_def split: option.splits)
  have "members db' = map (\<lambda>y. if m_id y = u then ?g r else y) (members db)"
    using update_one_member(2) [OF assms(1) r'(1), of "\<lambda>_. True" ?g] r'
    by (simp add: up update_members_def)
  moreover have "db' = (with_user ev pubKey db)\<lparr>members := members db'\<rparr>"
    by (simp add: up update_members_def)
  ultimately show ?thesis using that [OF pk(1) _ r'] pk by (simp add: ValidPubKey_def slen_def bts_def)
qed

section \<open>Properties\<close>

text \<open>
  When \<^verbatim>\<open>CreateMembersWithTokens\<close> succeeds, one member per token is added to the entity, in the
  order of the tokens, with no public key and no e-mail, and nothing else changes; the tokens were
  distinct, not nil and not yet in use by any entity.
\<close>

lemma CreateMembersWithTokens_effect:
  assumes "wf_db db" and "CreateMembersWithTokens ev entityID ts db = (db', None)"
  shows "\<exists>rows. db' = db\<lparr>members := members db @ rows\<rparr> \<and> map m_id rows = ts \<and>
    (\<forall>r\<in>set rows. Some (m_entity_id r) = entityID \<and> m_public_key r = None \<and> m_email r = None) \<and>
    distinct ts \<and> uuid_Nil \<notin> set ts \<and> set ts \<inter> set (member_ids db) = {}"
proof -
  note N = CreateMembersWithTokens_None [OF assms(2)]
  from N(2) obtain rows where rows: "map (token_value (now ev) entityID) ts = map Inr rows"
    "db' = db\<lparr>members := members db @ rows\<rparr>"
    by (rule insert_member_values_Inr)
  have "wf_db db'" using N(2) assms(1) by (rule insert_member_values_wf)
  then have "uniq m_key (members db @ rows)" using rows(2) by (simp add: wf_db_def wf_members_def)
  then show ?thesis
    using rows(2) N(1) token_value_Inr [OF rows(1)] by (auto simp: uniq_m_key_append)
qed



end
