(* ===== verification/PgQueries.thy ===== *)
theory PgQueries
  imports PgMembers "HOL-Library.Multiset"
begin

text \<open>
  The methods of \<^verbatim>\<open>database/pgsql/pgsql.go\<close> that look members up, list, count and delete them. A
  lookup returns Go's error or the result.
\<close>

section \<open>Scanning a row\<close>

text \<open>
  \<^verbatim>\<open>StructScan\<close> into a \<^verbatim>\<open>PGMember\<close>: the columns that all queries select, then the optional ones.
  A column that is not selected leaves the zero value, for \<^verbatim>\<open>Tags\<close> an undefined array.
\<close>

definition scan_member :: "member_row \<Rightarrow> PGMember" where
  "scan_member r = \<lparr>pm_Member = zero_Member\<lparr>mb_ID := m_id r, mb_EntityID := Some (m_entity_id r),
       mb_PubKey := m_public_key r,
       mb_Info := zero_MemberInfo\<lparr>mi_StreetAddress := m_street_address r,
         mi_FirstName := m_first_name r, mi_LastName := m_last_name r, mi_Phone := m_phone r,
         mi_DateOfBirth := m_date_of_birth r, mi_Verified := m_verified r\<rparr>\<rparr>,
     pm_CustomFields = Some (m_custom_fields r), pm_Tags = None, pm_Email = m_email r\<rparr>"

definition with_tags :: "member_row \<Rightarrow> PGMember \<Rightarrow> PGMember" where
  "with_tags r p = p\<lparr>pm_Tags := Some (m_tags r)\<rparr>"

definition with_consented :: "member_row \<Rightarrow> PGMember \<Rightarrow> PGMember" where
  "with_consented r p = p\<lparr>pm_Member := (pm_Member p)\<lparr>mb_Info :=
     (mb_Info (pm_Member p))\<lparr>mi_Consented := m_consented r\<rparr>\<rparr>\<rparr>"

definition member_of :: "member_row \<Rightarrow> Member" where
  "member_of r = ToMember (with_consented r (with_tags r (scan_member r)))"

section \<open>Lookups\<close>

definition Member :: "env \<Rightarrow> gobytes \<Rightarrow> uuid option \<Rightarrow> pgdb \<Rightarrow> dberror + Member" where
  "Member ev entityID memberID db =
     (case memberID of
        None \<Rightarrow> Inl (Errorf ''memberID is nil'' None)
      | Some u \<Rightarrow>
          (case io_err ev 0 of
             Some e \<Rightarrow> Inl e
           | None \<Rightarrow>
               (case find (\<lambda>r. m_id r = u \<and> sql_eq entityID (m_entity r)) (members db) of
                  None \<Rightarrow> Inl ErrNoRows
                | Some r \<Rightarrow> Inr (member_of r))))"

text \<open>
  SQL's LIKE: \<^verbatim>\<open>%\<close> matches any text, \<^verbatim>\<open>_\<close> any character, a backslash quotes the next
  character of the pattern and is an error at its end.
\<close>

function sql_like :: "string \<Rightarrow> string \<Rightarrow> bool option" where
  "sql_like [] s = Some (s = [])"
| "sql_like (c # p) s =
     (if c = CHR ''%'' then
        (case sql_like p s of
           None \<Rightarrow> None
         | Some True \<Rightarrow> Some True
         | Some False \<Rightarrow> (case s of [] \<Rightarrow> Some False | _ # s' \<Rightarrow> sql_like (c # p) s'))
      else case s of
        [] \<Rightarrow> Some False
      | d # s' \<Rightarrow>
          if c = CHR ''_'' then sql_like p s'
          else if c = CHR 0x5C then
            (case p of [] \<Rightarrow> None | q # p' \<Rightarrow> if d = q then sql_like p' s' else Some False)
          else if d = c then sql_like p s' else Some False)"
  by pat_completeness auto
termination
  by (relation "measure (\<lambda>(p, s). length p + length s)") auto

text \<open>The filter of a WHERE clause that may fail on a row.\<close>

fun filter_err :: "('r \<Rightarrow> bool option) \<Rightarrow> 'r list \<Rightarrow> 'r list option" where
  "filter_err p [] = Some []"
| "filter_err p (r # rs) =
     (case p r of
        None \<Rightarrow> None
      | Some b \<Rightarrow> map_option (\<lambda>xs. if b then r # xs else xs) (filter_err p rs))"

definition email_like :: "string \<Rightarrow> string option \<Rightarrow> bool option" where
  "email_like pat em = (case em of None \<Rightarrow> Some False | Some s \<Rightarrow> sql_like pat s)"

text \<open>\<^verbatim>\<open>MemberByEmail\<close> takes the first element of the result without a test for an empty one.\<close>

definition MemberByEmail :: "env \<Rightarrow> gobytes \<Rightarrow> string \<Rightarrow> pgdb \<Rightarrow> (dberror + Member) option" where
  "MemberByEmail ev entityID email db =
     (if email = [] \<or> slen entityID = 0 then Some (Inl (Errorf ''invalid arguments'' None))
      else case io_err ev 0 of
        Some e \<Rightarrow> Some (Inl e)
      | None \<Rightarrow>
          (case filter_err (\<lambda>r. if sql_eq entityID (m_entity r) then email_like email (m_email r) else Some False)
                  (members db) of
             None \<Rightarrow> Some (Inl (DriverError ''LIKE pattern must not end with escape character''))
           | Some rows \<Rightarrow>
               if length rows > 1 then Some (Inl (Errorf ''duplicate email'' None))
               else (case rows of [] \<Rightarrow> None | r # _ \<Rightarrow> Some (Inr (member_of r)))))"

text \<open>
  A list of identifiers is sent as one VALUES list. The wire protocol numbers at most 65535
  parameters. What the loops over \<^verbatim>\<open>result.Next()\<close> see when the server fails the statement is an
  empty result: \<^verbatim>\<open>result.Err()\<close> is never read (round trip 1).
\<close>

definition values_err :: "env \<Rightarrow> nat \<Rightarrow> nat \<Rightarrow> dberror option" where
  "values_err ev k n = (case io_err ev k of
     Some e \<Rightarrow> Some e
   | None \<Rightarrow> if int n > 65535 then Some (DriverError ''too many parameters'') else None)"

definition Members :: "env \<Rightarrow> gobytes \<Rightarrow> uuid list \<Rightarrow> pgdb \<Rightarrow> dberror + Member list \<times> uuid list" where
  "Members ev entityID memberIDs db =
     (if slen entityID = 0 then Inl (Errorf ''invalid arguments'' None)
      else if memberIDs = [] then Inr ([], [])
      else case values_err ev 0 (length memberIDs) of
        Some e \<Rightarrow> Inl e
      | None \<Rightarrow>
          (let rows = (if io_err ev 1 = None then filter (\<lambda>r. m_id r \<in> set memberIDs) (members db) else [])
           in Inr (map member_of rows,
                   filter (\<lambda>u. u \<notin> set (map m_id rows)) (first_occurrences {} memberIDs))))"

text \<open>\<^verbatim>\<open>MembersKeys\<close> compares a \<^verbatim>\<open>uuid\<close> with a \<^verbatim>\<open>text\<close>, which the server refuses to prepare.\<close>

definition MembersKeys :: "env \<Rightarrow> gobytes \<Rightarrow> bytes list \<Rightarrow> pgdb \<Rightarrow> dberror + Member list \<times> bytes list" where
  "MembersKeys ev entityID memberKeys db =
     (if slen entityID = 0 \<or> memberKeys = [] then Inl (Errorf ''invalid arguments'' None)
      else case values_err ev 0 (length memberKeys) of
        Some e \<Rightarrow> Inl e
      | None \<Rightarrow> Inl (DriverError ''operator does not exist: uuid = text''))"

section \<open>Deletions\<close>

definition DeleteMember :: "env \<Rightarrow> gobytes \<Rightarrow> uuid option \<Rightarrow> pgdb \<Rightarrow> pgdb \<times> dberror option" where
  "DeleteMember ev entityID memberID db =
     (case memberID of
        None \<Rightarrow> (db, Some (Errorf ''memberID is nil'' None))
      | Some u \<Rightarrow>
          (case io_err ev 0 of
             Some e \<Rightarrow> (db, Some (Errorf ''error deleting member'' (Some e)))
           | None \<Rightarrow>
               (let p = (\<lambda>r. m_id r = u \<and> sql_eq entityID (m_entity r)) in
                if length (filter p (members db)) \<noteq> 1
                then (delete_members_where p db, Some (Errorf ''nothing to delete'' None))
                else (delete_members_where p db, None))))"

definition DeleteMembers :: "env \<Rightarrow> gobytes \<Rightarrow> uuid list \<Rightarrow> pgdb \<Rightarrow> pgdb \<times> (dberror + nat \<times> uuid list)" where
  "DeleteMembers ev entityID ids db =
     (if slen entityID = 0 then (db, Inl (Errorf ''invalid arguments'' None))
      else if ids = [] then (db, Inr (0, []))
      else case values_err ev 0 (length ids) of
        Some e \<Rightarrow> (db, Inl (Errorf ''error removing members'' (Some e)))
      | None \<Rightarrow>
          (let p = (\<lambda>r. io_err ev 1 = None \<and> m_entity_id r = bts entityID \<and> m_id r \<in> set ids);
               gone = map m_id (filter p (members db))
           in (delete_members_where p db,
               Inr (length gone, filter (\<lambda>u. u \<notin> set gone) (first_occurrences {} ids)))))"

definition DeleteMembersByKeys :: "env \<Rightarrow> gobytes \<Rightarrow> bytes list \<Rightarrow> pgdb \<Rightarrow> pgdb \<times> (dberror + nat \<times> bytes list)" where
  "DeleteMembersByKeys ev entityID memberKeys db =
     (if slen entityID = 0 then (db, Inl (Errorf ''invalid arguments'' None))
      else if memberKeys = [] then (db, Inr (0, []))
      else case values_err ev 0 (length memberKeys) of
        Some e \<Rightarrow> (db, Inl (Errorf ''DeleteMembersByKeys: error removing members'' (Some e)))
      | None \<Rightarrow>
          (let p = (\<lambda>r. io_err ev 1 = None \<and> m_entity_id r = bts entityID \<and>
                   (case m_public_key r of None \<Rightarrow> False | Some k \<Rightarrow> k \<in> set memberKeys));
               gone = map (\<lambda>r. hex_EncodeToString (bts (m_public_key r))) (filter p (members db));
               invalid = filter (\<lambda>k. k \<notin> set gone) (first_occurrences {} (map hex_EncodeToString memberKeys))
           in case those (map hex_DecodeString invalid) of
                None \<Rightarrow> (delete_members_where p db, Inl (Errorf ''error converting hex to string'' None))
              | Some ks \<Rightarrow> (delete_members_where p db, Inr (length gone, ks))))"

section \<open>Lists and counts\<close>

definition MemberPubKey :: "env \<Rightarrow> gobytes \<Rightarrow> gobytes \<Rightarrow> pgdb \<Rightarrow> dberror + Member" where
  "MemberPubKey ev entityID pubKey db =
     (case io_err ev 0 of
        Some e \<Rightarrow> Inl e
      | None \<Rightarrow>
          (case find (\<lambda>r. sql_eq pubKey (m_public_key r) \<and> sql_eq entityID (m_entity r)) (members db) of
             None \<Rightarrow> Inl ErrNoRows
           | Some r \<Rightarrow> Inr (ToMember (scan_member r))))"

definition MembersTokensEmails :: "env \<Rightarrow> gobytes \<Rightarrow> pgdb \<Rightarrow> dberror + Member list" where
  "MembersTokensEmails ev entityID db =
     (case io_err ev 0 of
        Some e \<Rightarrow> Inl e
      | None \<Rightarrow>
          Inr (map (\<lambda>r. ToMember \<lparr>pm_Member = zero_Member\<lparr>mb_ID := m_id r\<rparr>, pm_CustomFields = None,
                 pm_Tags = None, pm_Email = m_email r\<rparr>)
            (filter (\<lambda>r. sql_eq entityID (m_entity r) \<and> m_public_key r = None) (members db))))"

definition CountMembers :: "env \<Rightarrow> gobytes \<Rightarrow> pgdb \<Rightarrow> dberror + nat" where
  "CountMembers ev entityID db =
     (if slen entityID = 0 then Inl (Errorf ''invalid entity id'' None)
      else case io_err ev 0 of
        Some e \<Rightarrow> Inl e
      | None \<Rightarrow> Inr (length (filter (\<lambda>r. sql_eq entityID (m_entity r)) (members db))))"

text \<open>ORDER BY: insertion into the order of the column, turned around for DESC.\<close>

fun insert_by :: "('r \<Rightarrow> 'r \<Rightarrow> bool) \<Rightarrow> 'r \<Rightarrow> 'r list \<Rightarrow> 'r list" where
  "insert_by le r [] = [r]"
| "insert_by le r (x # xs) = (if le r x then r # x # xs else x # insert_by le r xs)"

definition order_by :: "('r \<Rightarrow> 'r \<Rightarrow> bool) \<Rightarrow> string \<Rightarrow> 'r list \<Rightarrow> 'r list" where
  "order_by le order rs = foldr (insert_by (if order = ''DESC'' then (\<lambda>a b. le b a) else le)) rs []"

text \<open>
  The ORDER BY column and direction that a filter selects from the fields of a struct:
  \<open>default\<close> when it names none.
\<close>

definition order_clause :: "(string \<times> string) list \<Rightarrow> string \<times> string \<Rightarrow> ListOptions option \<Rightarrow> string \<times> string" where
  "order_clause cols dflt filt =
     (case filt of
        None \<Rightarrow> dflt
      | Some f \<Rightarrow>
          if lo_SortBy f = [] then dflt
          else (case map_of cols (strings_Title (lo_SortBy f)) of
                  None \<Rightarrow> dflt
                | Some col \<Rightarrow> (col, if lo_Order f = ''descend'' then ''DESC'' else snd dflt)))"

text \<open>\<^verbatim>\<open>sql.NullInt32.Scan\<close> refuses a number that is no \<^verbatim>\<open>int32\<close>. No limit is \<open>None\<close>.\<close>

definition scan_int32 :: "int \<Rightarrow> dberror + nat" where
  "scan_int32 n = (if in_int32 n then Inr (nat n) else Inl (DriverError ''value out of range''))"

definition page_clause :: "ListOptions option \<Rightarrow> dberror + nat option \<times> nat" where
  "page_clause filt =
     (case filt of
        None \<Rightarrow> Inr (None, 0)
      | Some f \<Rightarrow>
          (case (if lo_Skip f > 0 then scan_int32 (lo_Skip f) else Inr 0) of
             Inl e \<Rightarrow> Inl e
           | Inr offset \<Rightarrow>
               (case (if lo_Count f > 0 then map_sum id Some (scan_int32 (lo_Count f)) else Inr None) of
                  Inl e \<Rightarrow> Inl e
                | Inr limit \<Rightarrow> Inr (limit, offset))))"

definition page :: "nat option \<times> nat \<Rightarrow> 'r list \<Rightarrow> 'r list" where
  "page lo rs = (case lo of (limit, offset) \<Rightarrow>
     (case limit of None \<Rightarrow> drop offset rs | Some n \<Rightarrow> take n (drop offset rs)))"

definition ListMembers :: "env \<Rightarrow> gobytes \<Rightarrow> ListOptions option \<Rightarrow> pgdb \<Rightarrow> dberror + Member list" where
  "ListMembers ev entityID filt db =
     (case map_of MemberInfo_fields (strings_Title ''lastName'') of
        None \<Rightarrow> Inl (Errorf ''lastName field not found in DB. Something is very wrong'' None)
      | Some dfltField \<Rightarrow>
          (case page_clause filt of
             Inl e \<Rightarrow> Inl e
           | Inr lo \<Rightarrow>
               (let (orderField, order) = order_clause MemberInfo_fields (dfltField, ''ASC'') filt in
                case io_err ev 0 of
                  Some e \<Rightarrow> Inl e
                | None \<Rightarrow>
                    Inr (map (\<lambda>r. ToMember (with_tags r (scan_member r)))
                      (page lo (order_by (member_le ev orderField) order
                        (filter (\<lambda>r. sql_eq entityID (m_entity r)) (members db))))))))"

definition DumpClaims :: "env \<Rightarrow> gobytes \<Rightarrow> pgdb \<Rightarrow> dberror + bytes list" where
  "DumpClaims ev entityID db =
     (case io_err ev 0 of
        Some e \<Rightarrow> Inl e
      | None \<Rightarrow> Inr (concat (map (\<lambda>m. map u_digested_public_key
          (filter (\<lambda>u. sql_eq (m_public_key m) (u_key u)) (users db)))
          (filter (\<lambda>m. sql_eq entityID (m_entity m)) (members db)))))"

section \<open>Facts\<close>

lemma DeleteMember_wf [wf_intros]: "wf_db db \<Longrightarrow> wf_db (fst (DeleteMember ev i u db))"
  by (auto simp: DeleteMember_def Let_def split: option.splits intro: wf_intros)

lemma DeleteMembers_wf [wf_intros]: "wf_db db \<Longrightarrow> wf_db (fst (DeleteMembers ev i us db))"
  by (auto simp: DeleteMembers_def Let_def split: option.splits intro: wf_intros)

lemma DeleteMembersByKeys_wf [wf_intros]: "wf_db db \<Longrightarrow> wf_db (fst (DeleteMembersByKeys ev i ks db))"
  by (auto simp: DeleteMembersByKeys_def Let_def split: option.splits intro: wf_intros)

lemma mset_insert_by [simp]: "mset (insert_by le r xs) = add_mset r (mset xs)"
  by (induction xs) auto

lemma mset_order_by [simp]: "mset (order_by le order rs) = mset rs"
  unfolding order_by_def by (induction rs) auto

lemma set_order_by [simp]: "set (order_by le order rs) = set rs"
  using mset_order_by [of le order rs] by (metis set_mset_mset)

lemma length_order_by [simp]: "length (order_by le order rs) = length rs"
  using mset_order_by [of le order rs] by (metis size_mset)

lemma sorted_foldr_insert_by:
  assumes tot: "\<And>a b. le a b \<or> le b a" and tr: "\<And>a b c. le a b \<Longrightarrow> le b c \<Longrightarrow> le a c"
  shows "sorted_wrt le (foldr (insert_by le) rs [])"
proof (induction rs)
  case Nil
  show ?case by simp
next
  case (Cons r rs)
  have "sorted_wrt le xs \<Longrightarrow> sorted_wrt le (insert_by le r xs)" for xs
  proof (induction xs)
    case Nil
    show ?case by simp
  next
    case (Cons x xs)
    have "set (insert_by le r xs) = insert r (set xs)"
      using mset_insert_by [of le r xs] by (metis set_mset_add_mset_insert set_mset_mset)
    then show ?case using Cons tot [of r x] tr [of r x] by auto
  qed
  then show ?case using Cons by simp
qed

lemma sorted_order_by:
  assumes "\<And>a b. le a b \<or> le b a" "\<And>a b c. le a b \<Longrightarrow> le b c \<Longrightarrow> le a c"
  shows "sorted_wrt (if order = ''DESC'' then (\<lambda>a b. le b a) else le) (order_by le order rs)"
  unfolding order_by_def by (rule sorted_foldr_insert_by) (use assms in \<open>auto split: if_splits\<close>)

text \<open>Consecutive pages of \<open>n\<close> rows give the whole list back.\<close>

lemma pages_concat: "0 < n \<Longrightarrow> length rs \<le> n * k \<Longrightarrow>
    concat (map (\<lambda>j. page (Some n, n * j) rs) [0..<k]) = rs"
proof -
  assume n: "0 < n" and k: "length rs \<le> n * k"
  have "concat (map (\<lambda>j. page (Some n, n * j) rs) [0..<k]) = take (n * k) rs"
    by (induction k) (auto simp: page_def take_add [symmetric] add.commute)
  then show ?thesis using k by simp
qed

lemma pages_concat_map:
  assumes "0 < n" "length rs \<le> n * k"
  shows "concat (map (\<lambda>j. map f (page (Some n, n * j) rs)) [0..<k]) = map f rs"
proof -
  have "map f rs = map f (concat (map (\<lambda>j. page (Some n, n * j) rs) [0..<k]))"
    by (simp only: pages_concat [OF assms])
  also have "\<dots> = concat (map (\<lambda>j. map f (page (Some n, n * j) rs)) [0..<k])"
    by (simp add: map_concat comp_def)
  finally show ?thesis by simp
qed

lemma page_clause_simp: "0 < c \<Longrightarrow> in_int32 c \<Longrightarrow> 0 \<le> k \<Longrightarrow> in_int32 k \<Longrightarrow>
    page_clause (Some \<lparr>lo_Count = c, lo_Order = ord, lo_Skip = k, lo_SortBy = sb\<rparr>) = Inr (Some (nat c), nat k)"
  by (auto simp: page_clause_def scan_int32_def)

lemma those_hex: "those (map hex_DecodeString (map hex_EncodeToString ks)) = Some ks"
  by (induction ks) auto

lemma first_occurrences_map_inj:
  "inj f \<Longrightarrow> first_occurrences (f ` A) (map f xs) = map f (first_occurrences A xs)"
proof (induction A xs rule: first_occurrences.induct)
  case (2 A x xs)
  have "(f x \<in> f ` A) = (x \<in> A)" using 2 by (auto simp: inj_def)
  moreover have "insert (f x) (f ` A) = f ` insert x A" by simp
  ultimately show ?case using 2 by (simp del: image_insert)
qed simp

lemma card_first_occurrences: "length (first_occurrences {} xs) = card (set xs)"
  using distinct_card [OF distinct_first_occurrences [of "{}" xs]] by (simp add: set_first_occurrences)

lemma split_count:
  assumes "distinct gone" "set gone \<subseteq> set xs"
  shows "length gone + length (filter (\<lambda>u. u \<notin> set gone) (first_occurrences {} xs)) = card (set xs)"
proof -
  let ?inv = "filter (\<lambda>u. u \<notin> set gone) (first_occurrences {} xs)"
  have "distinct (gone @ ?inv)" using assms(1) distinct_first_occurrences [of "{}" xs] by auto
  moreover have "set (gone @ ?inv) = set xs" using assms(2) by (auto simp: set_first_occurrences)
  ultimately show ?thesis using distinct_card [of "gone @ ?inv"] by simp
qed

lemma tx_add_member_Inr:
  assumes "tx_add_member ev x p tx = Inr (db', u)"
  obtains row where "member_value x (now ev) u p = Inr row" "u = fresh ev 0"
    "db' = tx\<lparr>members := members tx @ [row]\<rparr>" "m_id row = u"
proof -
  from assms have u: "u = fresh ev 0"
    and ins: "insert_member_values [member_value x (now ev) u p] tx = Inr db'"
    by (auto simp: tx_add_member_def split: option.splits sum.splits)
  from ins obtain row where "member_value x (now ev) u p = Inr row"
      "db' = tx\<lparr>members := members tx @ [row]\<rparr>"
    by (rule insert_member_values_Inr) auto
  then show ?thesis using that u
    by (auto simp: member_value_def Let_def split: option.splits if_splits)
qed

section \<open>Properties\<close>

text \<open>
  C27: a member stored with \<^verbatim>\<open>AddMember\<close> is read back by \<^verbatim>\<open>Member\<close> under the identifier that was
  returned, with its key and its personal data; but the consent, the origin, the custom fields and
  the tags that were given are not: the first, second and fourth are not in the INSERT, the third
  is lost in the conversion of \<^verbatim>\<open>ToMember\<close>.
\<close>

theorem AddMember_then_Member:
  assumes "wf_db db" and "AddMember ev x entityID pubKey info db = Some (db', Inr u)" and "no_faults ev'"
  shows "Member ev' entityID (Some u) db' = Inr (zero_Member\<lparr>mb_ID := u, mb_EntityID := entityID,
      mb_PubKey := pubKey, mb_Info := info\<lparr>mi_Consented := False, mi_Origin := Token,
        mi_CustomFields := None, mi_Tags := Some []\<rparr>\<rparr>) \<and>
    u \<notin> set (member_ids db)"
proof -
  from assms(2) obtain p where tx: "tx_add_member ev x p (with_user ev pubKey db) = Inr (db', u)"
    and p: "ToPGMember x (zero_Member\<lparr>mb_EntityID := entityID, mb_PubKey := pubKey, mb_Info := info\<rparr>) = Inr p"
    by (rule AddMember_Inr)
  from tx obtain row where v: "member_value x (now ev) u p = Inr row" and u: "m_id row = u"
    and db': "db' = (with_user ev pubKey db)\<lparr>members := members db @ [row]\<rparr>"
    by (rule tx_add_member_Inr) auto
  have row: "Some (m_entity_id row) = entityID"
    "member_of row = zero_Member\<lparr>mb_ID := u, mb_EntityID := entityID, mb_PubKey := pubKey,
      mb_Info := info\<lparr>mi_Consented := False, mi_Origin := Token, mi_CustomFields := None, mi_Tags := Some []\<rparr>\<rparr>"
    using v unfolding member_value_def Let_def ToPGMember_Inr [OF p]
    by (cases info; force simp: member_of_def ToMember_def with_consented_def with_tags_def scan_member_def
        zero_Member_def zero_MemberInfo_def split: option.splits if_splits)+
  have "wf_db db'" using AddMember_wf [OF assms(2,1)] .
  then have nu: "u \<notin> set (member_ids db)"
    using u db' by (auto simp: wf_db_def wf_members_def clash_def m_key_def list_ex_iff)
  then have "find (\<lambda>r. m_id r = u \<and> sql_eq entityID (m_entity r)) (members db) = None"
    by (auto simp: find_None_iff)
  then have "find (\<lambda>r. m_id r = u \<and> sql_eq entityID (m_entity r)) (members db') = Some row"
    using u row(1) by (simp add: db' find_append_new m_entity_def)
  then show ?thesis using assms(3) row(2) nu by (simp add: Member_def)
qed

theorem AddMember_then_Member_witness:
  "Member (quiet 2) (Some [7]) (Some 1001) (fst (the (AddMember (quiet 1) demo_ext (Some [7]) (Some [1, 1])
      (zero_MemberInfo\<lparr>mi_FirstName := ''Ann'', mi_CustomFields := Some [123, 125]\<rparr>) demo_db))) =
   Inr (zero_Member\<lparr>mb_ID := 1001, mb_EntityID := Some [7], mb_PubKey := Some [1, 1],
      mb_Info := zero_MemberInfo\<lparr>mi_FirstName := ''Ann'', mi_Tags := Some []\<rparr>\<rparr>)"
proof -
  let ?info = "zero_MemberInfo\<lparr>mi_FirstName := ''Ann'', mi_CustomFields := Some [123, 125]\<rparr>"
  have "map_option snd (AddMember (quiet 1) demo_ext (Some [7]) (Some [1, 1]) ?info demo_db) = Some (Inr 1001)"
    by code_simp
  then obtain db' where a: "AddMember (quiet 1) demo_ext (Some [7]) (Some [1, 1]) ?info demo_db = Some (db', Inr 1001)"
    by auto
  from AddMember_then_Member [OF wf_demo_db a no_faults_quiet [of 2]] a show ?thesis
    by (simp add: zero_MemberInfo_def)
qed

text \<open>
  C28: \<^verbatim>\<open>DeleteMembers\<close> removes exactly the members of the entity whose identifiers are listed, and
  its counts satisfy the equation of its comment: the number of removed members, the identifiers
  reported as invalid and the duplicates of the list add up to the length of the list.
\<close>

theorem DeleteMembers_counts:
  assumes "wf_db db" and "DeleteMembers ev (Some i) ids db = (db', Inr (updated, invalid))" and "no_faults ev"
  shows "members db' = filter (\<lambda>r. \<not> (m_entity_id r = i \<and> m_id r \<in> set ids)) (members db) \<and>
    length ids = updated + length invalid + (length ids - card (set ids)) \<and>
    length (members db') + updated = length (members db) \<and>
    set invalid = {u \<in> set ids. \<not> (\<exists>r\<in>set (members db). m_id r = u \<and> m_entity_id r = i)} \<and> distinct invalid"
proof -
  let ?p = "\<lambda>r. m_entity_id r = i \<and> m_id r \<in> set ids"
  let ?gone = "map m_id (filter ?p (members db))"
  have r: "members db' = filter (\<lambda>r. \<not> ?p r) (members db)" "updated = length ?gone"
    "invalid = filter (\<lambda>u. u \<notin> set ?gone) (first_occurrences {} ids)"
    using assms(2,3) by (auto simp: DeleteMembers_def Let_def delete_members_where_def bts_def
        split: option.splits if_splits)
  have "distinct (map m_id (members db))" using assms(1) by (simp add: wf_db_def wf_members_def uniq_map_m_id)
  then have d: "distinct ?gone" by (rule distinct_map_filter)
  have "updated + length invalid = card (set ids)"
    using split_count [OF d, of ids] r(2,3) by auto
  moreover have "card (set ids) \<le> length ids" by (rule card_length)
  moreover have "length (members db') + updated = length (members db)"
    using sum_length_filter_compl [of ?p "members db"] r(1,2) by simp
  moreover have "set invalid = {u \<in> set ids. \<not> (\<exists>r\<in>set (members db). m_id r = u \<and> m_entity_id r = i)}"
    using r(3) by (auto simp: set_first_occurrences)
  moreover have "distinct invalid" using r(3) by (simp add: distinct_first_occurrences)
  ultimately show ?thesis using r(1) by simp
qed

theorem DeleteMembers_counts_witness:
  "length (members (fst (DeleteMembers (quiet 1) (Some [7]) [1, 3, 1] demo_db))) + 1 = length (members demo_db)"
proof -
  have "snd (DeleteMembers (quiet 1) (Some [7]) [1, 3, 1] demo_db) = Inr (1, [3])" by code_simp
  then have "DeleteMembers (quiet 1) (Some [7]) [1, 3, 1] demo_db =
      (fst (DeleteMembers (quiet 1) (Some [7]) [1, 3, 1] demo_db), Inr (1, [3]))"
    by (metis prod.collapse)
  from DeleteMembers_counts [OF wf_demo_db this no_faults_quiet] show ?thesis by blast
qed

text \<open>
  \<^verbatim>\<open>DeleteMembersByKeys\<close> never fails on its own conversion of the keys, and its counts satisfy
  the same equation: a key of a member of the entity is removed, any other key is reported once.
\<close>

lemma DeleteMembersByKeys_counts:
  assumes "wf_db db" and "no_faults ev" and "i \<noteq> []" and "ks \<noteq> []" and "length ks \<le> 65535"
  shows "\<exists>db' updated invalid. DeleteMembersByKeys ev (Some i) ks db = (db', Inr (updated, invalid)) \<and>
    updated + length invalid = card (set ks) \<and> distinct invalid \<and>
    set invalid = {k \<in> set ks. \<not> (\<exists>r\<in>set (members db). m_public_key r = Some k \<and> m_entity_id r = i)} \<and>
    members db' = filter (\<lambda>r. \<not> (m_entity_id r = i \<and> bts (m_public_key r) \<in> set ks \<and> m_public_key r \<noteq> None)) (members db)"
proof -
  let ?p = "\<lambda>r. m_entity_id r = i \<and> (case m_public_key r of None \<Rightarrow> False | Some k \<Rightarrow> k \<in> set ks)"
  let ?gone = "map (\<lambda>r. bts (m_public_key r)) (filter ?p (members db))"
  let ?inv = "filter (\<lambda>k. k \<notin> set ?gone) (first_occurrences {} ks)"
  have p: "(\<lambda>r. io_err ev 1 = None \<and> m_entity_id r = bts (Some i) \<and>
      (case m_public_key r of None \<Rightarrow> False | Some k \<Rightarrow> k \<in> set ks)) = ?p"
    using assms(2) by (simp add: bts_def [of "Some i"])
  have h: "map (\<lambda>r. hex_EncodeToString (bts (m_public_key r))) (filter ?p (members db)) = map hex_EncodeToString ?gone"
    by simp
  have fo: "first_occurrences {} (map hex_EncodeToString ks) = map hex_EncodeToString (first_occurrences {} ks)"
    using first_occurrences_map_inj [of hex_EncodeToString "{}" ks] inj_hex_encode by simp
  have inv: "filter (\<lambda>k. k \<notin> set (map hex_EncodeToString ?gone)) (map hex_EncodeToString (first_occurrences {} ks)) =
      map hex_EncodeToString ?inv"
    by (simp add: filter_map comp_def image_iff)
  have "DeleteMembersByKeys ev (Some i) ks db = (delete_members_where ?p db, Inr (length ?gone, ?inv))"
    using assms(2-5) unfolding DeleteMembersByKeys_def Let_def p h fo inv those_hex
    by (simp add: slen_def bts_def [of "Some i"] values_err_def)
  moreover have "distinct ?gone"
    by (rule uniq_distinct_map [of m_entity_pubkey _ _ "Pair i"])
      (use assms(1) in \<open>auto simp: wf_db_def wf_members_def m_entity_pubkey_def bts_def split: option.splits\<close>)
  moreover have "set ?gone \<subseteq> set ks" by (auto simp: bts_def split: option.splits)
  ultimately have "DeleteMembersByKeys ev (Some i) ks db = (delete_members_where ?p db, Inr (length ?gone, ?inv))"
    "length ?gone + length ?inv = card (set ks)"
    using split_count [of ?gone ks] by auto
  moreover have "distinct ?inv" by (simp add: distinct_first_occurrences)
  moreover have "set ?inv = {k \<in> set ks. \<not> (\<exists>r\<in>set (members db). m_public_key r = Some k \<and> m_entity_id r = i)}"
    by (force simp: set_first_occurrences bts_def split: option.splits)
  moreover have "members (delete_members_where ?p db) =
      filter (\<lambda>r. \<not> (m_entity_id r = i \<and> bts (m_public_key r) \<in> set ks \<and> m_public_key r \<noteq> None)) (members db)"
    by (auto simp: delete_members_where_def Let_def bts_def intro!: filter_cong split: option.splits)
  ultimately show ?thesis by blast
qed



text \<open>
  C30: whatever text a caller sends as sort field and order, the ORDER BY clause that \<^verbatim>\<open>ListMembers\<close>
  pastes into the query is a column of \<^verbatim>\<open>types.MemberInfo\<close> followed by ASC or DESC.
\<close>

theorem ListMembers_order_clause_safe:
  "case order_clause MemberInfo_fields (''last_name'', ''ASC'') filt of
     (col, dir) \<Rightarrow> col \<in> set (map snd MemberInfo_fields) \<and> dir \<in> set [''ASC'', ''DESC'']"
proof -
  have "''last_name'' \<in> set (map snd MemberInfo_fields)" by code_simp
  moreover have "map_of MemberInfo_fields f = Some c \<Longrightarrow> c \<in> set (map snd MemberInfo_fields)" for f c
    by (force dest: map_of_SomeD)
  ultimately show ?thesis by (auto simp: order_clause_def split: option.split)
qed

text \<open>
  \<^verbatim>\<open>MemberByEmail\<close> panics when no member of the entity has a matching e-mail: it takes the first
  row of an empty result.
\<close>

lemma MemberByEmail_panics:
  assumes "no_faults ev" and "i \<noteq> []" and "email \<noteq> []"
    and "\<forall>r\<in>set (members db). m_entity_id r = i \<longrightarrow> m_email r = None"
  shows "MemberByEmail ev (Some i) email db = None"
proof -
  have "filter_err (\<lambda>r. if sql_eq (Some i) (m_entity r) then email_like email (m_email r) else Some False) rs = Some []"
    if "\<forall>r\<in>set rs. m_entity_id r = i \<longrightarrow> m_email r = None" for rs
    using that by (induction rs) (auto simp: email_like_def m_entity_def)
  then show ?thesis using assms by (simp add: MemberByEmail_def slen_def bts_def)
qed

end
