(* ===== verification/PgTags.thy ===== *)
theory PgTags
  imports PgQueries
begin

text \<open>
  The tag methods of \<^verbatim>\<open>database/pgsql/pgsql.go\<close>: tags belong to an entity and are attached to its
  members as numbers in the array column \<^verbatim>\<open>members.tags\<close>.
\<close>

section \<open>Tags of an entity\<close>

text \<open>
  The INSERT of \<^verbatim>\<open>AddTag\<close>: the number is drawn from the sequence before the row is tested, so a
  refused row uses one up; the sequence of a SERIAL column ends at the largest \<^verbatim>\<open>integer\<close>.
\<close>

definition insert_tag :: "gotime \<Rightarrow> gobytes \<Rightarrow> string \<Rightarrow> pgdb \<Rightarrow> pgdb \<times> int option" where
  "insert_tag t entityID tagName db =
     (if tags_seq db > 2147483647 then (db, None)
      else (let i = tags_seq db; db1 = db\<lparr>tags_seq := i + 1\<rparr> in
            case entityID of
              None \<Rightarrow> (db1, None)
            | Some e \<Rightarrow>
                (case insert_tags [\<lparr>g_updated_at = t, g_created_at = t, g_id = i, g_name = tagName,
                         g_entity_id = e\<rparr>] db1 of
                   Inl _ \<Rightarrow> (db1, None)
                 | Inr db2 \<Rightarrow> (db2, Some i))))"

text \<open>The result with the new number is neither closed nor read to its end.\<close>

definition AddTag :: "env \<Rightarrow> gobytes \<Rightarrow> string \<Rightarrow> pgdb \<Rightarrow> pgdb \<times> (dberror + int)" where
  "AddTag ev entityID tagName db =
     (if tagName = [] then (db, Inl (Errorf ''invalid tag name'' None))
      else case io_err ev 0 of
        Some e \<Rightarrow> (db, Inl (Errorf ''error inserting tag'' (Some e)))
      | None \<Rightarrow>
          (case insert_tag (now ev) entityID tagName db of
             (db', None) \<Rightarrow> (db', Inl (Errorf ''error inserting tag'' None))
           | (db', Some i) \<Rightarrow>
               (case io_err ev 1 of
                  Some e \<Rightarrow> (leak db', Inl (Errorf ''error inserting tag'' (Some e)))
                | None \<Rightarrow> (leak db', Inr i))))"

text \<open>The queries select the number and the name of a tag.\<close>

definition scan_tag :: "tag_row \<Rightarrow> Tag" where
  "scan_tag r = \<lparr>ta_ID = g_id r, ta_EntityID = None, ta_Name = g_name r\<rparr>"

definition ListTags :: "env \<Rightarrow> gobytes \<Rightarrow> pgdb \<Rightarrow> dberror + Tag list" where
  "ListTags ev entityID db =
     (if slen entityID = 0 then Inl (Errorf ''invalid entity ID'' None)
      else case io_err ev 0 of
        Some e \<Rightarrow> Inl e
      | None \<Rightarrow> Inr (map scan_tag (filter (\<lambda>r. sql_eq entityID (g_entity r)) (tags db))))"

definition Tag :: "env \<Rightarrow> gobytes \<Rightarrow> int \<Rightarrow> pgdb \<Rightarrow> dberror + Tag" where
  "Tag ev entityID tagID db =
     (if slen entityID = 0 \<or> tagID = 0 then Inl (Errorf ''invalid arguments'' None)
      else case io_err ev 0 of
        Some e \<Rightarrow> Inl e
      | None \<Rightarrow>
          (case find (\<lambda>r. sql_eq entityID (g_entity r) \<and> g_id r = tagID) (tags db) of
             None \<Rightarrow> Inl ErrNoRows
           | Some r \<Rightarrow> Inr (scan_tag r)))"

definition TagByName :: "env \<Rightarrow> gobytes \<Rightarrow> string \<Rightarrow> pgdb \<Rightarrow> dberror + Tag" where
  "TagByName ev entityID tagName db =
     (if slen entityID = 0 \<or> tagName = [] then Inl (Errorf ''invalid arguments'' None)
      else case io_err ev 0 of
        Some e \<Rightarrow> Inl e
      | None \<Rightarrow>
          (case find (\<lambda>r. sql_eq entityID (g_entity r) \<and> g_name r = tagName) (tags db) of
             None \<Rightarrow> Inl ErrNoRows
           | Some r \<Rightarrow> Inr (scan_tag r)))"

text \<open>\<^verbatim>\<open>DeleteTag\<close>: a failure of one of the two statements returns with the transaction open.\<close>

definition delete_tag_rows :: "bytes \<Rightarrow> int \<Rightarrow> pgdb \<Rightarrow> pgdb" where
  "delete_tag_rows i tagID db =
     (let db1 = update_members (\<lambda>r. m_entity_id r = i \<and> tagID \<in> set (m_tags r))
                  (\<lambda>r. r\<lparr>m_tags := removeAll tagID (m_tags r)\<rparr>) db
      in db1\<lparr>tags := filter (\<lambda>r. \<not> (g_id r = tagID \<and> g_entity_id r = i)) (tags db1)\<rparr>)"

definition DeleteTag :: "env \<Rightarrow> gobytes \<Rightarrow> int \<Rightarrow> pgdb \<Rightarrow> pgdb \<times> dberror option" where
  "DeleteTag ev entityID tagID db =
     (if slen entityID = 0 then (db, Some (Errorf ''invalid entity ID'' None))
      else case Tag ev entityID tagID db of
        Inl ErrNoRows \<Rightarrow> (db, Some (Errorf ''removing not existing tag'' None))
      | Inl e \<Rightarrow> (db, Some (Errorf ''DeleteTag: error retrieving tag'' (Some e)))
      | Inr _ \<Rightarrow>
          (case io_err ev 1 of
             Some e \<Rightarrow> (db, Some (Errorf ''cannot initialize postgres transaction'' (Some e)))
           | None \<Rightarrow>
               (case io_err ev 2 of
                  Some e \<Rightarrow> (leak db, Some (Errorf ''DeleteTag: error adding  tag to members'' (Some e)))
                | None \<Rightarrow>
                    (case io_err ev 3 of
                       Some e \<Rightarrow> (leak db, Some (Errorf ''DeleteTag: error deleting tags for entity'' (Some e)))
                     | None \<Rightarrow>
                         (case io_err ev 4 of
                            Some e \<Rightarrow> (db, Some (Errorf ''something is very wrong: error rolling back on deleting tag'' (Some e)))
                          | None \<Rightarrow> (delete_tag_rows (bts entityID) tagID db, None))))))"

section \<open>Tags of members\<close>

text \<open>
  The UPDATE with a VALUES list that both methods send, on the members that \<open>p\<close> selects: the
  number of rows returned and the identifiers of the list that are not among them.
\<close>

definition tag_members_stmt :: "env \<Rightarrow> (member_row \<Rightarrow> bool) \<Rightarrow> (member_row \<Rightarrow> member_row) \<Rightarrow> uuid list \<Rightarrow> pgdb \<Rightarrow>
    pgdb \<times> nat \<times> uuid list" where
  "tag_members_stmt ev p g ids db =
     (let q = (\<lambda>r. io_err ev 2 = None \<and> m_id r \<in> set ids \<and> p r);
          done = map m_id (filter q (members db))
      in (update_members q g db, length done, filter (\<lambda>u. u \<notin> set done) (first_occurrences {} ids)))"

definition AddTagToMembers :: "env \<Rightarrow> gobytes \<Rightarrow> uuid list \<Rightarrow> int \<Rightarrow> pgdb \<Rightarrow> pgdb \<times> (dberror + nat \<times> uuid list)" where
  "AddTagToMembers ev entityID ids tagID db =
     (if slen entityID = 0 then (db, Inl (Errorf ''invalid arguments'' None))
      else if ids = [] then (db, Inr (0, []))
      else case Tag ev entityID tagID db of
        Inl ErrNoRows \<Rightarrow> (db, Inl (Errorf ''trying to add not existing tag'' None))
      | Inl e \<Rightarrow> (db, Inl (Errorf ''error retrieving tag'' (Some e)))
      | Inr _ \<Rightarrow>
          (case values_err ev 1 (2 * length ids) of
             Some e \<Rightarrow> (db, Inl (Errorf ''error adding  tag  to members'' (Some e)))
           | None \<Rightarrow>
               (case tag_members_stmt ev (\<lambda>r. m_entity_id r = bts entityID \<and> tagID \<notin> set (m_tags r))
                       (\<lambda>r. r\<lparr>m_tags := m_tags r @ [tagID]\<rparr>) ids db of
                  (db', res) \<Rightarrow> (db', Inr res))))"

definition RemoveTagFromMembers :: "env \<Rightarrow> gobytes \<Rightarrow> uuid list \<Rightarrow> int \<Rightarrow> pgdb \<Rightarrow> pgdb \<times> (dberror + nat \<times> uuid list)" where
  "RemoveTagFromMembers ev entityID ids tagID db =
     (if slen entityID = 0 then (db, Inl (Errorf ''invalid arguments'' None))
      else if ids = [] then (db, Inr (0, []))
      else case Tag ev entityID tagID db of
        Inl ErrNoRows \<Rightarrow> (db, Inl (Errorf ''non-existing tag'' None))
      | Inl e \<Rightarrow> (db, Inl (Errorf ''RemoveTagFromMembers: error retrieving tag'' (Some e)))
      | Inr tag \<Rightarrow>
          (case values_err ev 1 (2 * length ids) of
             Some e \<Rightarrow> (db, Inl (Errorf ''error removing  tag  to members'' (Some e)))
           | None \<Rightarrow>
               (case tag_members_stmt ev (\<lambda>r. m_entity_id r = bts entityID \<and> ta_ID tag \<in> set (m_tags r))
                       (\<lambda>r. r\<lparr>m_tags := removeAll tagID (m_tags r)\<rparr>) ids db of
                  (db', res) \<Rightarrow> (db', Inr res))))"

section \<open>Facts\<close>

lemma insert_tag_Some:
  assumes "insert_tag t entityID name db = (db', Some i)"
  obtains e where "entityID = Some e" "i = tags_seq db" "i \<le> 2147483647"
    "db' = db\<lparr>tags_seq := i + 1, tags := tags db @ [\<lparr>g_updated_at = t, g_created_at = t, g_id = i, g_name = name, g_entity_id = e\<rparr>]\<rparr>"
    "tag_uq \<lparr>g_updated_at = t, g_created_at = t, g_id = i, g_name = name, g_entity_id = e\<rparr> db = None"
    "tag_fk \<lparr>g_updated_at = t, g_created_at = t, g_id = i, g_name = name, g_entity_id = e\<rparr> db = None"
  using assms
  by (auto simp: insert_tag_def Let_def insert_tags_def ins_tag.insert_stmt_one tag_add_def tag_uq_def tag_fk_def
      split: if_splits option.splits sum.splits)

lemma wf_tags_seq: "wf_db db \<Longrightarrow> tags_seq db \<le> 2147483647 \<Longrightarrow> wf_db (db\<lparr>tags_seq := tags_seq db + 1\<rparr>)"
  by (auto simp: wf_db_def wf_parts list_all_iff)

lemma insert_tag_wf: "wf_db db \<Longrightarrow> wf_db (fst (insert_tag t entityID name db))"
proof -
  assume wf: "wf_db db"
  have "1 \<le> tags_seq db" using wf by (simp add: wf_db_def wf_tags_def)
  then show ?thesis using wf wf_tags_seq [OF wf]
    by (auto simp: insert_tag_def Let_def insert_tags_def ins_tag.insert_stmt_one intro!: tag_add_wf
        split: option.splits sum.splits)
qed

lemma AddTag_wf [wf_intros]: "wf_db db \<Longrightarrow> wf_db (fst (AddTag ev i name db))"
  using insert_tag_wf [of db "now ev" i name]
  by (auto simp: AddTag_def split: option.splits prod.splits)

lemma delete_tag_rows_wf [wf_intros]: "wf_db db \<Longrightarrow> wf_db (delete_tag_rows i t db)"
proof -
  assume "wf_db db"
  then have "wf_db (update_members (\<lambda>r. m_entity_id r = i \<and> t \<in> set (m_tags r))
      (\<lambda>r. r\<lparr>m_tags := removeAll t (m_tags r)\<rparr>) db)" (is "wf_db ?u")
    by (rule update_members_keys_wf) simp_all
  then show ?thesis
    by (auto simp: delete_tag_rows_def Let_def wf_db_def wf_parts uniq_filter refs_filter list_all_iff)
qed

lemma DeleteTag_wf [wf_intros]: "wf_db db \<Longrightarrow> wf_db (fst (DeleteTag ev i t db))"
  by (auto simp: DeleteTag_def split: option.splits sum.splits dberror.splits intro: wf_intros)

lemma AddTagToMembers_wf [wf_intros]: "wf_db db \<Longrightarrow> wf_db (fst (AddTagToMembers ev i ids t db))"
  by (auto simp: AddTagToMembers_def tag_members_stmt_def Let_def split: option.splits sum.splits dberror.splits prod.splits
      intro!: update_members_keys_wf)

lemma RemoveTagFromMembers_wf [wf_intros]: "wf_db db \<Longrightarrow> wf_db (fst (RemoveTagFromMembers ev i ids t db))"
  by (auto simp: RemoveTagFromMembers_def tag_members_stmt_def Let_def split: option.splits sum.splits dberror.splits prod.splits
      intro!: update_members_keys_wf)

lemma Tag_Inr:
  "Tag ev (Some i) t db = Inr tag \<Longrightarrow> ta_ID tag = t \<and> t \<noteq> 0 \<and>
   (\<exists>r\<in>set (tags db). g_id r = t \<and> g_entity_id r = i \<and> g_name r = ta_Name tag)"
  by (auto simp: Tag_def scan_tag_def g_entity_def split: option.splits if_splits dest!: find_Some_mem)

text \<open>What the common statement of the two methods does, counts included.\<close>

lemma tag_members_stmt_quiet:
  assumes "wf_db db" "no_faults ev" "tag_members_stmt ev p g ids db = (db', n, invalid)"
  shows "db' = update_members (\<lambda>r. m_id r \<in> set ids \<and> p r) g db" "n + length invalid = card (set ids)"
    "set invalid = {u \<in> set ids. \<not> (\<exists>r\<in>set (members db). m_id r = u \<and> p r)}"
proof -
  let ?done = "map m_id (filter (\<lambda>r. m_id r \<in> set ids \<and> p r) (members db))"
  have r: "db' = update_members (\<lambda>r. m_id r \<in> set ids \<and> p r) g db" "n = length ?done"
    "invalid = filter (\<lambda>u. u \<notin> set ?done) (first_occurrences {} ids)"
    using assms(2,3) by (auto simp: tag_members_stmt_def Let_def)
  show "db' = update_members (\<lambda>r. m_id r \<in> set ids \<and> p r) g db" by (rule r(1))
  have "distinct (map m_id (members db))" using assms(1) by (simp add: wf_db_def wf_members_def uniq_map_m_id)
  then have "distinct ?done" by (rule distinct_map_filter)
  then show "n + length invalid = card (set ids)" using split_count [of ?done ids] r(2,3) by auto
  show "set invalid = {u \<in> set ids. \<not> (\<exists>r\<in>set (members db). m_id r = u \<and> p r)}"
    using r(3) by (auto simp: set_first_occurrences)
qed

lemma AddTagToMembers_Inr:
  assumes "AddTagToMembers ev (Some i) ids t db = (db', Inr (n, invalid))" "ids \<noteq> []"
  shows "tag_members_stmt ev (\<lambda>r. m_entity_id r = i \<and> t \<notin> set (m_tags r))
      (\<lambda>r. r\<lparr>m_tags := m_tags r @ [t]\<rparr>) ids db = (db', n, invalid)"
  using assms by (auto simp: AddTagToMembers_def bts_def
      split: if_splits sum.splits dberror.splits option.splits prod.splits)

lemma RemoveTagFromMembers_Inr:
  assumes "RemoveTagFromMembers ev (Some i) ids t db = (db', Inr (n, invalid))" "ids \<noteq> []"
  shows "tag_members_stmt ev (\<lambda>r. m_entity_id r = i \<and> t \<in> set (m_tags r))
      (\<lambda>r. r\<lparr>m_tags := removeAll t (m_tags r)\<rparr>) ids db = (db', n, invalid)"
  using assms by (auto simp: RemoveTagFromMembers_def bts_def
      split: if_splits sum.splits dberror.splits option.splits prod.splits dest!: Tag_Inr)

section \<open>Properties\<close>

text \<open>
  C31: the number that \<^verbatim>\<open>AddTag\<close> returns was unused and fits an \<^verbatim>\<open>int32\<close>; \<^verbatim>\<open>Tag\<close> and
  \<^verbatim>\<open>TagByName\<close> find the tag under its number and its name, for that entity only.
\<close>

theorem AddTag_then_Tag:
  assumes "wf_db db" and "AddTag ev (Some i) name db = (db', Inr t)" and "no_faults ev'" and "i \<noteq> []"
  shows "0 < t \<and> in_int32 t \<and> (\<forall>r\<in>set (tags db). g_id r \<noteq> t) \<and>
    Tag ev' (Some i) t db' = Inr \<lparr>ta_ID = t, ta_EntityID = None, ta_Name = name\<rparr> \<and>
    TagByName ev' (Some i) name db' = Inr \<lparr>ta_ID = t, ta_EntityID = None, ta_Name = name\<rparr> \<and>
    (\<forall>j. j \<noteq> i \<longrightarrow> j \<noteq> [] \<longrightarrow> Tag ev' (Some j) t db' = Inl ErrNoRows)"
proof -
  from assms(2) obtain db1 where ins: "insert_tag (now ev) (Some i) name db = (db1, Some t)"
    and db1: "db' = leak db1" and nm: "name \<noteq> []"
    by (auto simp: AddTag_def split: if_splits option.splits prod.splits)
  let ?r = "\<lparr>g_updated_at = now ev, g_created_at = now ev, g_id = t, g_name = name, g_entity_id = i\<rparr>"
  from ins have t: "t = tags_seq db" "t \<le> 2147483647" and tg: "tags db' = tags db @ [?r]"
    and uq: "tag_uq ?r db = None"
    by (auto elim!: insert_tag_Some simp: db1)
  have seq: "1 \<le> t" "\<forall>r\<in>set (tags db). g_id r < t"
    using assms(1) t(1) by (auto simp: wf_db_def wf_tags_def list_all_iff)
  then have new: "\<forall>r\<in>set (tags db). g_id r \<noteq> t" by auto
  have nn: "\<forall>r\<in>set (tags db). \<not> (g_entity_id r = i \<and> g_name r = name)"
    using uq by (auto simp: tag_uq_def clash_def g_name_entity_def list_ex_iff)
  have "find (\<lambda>r. sql_eq (Some j) (g_entity r) \<and> g_id r = t) (tags db) = None" for j
    using new by (auto simp: find_None_iff)
  then have f: "find (\<lambda>r. sql_eq (Some j) (g_entity r) \<and> g_id r = t) (tags db') = (if j = i then Some ?r else None)" for j
    by (simp add: tg find_append_new g_entity_def)
  have "find (\<lambda>r. sql_eq (Some i) (g_entity r) \<and> g_name r = name) (tags db) = None"
    using nn by (auto simp: find_None_iff g_entity_def)
  then have n: "find (\<lambda>r. sql_eq (Some i) (g_entity r) \<and> g_name r = name) (tags db') = Some ?r"
    by (simp add: tg find_append_new g_entity_def)
  show ?thesis
    using assms(3,4) nm new seq(1) t(2)
    by (simp add: Tag_def TagByName_def f n scan_tag_def slen_def bts_def in_int32_def)
qed

theorem AddTag_then_Tag_witness:
  "Tag (quiet 2) (Some [7]) 2 (fst (AddTag (quiet 1) (Some [7]) ''new'' demo_db)) =
   Inr \<lparr>ta_ID = 2, ta_EntityID = None, ta_Name = ''new''\<rparr>"
proof -
  have "snd (AddTag (quiet 1) (Some [7]) ''new'' demo_db) = Inr 2" by code_simp
  then have "AddTag (quiet 1) (Some [7]) ''new'' demo_db =
      (fst (AddTag (quiet 1) (Some [7]) ''new'' demo_db), Inr 2)"
    by (metis prod.collapse)
  from AddTag_then_Tag [OF wf_demo_db this no_faults_quiet [of 2]] show ?thesis by simp
qed

text \<open>
  C32: \<^verbatim>\<open>AddTagToMembers\<close> tags exactly the listed members of the entity that do not have the tag yet
  and touches no other member; its count and the reported identifiers (unknown, of another entity
  or already tagged) add up to the distinct identifiers of the list.
\<close>

theorem AddTagToMembers_effect:
  assumes "wf_db db" and "no_faults ev" and "AddTagToMembers ev (Some i) ids t db = (db', Inr (n, invalid))"
  shows "members db' = map (\<lambda>r. if m_id r \<in> set ids \<and> m_entity_id r = i \<and> t \<notin> set (m_tags r)
      then r\<lparr>m_tags := m_tags r @ [t]\<rparr> else r) (members db) \<and>
    n + length invalid = card (set ids) \<and>
    set invalid = {u \<in> set ids. \<not> (\<exists>r\<in>set (members db). m_id r = u \<and> m_entity_id r = i \<and> t \<notin> set (m_tags r))}"
proof (cases "ids = []")
  case True
  then show ?thesis using assms(3) by (auto simp: AddTagToMembers_def split: if_splits)
next
  case False
  note S = tag_members_stmt_quiet [OF assms(1,2) AddTagToMembers_Inr [OF assms(3) False]]
  show ?thesis using S by (simp add: update_members_def)
qed

theorem AddTagToMembers_effect_witness:
  "(\<exists>db' n invalid. AddTagToMembers (quiet 1) (Some [7]) [1, 2, 3] 1 demo_db = (db', Inr (n, invalid)) \<and>
     n + length invalid = card (set [1, 2, 3 :: uuid]))"
proof -
  have "snd (AddTagToMembers (quiet 1) (Some [7]) [1, 2, 3] 1 demo_db) = Inr (1, [1, 3])" by code_simp
  then have "AddTagToMembers (quiet 1) (Some [7]) [1, 2, 3] 1 demo_db =
      (fst (AddTagToMembers (quiet 1) (Some [7]) [1, 2, 3] 1 demo_db), Inr (1, [1, 3]))"
    by (metis prod.collapse)
  with AddTagToMembers_effect [OF wf_demo_db no_faults_quiet this] show ?thesis by blast
qed

text \<open>
  Removing a tag from the members it was just added to restores the members table, when none
  of them had the tag before.
\<close>

lemma AddTag_RemoveTag_roundtrip:
  assumes "wf_db db" and "no_faults ev" "no_faults ev'"
    and "AddTagToMembers ev (Some i) ids t db = (db1, Inr r1)"
    and "RemoveTagFromMembers ev' (Some i) ids t db1 = (db2, Inr r2)"
    and "\<forall>r\<in>set (members db). m_entity_id r = i \<and> m_id r \<in> set ids \<longrightarrow> t \<notin> set (m_tags r)"
  shows "members db2 = members db"
proof (cases "ids = []")
  case True
  then show ?thesis using assms(4,5) by (auto simp: AddTagToMembers_def RemoveTagFromMembers_def split: if_splits)
next
  case False
  obtain n inv k inv' where r: "r1 = (n, inv)" "r2 = (k, inv')" by fastforce
  have wf1: "wf_db db1" using AddTagToMembers_wf [OF assms(1), of ev "Some i" ids t] assms(4) by simp
  have m1: "members db1 = map (\<lambda>r. if m_id r \<in> set ids \<and> m_entity_id r = i \<and> t \<notin> set (m_tags r)
      then r\<lparr>m_tags := m_tags r @ [t]\<rparr> else r) (members db)"
    using tag_members_stmt_quiet(1) [OF assms(1,2) AddTagToMembers_Inr [OF assms(4) [unfolded r] False]]
    by (simp add: update_members_def)
  have m2: "members db2 = map (\<lambda>r. if m_id r \<in> set ids \<and> m_entity_id r = i \<and> t \<in> set (m_tags r)
      then r\<lparr>m_tags := removeAll t (m_tags r)\<rparr> else r) (members db1)"
    using tag_members_stmt_quiet(1) [OF wf1 assms(3) RemoveTagFromMembers_Inr [OF assms(5) [unfolded r] False]]
    by (simp add: update_members_def)
  show ?thesis using assms(6) by (auto simp: m1 m2 intro!: map_idI)
qed



end
