(* ===== verification/PgCensus.thy ===== *)
theory PgCensus
  imports PgTags
begin

text \<open>
  The methods of \<^verbatim>\<open>database/pgsql/pgsql.go\<close> on targets, censuses and census members: a census is
  created empty, expanded once to the members of its entity, with a fresh key pair for those that
  have no key when the census is ephemeral, and then exported.
\<close>

text \<open>The surroundings of a method that is called after \<open>n\<close> round trips of its caller.\<close>

definition shift :: "nat \<Rightarrow> env \<Rightarrow> env" where
  "shift n ev = ev\<lparr>io := (\<lambda>k. io ev (n + k))\<rparr>"

section \<open>Targets\<close>

text \<open>The result with the new identifier is neither closed nor read to its end.\<close>

definition AddTarget :: "env \<Rightarrow> ext \<Rightarrow> gobytes \<Rightarrow> Target \<Rightarrow> pgdb \<Rightarrow> pgdb \<times> (dberror + uuid)" where
  "AddTarget ev x entityID target db =
     (if slen entityID = 0 then (db, Inl (Errorf ''adding target for other entity'' None))
      else (let target' = (if slen (tg_EntityID target) = 0 then target\<lparr>tg_EntityID := entityID\<rparr> else target) in
        if hex_EncodeToString (bts (tg_EntityID target')) \<noteq> hex_EncodeToString (bts entityID)
        then (db, Inl (Errorf ''trying to add target for another entity'' None))
        else case io_err ev 0 of
          Some e \<Rightarrow> (db, Inl e)
        | None \<Rightarrow>
            (let row = (case tg_Filters target' of
                   None \<Rightarrow> Inl (NotNullViolation ''filters'')
                 | Some f \<Rightarrow>
                     if \<not> json_valid x f then Inl (DriverError ''invalid input syntax for type json'')
                     else insert_targets [\<lparr>t_updated_at = now ev, t_created_at = now ev, t_id = fresh ev 0,
                            t_entity_id = bts (tg_EntityID target'), t_name = tg_Name target', t_filters = f\<rparr>] db)
             in case row of
                  Inl _ \<Rightarrow> (db, Inl (Errorf ''result has no rows, posible violation of db constraints'' None))
                | Inr db' \<Rightarrow>
                    (case io_err ev 1 of
                       Some e \<Rightarrow> (leak db', Inl e)
                     | None \<Rightarrow> (leak db', Inr (fresh ev 0))))))"

definition scan_target :: "target_row \<Rightarrow> Target" where
  "scan_target r = zero_Target\<lparr>tg_ID := t_id r, tg_EntityID := Some (t_entity_id r), tg_Name := t_name r,
     tg_Filters := Some (t_filters r)\<rparr>"

definition Target :: "env \<Rightarrow> gobytes \<Rightarrow> uuid option \<Rightarrow> pgdb \<Rightarrow> dberror + Target" where
  "Target ev entityID targetID db =
     (if slen entityID = 0 \<or> targetID = None \<or> targetID = Some uuid_Nil
      then Inl (Errorf ''error retrieving target'' None)
      else case io_err ev 0 of
        Some e \<Rightarrow> Inl e
      | None \<Rightarrow>
          (case find (\<lambda>r. sql_eq entityID (t_entity r) \<and> sql_eq targetID (t_key r)) (targets db) of
             None \<Rightarrow> Inl ErrNoRows
           | Some r \<Rightarrow> Inr (scan_target r)))"

definition CountTargets :: "env \<Rightarrow> gobytes \<Rightarrow> pgdb \<Rightarrow> dberror + nat" where
  "CountTargets ev entityID db =
     (if slen entityID = 0 then Inl (Errorf ''invalid entity id'' None)
      else case io_err ev 0 of
        Some e \<Rightarrow> Inl e
      | None \<Rightarrow> Inr (length (filter (\<lambda>r. sql_eq entityID (t_entity r)) (targets db))))"

definition ListTargets :: "env \<Rightarrow> gobytes \<Rightarrow> pgdb \<Rightarrow> dberror + Target list" where
  "ListTargets ev entityID db =
     (if slen entityID = 0 then Inl (Errorf ''error retrieving target'' None)
      else case io_err ev 0 of
        Some e \<Rightarrow> Inl e
      | None \<Rightarrow> Inr (map scan_target (filter (\<lambda>r. sql_eq entityID (t_entity r)) (targets db))))"

definition TargetMembers :: "env \<Rightarrow> gobytes \<Rightarrow> uuid option \<Rightarrow> pgdb \<Rightarrow> dberror + Member list" where
  "TargetMembers ev entityID targetID db =
     (if targetID = None then Inl (Errorf ''targetID is nil'' None)
      else ListMembers ev entityID (Some \<lparr>lo_Count = 0, lo_Order = [], lo_Skip = 0, lo_SortBy = []\<rparr>) db)"

section \<open>Censuses\<close>

definition scan_census :: "census_row \<Rightarrow> Census" where
  "scan_census r = \<lparr>cs_EntityID = Some (c_entity_id r), cs_ID = Some (c_id r), cs_TargetID = c_target_id r,
     cs_Info = \<lparr>ci_CreatedAt = c_created_at r, ci_UpdatedAt = c_updated_at r, ci_Name = c_name r,
       ci_MerkleRoot = Some (c_merkle_root r), ci_MerkleTreeURI = c_merkle_tree_uri r, ci_Size = c_size r,
       ci_Ephemeral = c_ephemeral r, ci_ProcessID = None\<rparr>\<rparr>"

definition Census :: "env \<Rightarrow> gobytes \<Rightarrow> gobytes \<Rightarrow> pgdb \<Rightarrow> dberror + Census" where
  "Census ev entityID censusID db =
     (if slen entityID = 0 \<or> slen censusID < 1 then Inl (Errorf ''error retrieving target'' None)
      else case io_err ev 0 of
        Some e \<Rightarrow> Inl e
      | None \<Rightarrow>
          (case find (\<lambda>r. sql_eq entityID (c_entity r) \<and> sql_eq censusID (c_key r)) (censuses db) of
             None \<Rightarrow> Inl ErrNoRows
           | Some r \<Rightarrow> Inr (scan_census r)))"

text \<open>
  The row that \<^verbatim>\<open>AddCensus\<close> (with the flag) and \<^verbatim>\<open>AddCensusWithMembers\<close> (with the default) insert:
  the driver encodes the size as an \<^verbatim>\<open>integer\<close>, and a nil root is NULL.
\<close>

definition insert_census :: "gotime \<Rightarrow> bytes \<Rightarrow> bytes \<Rightarrow> uuid \<Rightarrow> CensusInfo \<Rightarrow> bool \<Rightarrow> pgdb \<Rightarrow> dberror + pgdb" where
  "insert_census t entityID censusID targetID info eph db =
     (if \<not> in_int32 (ci_Size info) then Inl (DriverError ''out of range for integer'')
      else case ci_MerkleRoot info of
        None \<Rightarrow> Inl (NotNullViolation ''merkle_root'')
      | Some root \<Rightarrow>
          insert_censuses [\<lparr>c_updated_at = t, c_created_at = t, c_target_id = targetID, c_id = censusID,
            c_name = ci_Name info, c_entity_id = entityID, c_merkle_root = root,
            c_merkle_tree_uri = ci_MerkleTreeURI info, c_size = ci_Size info, c_ephemeral = eph\<rparr>] db)"

definition census_args_invalid :: "gobytes \<Rightarrow> gobytes \<Rightarrow> uuid option \<Rightarrow> bool" where
  "census_args_invalid entityID censusID targetID =
     (slen entityID = 0 \<or> slen censusID = 0 \<or> targetID = None \<or> targetID = Some uuid_Nil)"

definition AddCensus :: "env \<Rightarrow> gobytes \<Rightarrow> gobytes \<Rightarrow> uuid option \<Rightarrow> CensusInfo option \<Rightarrow> pgdb \<Rightarrow> pgdb \<times> dberror option" where
  "AddCensus ev entityID censusID targetID info db =
     (if census_args_invalid entityID censusID targetID then (db, Some (Errorf ''invalid arguments'' None))
      else (let info1 = (case info of None \<Rightarrow> zero_CensusInfo\<lparr>ci_MerkleRoot := Some []\<rparr> | Some i \<Rightarrow> i);
                info2 = (if ci_MerkleRoot info1 = None then info1\<lparr>ci_MerkleRoot := Some []\<rparr> else info1)
            in case io_err ev 0 of
                 Some e \<Rightarrow> (db, Some (Errorf ''failed to add census'' (Some e)))
               | None \<Rightarrow>
                   (case insert_census (now ev) (bts entityID) (bts censusID) (the targetID) info2
                           (ci_Ephemeral info2) db of
                      Inl e \<Rightarrow> (db, Some (Errorf ''failed to add census'' (Some e)))
                    | Inr db' \<Rightarrow> (db', None))))"

definition update_censuses :: "(census_row \<Rightarrow> bool) \<Rightarrow> (census_row \<Rightarrow> census_row) \<Rightarrow> pgdb \<Rightarrow> pgdb" where
  "update_censuses p g db = db\<lparr>censuses := map (\<lambda>r. if p r then g r else r) (censuses db)\<rparr>"

text \<open>
  \<^verbatim>\<open>AddCensusWithMembers\<close>: the round trips are the SELECT (0), begin (1), the INSERT of the census
  (2), the UPDATE of its size (3), commit (4) and the batches. A nil \<^verbatim>\<open>info\<close> is dereferenced.
\<close>

definition census_with_members_tx :: "env \<Rightarrow> bytes \<Rightarrow> bytes \<Rightarrow> uuid \<Rightarrow> CensusInfo \<Rightarrow> uuid list \<Rightarrow> pgdb \<Rightarrow>
    pgdb \<times> (dberror + int)" where
  "census_with_members_tx ev entityID censusID targetID info ids db =
     (case (case io_err ev 2 of Some e \<Rightarrow> Inl e
            | None \<Rightarrow> insert_census (now ev) entityID censusID targetID info False db) of
        Inl e \<Rightarrow> (leak db, Inl (Errorf ''cannot add census'' (Some e)))
      | Inr tx1 \<Rightarrow>
          (case bulkInsert (batch_exec ev 5 insert_census_members)
                  (map (\<lambda>u. \<lparr>x_member_id = u, x_census_id = censusID, x_ephemeral = False,
                     x_public_key = None, x_digested_public_key = None, x_private_key = None\<rparr>) ids) 2 tx1 of
             Inl e \<Rightarrow> (db, Inl (Errorf ''error during bulk insert'' (Some e)))
           | Inr tx2 \<Rightarrow>
               (case io_err ev 3 of
                  Some e \<Rightarrow> (db, Inl (Errorf ''rolled back due to error updating census size'' (Some e)))
                | None \<Rightarrow>
                    (let p = (\<lambda>r. c_id r = censusID) in
                     if length (filter p (censuses tx2)) \<noteq> 1
                     then (db, Inl (Errorf ''rolled back due to error updating census size'' None))
                     else case io_err ev 4 of
                       Some e \<Rightarrow> (db, Inl (Errorf ''rolled back because could not commit addCensus and addCensusMembers'' (Some e)))
                     | None \<Rightarrow> (update_censuses p (\<lambda>r. r\<lparr>c_size := int (length ids), c_updated_at := now ev\<rparr>) tx2,
                                Inr (int (length ids)))))))"

definition registered_ids :: "gobytes \<Rightarrow> pgdb \<Rightarrow> uuid list" where
  "registered_ids entityID db = map m_id (filter (\<lambda>m. sql_eq entityID (m_entity m) \<and>
     list_ex (\<lambda>u. sql_eq (m_public_key m) (u_key u)) (users db)) (members db))"

definition AddCensusWithMembers :: "env \<Rightarrow> gobytes \<Rightarrow> gobytes \<Rightarrow> uuid option \<Rightarrow> CensusInfo option \<Rightarrow> pgdb \<Rightarrow>
    (pgdb \<times> (dberror + int)) option" where
  "AddCensusWithMembers ev entityID censusID targetID info db =
     (if census_args_invalid entityID censusID targetID then Some (db, Inl (Errorf ''invalid arguments'' None))
      else case io_err ev 0 of
        Some e \<Rightarrow> Some (db, Inl e)
      | None \<Rightarrow>
          (let ids = registered_ids entityID db
           in if ids = [] then Some (db, Inl (Errorf ''target contains 0 members'' None))
              else case info of
                None \<Rightarrow> None
              | Some i \<Rightarrow>
                  (case io_err ev 1 of
                     Some e \<Rightarrow> Some (db, Inl (Errorf ''cannot initialize postgres transaction'' (Some e)))
                   | None \<Rightarrow> Some (census_with_members_tx ev (bts entityID) (bts censusID) (the targetID) i ids db))))"

definition UpdateCensus :: "env \<Rightarrow> gobytes \<Rightarrow> gobytes \<Rightarrow> CensusInfo option \<Rightarrow> pgdb \<Rightarrow> pgdb \<times> (dberror + nat)" where
  "UpdateCensus ev entityID censusID info db =
     (case info of
        None \<Rightarrow> (db, Inl (Errorf ''invalid arguments'' None))
      | Some i \<Rightarrow>
          if slen entityID = 0 \<or> slen censusID = 0 then (db, Inl (Errorf ''invalid arguments'' None))
          else (let root = (case ci_MerkleRoot i of None \<Rightarrow> [] | Some r \<Rightarrow> r) in
                case io_err ev 0 of
                  Some e \<Rightarrow> (db, Inl (Errorf ''error updating census'' (Some e)))
                | None \<Rightarrow>
                    (let p = (\<lambda>r. sql_eq censusID (c_key r) \<and> sql_eq entityID (c_entity r));
                         rows = length (filter p (censuses db));
                         db' = update_censuses p (\<lambda>r. r\<lparr>
                           c_merkle_root := coalesce (nullif (Some root) (Some [])) (c_merkle_root r),
                           c_merkle_tree_uri := coalesce (nullif (Some (ci_MerkleTreeURI i)) (Some [])) (c_merkle_tree_uri r),
                           c_updated_at := now ev\<rparr>) db
                     in if rows \<noteq> 1 \<and> rows \<noteq> 0 then (db', Inl (Errorf ''expected to update 0 or 1 rows'' None))
                        else (db', Inr rows))))"

definition CountCensus :: "env \<Rightarrow> gobytes \<Rightarrow> pgdb \<Rightarrow> dberror + nat" where
  "CountCensus ev entityID db =
     (if slen entityID = 0 then Inl (Errorf ''invalid entity id'' None)
      else case io_err ev 0 of
        Some e \<Rightarrow> Inl e
      | None \<Rightarrow> Inr (length (filter (\<lambda>r. sql_eq entityID (c_entity r)) (censuses db))))"

text \<open>The columns of the table; an ORDER BY that names another one makes the query fail.\<close>

definition census_columns :: "string list" where
  "census_columns = [''updated_at'', ''created_at'', ''target_id'', ''id'', ''name'', ''entity_id'',
     ''merkle_root'', ''merkle_tree_uri'', ''size'', ''ephemeral'']"

text \<open>The query of \<^verbatim>\<open>ListCensus\<close> selects neither the size nor the flag.\<close>

definition ListCensus :: "env \<Rightarrow> gobytes \<Rightarrow> ListOptions option \<Rightarrow> pgdb \<Rightarrow> dberror + Census list" where
  "ListCensus ev entityID filt db =
     (if slen entityID = 0 then Inl (Errorf ''error retrieving target'' None)
      else case map_of Census_fields (strings_Title ''name'') of
        None \<Rightarrow> Inl (Errorf ''name field not found in DB. Something is very wrong'' None)
      | Some dfltField \<Rightarrow>
          (case page_clause filt of
             Inl e \<Rightarrow> Inl e
           | Inr lo \<Rightarrow>
               (let (orderField, order) = order_clause Census_fields (dfltField, ''ASC'') filt in
                case io_err ev 0 of
                  Some e \<Rightarrow> Inl e
                | None \<Rightarrow>
                    if orderField \<notin> set census_columns then Inl (DriverError ''column does not exist'')
                    else Inr (map (\<lambda>r. (scan_census r)\<lparr>cs_Info := (cs_Info (scan_census r))\<lparr>ci_Size := 0,
                                ci_Ephemeral := False\<rparr>\<rparr>)
                      (page lo (order_by (census_le ev orderField) order
                        (filter (\<lambda>r. sql_eq entityID (c_entity r)) (censuses db))))))))"

definition DeleteCensus :: "env \<Rightarrow> gobytes \<Rightarrow> gobytes \<Rightarrow> pgdb \<Rightarrow> pgdb \<times> dberror option" where
  "DeleteCensus ev entityID censusID db =
     (if slen censusID = 0 \<or> slen entityID = 0 then (db, Some (Errorf ''invalid arguments'' None))
      else case io_err ev 0 of
        Some e \<Rightarrow> (db, Some (Errorf ''error deleting census'' (Some e)))
      | None \<Rightarrow>
          (let p = (\<lambda>r. sql_eq censusID (c_key r) \<and> sql_eq entityID (c_entity r)) in
           if length (filter p (censuses db)) \<noteq> 1
           then (delete_censuses_where p db, Some (Errorf ''nothing to delete'' None))
           else (delete_censuses_where p db, None)))"

section \<open>Census members\<close>

definition DumpCensusClaims :: "env \<Rightarrow> gobytes \<Rightarrow> gobytes \<Rightarrow> pgdb \<Rightarrow> dberror + gobytes list" where
  "DumpCensusClaims ev entityID censusID db =
     (case Census ev entityID censusID db of
        Inl _ \<Rightarrow> Inl (Errorf ''could not retrieve census'' None)
      | Inr _ \<Rightarrow>
          (case io_err ev 1 of
             Some e \<Rightarrow> Inl e
           | None \<Rightarrow> Inr (map x_digested_public_key
               (filter (\<lambda>r. sql_eq censusID (x_census r)) (census_members db)))))"

text \<open>
  The loop of \<^verbatim>\<open>ExpandCensusMembers\<close>: \<open>k\<close> counts the key pairs drawn so far; \<open>None\<close> is the panic
  when a key pair cannot be drawn.
\<close>

fun expand_loop :: "env \<Rightarrow> ext \<Rightarrow> bool \<Rightarrow> gobytes \<Rightarrow> nat \<Rightarrow> Member list \<Rightarrow> CensusMember list option" where
  "expand_loop ev x eph censusID k [] = Some []"
| "expand_loop ev x eph censusID k (member # ms) =
     (if ValidPubKey x (mb_PubKey member) then
        map_option (Cons \<lparr>cm_MemberID = mb_ID member, cm_CensusID = censusID, cm_Ephemeral = False,
            cm_PrivKey = None, cm_PubKey = None, cm_DigestedPubKey = mb_PubKey member\<rparr>)
          (expand_loop ev x eph censusID k ms)
      else if eph then
        (case keygen ev k of
           None \<Rightarrow> None
         | Some (pubKey, privKey) \<Rightarrow>
             map_option (Cons \<lparr>cm_MemberID = mb_ID member, cm_CensusID = censusID, cm_Ephemeral = True,
                 cm_PrivKey = Some privKey, cm_PubKey = Some pubKey, cm_DigestedPubKey = Some pubKey\<rparr>)
               (expand_loop ev x eph censusID (Suc k) ms))
      else expand_loop ev x eph censusID k ms)"

definition census_member_value :: "CensusMember \<Rightarrow> census_member_row" where
  "census_member_value c = \<lparr>x_member_id = cm_MemberID c, x_census_id = bts (cm_CensusID c),
     x_ephemeral = cm_Ephemeral c, x_public_key = cm_PubKey c,
     x_digested_public_key = cm_DigestedPubKey c, x_private_key = cm_PrivKey c\<rparr>"

text \<open>
  \<^verbatim>\<open>ExpandCensusMembers\<close>: the round trips are the census (0), the members (1), begin (2), the UPDATE
  of the size (3), commit (4) and the batches. A failed batch rolls back, a failed UPDATE does not.
\<close>

definition expand_tx :: "env \<Rightarrow> gobytes \<Rightarrow> gobytes \<Rightarrow> CensusMember list \<Rightarrow> pgdb \<Rightarrow>
    pgdb \<times> (dberror + CensusMember list)" where
  "expand_tx ev entityID censusID censusMembers db =
     (case io_err ev 2 of
        Some e \<Rightarrow> (db, Inl (Errorf ''could not initialize postgres transaction'' (Some e)))
      | None \<Rightarrow>
          (case bulkInsert (batch_exec ev 5 insert_census_members) (map census_member_value censusMembers) 6 db of
             Inl e \<Rightarrow> (db, Inl (Errorf ''error during bulk insert'' (Some e)))
           | Inr tx1 \<Rightarrow>
               (case io_err ev 3 of
                  Some e \<Rightarrow> (leak db, Inl (Errorf ''could not update census as ephemeral'' (Some e)))
                | None \<Rightarrow>
                    (let p = (\<lambda>r. sql_eq censusID (c_key r) \<and> sql_eq entityID (c_entity r)) in
                     if length (filter p (censuses tx1)) \<noteq> 1
                     then (leak db, Inl (Errorf ''could not update census as ephemeral'' None))
                     else case io_err ev 4 of
                       Some e \<Rightarrow> (db, Inl (Errorf ''something is very wrong: error rolling back'' (Some e)))
                     | None \<Rightarrow> (update_censuses p (\<lambda>r. r\<lparr>c_size := int (length censusMembers)\<rparr>) tx1,
                                Inr censusMembers)))))"

definition ExpandCensusMembers :: "env \<Rightarrow> ext \<Rightarrow> gobytes \<Rightarrow> gobytes \<Rightarrow> pgdb \<Rightarrow>
    (pgdb \<times> (dberror + CensusMember list)) option" where
  "ExpandCensusMembers ev x entityID censusID db =
     (case Census ev entityID censusID db of
        Inl _ \<Rightarrow> Some (db, Inl (Errorf ''could not retrieve census'' None))
      | Inr census \<Rightarrow>
          (case TargetMembers (shift 1 ev) entityID (Some (cs_TargetID census)) db of
             Inl _ \<Rightarrow> Some (db, Inl (Errorf ''could not retrieve target members'' None))
           | Inr ms \<Rightarrow>
               (case expand_loop ev x (ci_Ephemeral (cs_Info census)) censusID 0 ms of
                  None \<Rightarrow> None
                | Some censusMembers \<Rightarrow> Some (expand_tx ev entityID censusID censusMembers db))))"

definition ephemeral_info :: "member_row \<Rightarrow> census_member_row \<Rightarrow> PGEphemeralMemberInfo" where
  "ephemeral_info m c = \<lparr>pf_Info = \<lparr>em_ID = m_id m, em_FirstName = m_first_name m, em_LastName = m_last_name m,
       em_Email = [], em_PrivKey = x_private_key c, em_DigestedPubKey = x_digested_public_key c\<rparr>,
     pf_Email = m_email m\<rparr>"

definition ListEphemeralMemberInfo :: "env \<Rightarrow> gobytes \<Rightarrow> gobytes \<Rightarrow> pgdb \<Rightarrow> dberror + EphemeralMemberInfo list" where
  "ListEphemeralMemberInfo ev entityID censusID db =
     (case Census ev entityID censusID db of
        Inl _ \<Rightarrow> Inl (Errorf ''could not retrieve census'' None)
      | Inr census \<Rightarrow>
          (case io_err ev 1 of
             Some e \<Rightarrow> Inl (Errorf ''could not retrieve census members info'' (Some e))
           | None \<Rightarrow> Inr (map ToEphemeralMemberInfo (concat (map (\<lambda>c.
               map (\<lambda>m. ephemeral_info m c) (filter (\<lambda>m. m_id m = x_member_id c) (members db)))
               (filter (\<lambda>c. sql_eq (cs_ID census) (x_census c) \<and> x_ephemeral c) (census_members db)))))))"

definition EphemeralMemberInfoByEmail :: "env \<Rightarrow> gobytes \<Rightarrow> gobytes \<Rightarrow> string \<Rightarrow> pgdb \<Rightarrow>
    (dberror + EphemeralMemberInfo) option" where
  "EphemeralMemberInfoByEmail ev entityID censusID email db =
     (case Census ev entityID censusID db of
        Inl e \<Rightarrow> Some (Inl (Errorf ''cound not retrieve census'' (Some e)))
      | Inr census \<Rightarrow>
          (case MemberByEmail (shift 1 ev) entityID email db of
             None \<Rightarrow> None
           | Some (Inl e) \<Rightarrow> Some (Inl (Errorf ''cound not retrieve member by email'' (Some e)))
           | Some (Inr member) \<Rightarrow>
               (case io_err ev 2 of
                  Some e \<Rightarrow> Some (Inl (Errorf ''could not retrieve census members info'' (Some e)))
                | None \<Rightarrow>
                    (case find (\<lambda>c. sql_eq (cs_ID census) (x_census c) \<and> x_member_id c = mb_ID member \<and> x_ephemeral c)
                            (census_members db) of
                       None \<Rightarrow> Some (Inl (Errorf ''could not retrieve census members info'' (Some ErrNoRows)))
                     | Some c \<Rightarrow> Some (Inr \<lparr>em_ID = mb_ID member, em_FirstName = mi_FirstName (mb_Info member),
                         em_LastName = mi_LastName (mb_Info member), em_Email = mi_Email (mb_Info member),
                         em_PrivKey = x_private_key c, em_DigestedPubKey = x_digested_public_key c\<rparr>)))))"

section \<open>The schema is kept\<close>

lemma no_faults_shift [simp]: "no_faults ev \<Longrightarrow> no_faults (shift n ev)"
  by (simp add: no_faults_def shift_def)

lemma shift_simps [simp]: "io_err (shift n ev) k = io_err ev (n + k)" "now (shift n ev) = now ev"
  "fresh (shift n ev) = fresh ev" "member_le (shift n ev) = member_le ev"
  by (simp_all add: shift_def io_err_def)

lemma AddTarget_wf [wf_intros]: "wf_db db \<Longrightarrow> wf_db (fst (AddTarget ev x i t db))"
  by (auto simp: AddTarget_def Let_def split: option.splits sum.splits if_splits intro: wf_intros)

lemma insert_census_wf [wf_intros]: "insert_census t i c u info e db = Inr db' \<Longrightarrow> wf_db db \<Longrightarrow> wf_db db'"
  by (auto simp: insert_census_def split: if_splits option.splits intro: wf_intros)

lemma AddCensus_wf [wf_intros]: "wf_db db \<Longrightarrow> wf_db (fst (AddCensus ev i c t info db))"
  by (auto simp: AddCensus_def Let_def split: option.splits sum.splits intro: wf_intros)

lemma update_censuses_wf [wf_intros]:
  assumes "wf_db db" and "\<And>r. c_id (g r) = c_id r" "\<And>r. c_entity_id (g r) = c_entity_id r"
    and "\<And>r. c_target_id (g r) = c_target_id r"
  shows "wf_db (update_censuses p g db)"
proof -
  let ?h = "\<lambda>r. if p r then g r else r"
  have key: "c_key (?h r) = c_key r" "c_entity (?h r) = c_entity r" "c_target (?h r) = c_target r" for r
    using assms(2-) by (auto simp: key_defs)
  have ids: "census_ids (update_censuses p g db) = census_ids db"
    using assms(2) by (auto simp: update_censuses_def)
  have "wf_censuses (update_censuses p g db)"
    using assms(1) by (simp add: wf_db_def wf_censuses_def update_censuses_def uniq_map_same key refs_def
        list.pred_map comp_def)
  moreover have "wf_census_members (update_censuses p g db)"
    using assms(1) unfolding wf_db_def wf_census_members_def ids by (simp add: update_censuses_def)
  ultimately show ?thesis using assms(1) by (simp add: wf_db_def wf_parts update_censuses_def)
qed

lemmas bulk_census_wf = bulk_census_members_sound [THEN insert_census_members_wf, rotated 2]

lemma census_with_members_tx_wf [wf_intros]: "wf_db db \<Longrightarrow> wf_db (fst (census_with_members_tx ev i c t info ids db))"
  by (auto simp: census_with_members_tx_def Let_def split: option.splits sum.splits
      dest!: bulk_census_wf insert_census_wf intro!: update_censuses_wf)

lemma AddCensusWithMembers_wf [wf_intros]:
  "AddCensusWithMembers ev i c t info db = Some (db', r) \<Longrightarrow> wf_db db \<Longrightarrow> wf_db db'"
proof -
  assume a: "AddCensusWithMembers ev i c t info db = Some (db', r)" and wf: "wf_db db"
  obtain ids where ids: "ids = registered_ids i db" by simp
  have "db' = db \<or> (\<exists>inf. census_with_members_tx ev (bts i) (bts c) (the t) inf ids db = (db', r))"
    using a unfolding AddCensusWithMembers_def Let_def ids [symmetric]
    by (simp split: if_split_asm option.split_asm) metis+
  then show "wf_db db'" using wf census_with_members_tx_wf by (metis fst_conv)
qed

lemma UpdateCensus_wf [wf_intros]: "wf_db db \<Longrightarrow> wf_db (fst (UpdateCensus ev i c info db))"
  by (auto simp: UpdateCensus_def Let_def split: option.splits intro!: update_censuses_wf)

lemma DeleteCensus_wf [wf_intros]: "wf_db db \<Longrightarrow> wf_db (fst (DeleteCensus ev i c db))"
  by (auto simp: DeleteCensus_def Let_def split: option.splits intro: wf_intros)

lemma expand_tx_wf [wf_intros]: "wf_db db \<Longrightarrow> wf_db (fst (expand_tx ev i c cms db))"
  by (auto simp: expand_tx_def Let_def split: option.splits sum.splits dest!: bulk_census_wf
      intro!: update_censuses_wf)

lemma ExpandCensusMembers_wf [wf_intros]:
  "ExpandCensusMembers ev x i c db = Some (db', r) \<Longrightarrow> wf_db db \<Longrightarrow> wf_db db'"
  using expand_tx_wf [of db ev i c]
  by (auto simp: ExpandCensusMembers_def split: option.splits sum.splits) (metis fst_conv)

section \<open>Facts\<close>

lemma insert_census_Inr:
  assumes "insert_census t i c u info e db = Inr db'"
  obtains row where "c_entity_id row = i" "c_target_id row = u" "db' = db\<lparr>censuses := censuses db @ [row]\<rparr>"
    "c_id row = c" "c_ephemeral row = e" "c_name row = ci_Name info" "c_size row = ci_Size info"
    "Some (c_merkle_root row) = ci_MerkleRoot info" "c_merkle_tree_uri row = ci_MerkleTreeURI info"
proof -
  let ?row = "\<lambda>root. \<lparr>c_updated_at = t, c_created_at = t, c_target_id = u, c_id = c, c_name = ci_Name info,
      c_entity_id = i, c_merkle_root = root, c_merkle_tree_uri = ci_MerkleTreeURI info, c_size = ci_Size info,
      c_ephemeral = e\<rparr>"
  from assms obtain root where "ci_MerkleRoot info = Some root" "db' = db\<lparr>censuses := censuses db @ [?row root]\<rparr>"
    by (auto simp: insert_census_def insert_censuses_def ins_census.insert_stmt_one census_add_def
        split: if_splits option.splits)
  then show ?thesis using that [of "?row root"] by simp
qed

lemma read_member_simps [simp]: "mb_ID (ToMember (with_tags r (scan_member r))) = m_id r"
  "mb_PubKey (ToMember (with_tags r (scan_member r))) = m_public_key r"
  by (simp_all add: ToMember_def with_tags_def scan_member_def zero_Member_def Let_def)

lemma TargetMembers_Inr:
  assumes "TargetMembers ev (Some i) t db = Inr ms"
  shows "\<exists>rows. ms = map (\<lambda>r. ToMember (with_tags r (scan_member r))) rows \<and>
    mset rows = mset (filter (\<lambda>r. m_entity_id r = i) (members db))"
proof -
  have dflt: "map_of MemberInfo_fields (strings_Title ''lastName'') = Some ''last_name''" by code_simp
  have "ms = map (\<lambda>r. ToMember (with_tags r (scan_member r)))
      (order_by (member_le ev ''last_name'') ''ASC'' (filter (\<lambda>r. m_entity_id r = i) (members db)))"
    using assms unfolding TargetMembers_def ListMembers_def dflt
    by (simp add: page_clause_def order_clause_def page_def m_entity_def eq_commute [of i] split: if_splits option.splits)
  then show ?thesis using mset_order_by by blast
qed

lemma expand_loop_Some:
  "expand_loop ev x eph c k ms = Some cms \<Longrightarrow>
   map cm_MemberID cms = map mb_ID (filter (\<lambda>m. ValidPubKey x (mb_PubKey m) \<or> eph) ms) \<and>
   (\<forall>y\<in>set cms. cm_CensusID y = c)"
  by (induction ev x eph c k ms arbitrary: cms rule: expand_loop.induct)
    (auto split: if_splits option.splits)

lemma insert_census_members_Inr:
  assumes "insert_census_members rs db = Inr db'"
  shows "db' = db\<lparr>census_members := census_members db @ rs\<rparr>"
  using assms ins_census_member.insert_stmt_fold
  by (auto simp: insert_census_members_def census_member_add_fold)

lemma expand_tx_Inr:
  assumes "expand_tx ev (Some i) (Some c) cms db = (db', Inr r)"
  shows "r = cms" "insert_census_members (map census_member_value cms) db =
      Inr (db\<lparr>census_members := census_members db @ map census_member_value cms\<rparr>)"
    "db' = db\<lparr>census_members := census_members db @ map census_member_value cms,
      censuses := map (\<lambda>y. if c_id y = c \<and> c_entity_id y = i then y\<lparr>c_size := int (length cms)\<rparr> else y) (censuses db)\<rparr>"
proof -
  from assms obtain tx where b: "bulkInsert (batch_exec ev 5 insert_census_members)
      (map census_member_value cms) 6 db = Inr tx"
    by (auto simp: expand_tx_def split: option.splits sum.splits)
  then have ins: "insert_census_members (map census_member_value cms) db = Inr tx"
    by (rule bulk_census_members_sound [rotated 2]) simp_all
  note tx = insert_census_members_Inr [OF ins]
  show "r = cms" "db' = db\<lparr>census_members := census_members db @ map census_member_value cms,
      censuses := map (\<lambda>y. if c_id y = c \<and> c_entity_id y = i then y\<lparr>c_size := int (length cms)\<rparr> else y) (censuses db)\<rparr>"
    using assms b by (auto simp: expand_tx_def Let_def tx update_censuses_def c_key_def c_entity_def
        eq_commute [of c] eq_commute [of i] split: option.splits if_splits)
  show "insert_census_members (map census_member_value cms) db =
      Inr (db\<lparr>census_members := census_members db @ map census_member_value cms\<rparr>)"
    using ins tx by simp
qed

lemma expand_tx_ephemeral:
  assumes "expand_tx ev (Some i) (Some c) cms db = (db', Inr r)" "y \<in> set (censuses db')"
  shows "\<exists>z\<in>set (censuses db). c_id z = c_id y \<and> c_ephemeral z = c_ephemeral y"
proof -
  have cs: "censuses db' = map (\<lambda>y. if c_id y = c \<and> c_entity_id y = i
      then y\<lparr>c_size := int (length cms)\<rparr> else y) (censuses db)"
    by (simp add: expand_tx_Inr(3) [OF assms(1)])
  from assms(2) obtain z where z: "z \<in> set (censuses db)"
    "y = (if c_id z = c \<and> c_entity_id z = i then z\<lparr>c_size := int (length cms)\<rparr> else z)"
    unfolding cs by auto
  then show ?thesis by (intro bexI [of _ z]) simp_all
qed

lemma ExpandCensusMembers_Inr:
  assumes "ExpandCensusMembers ev x (Some i) (Some c) db = Some (db', Inr cms)"
  obtains r ms where "r \<in> set (censuses db)" "c_id r = c" "c_entity_id r = i"
    "TargetMembers (shift 1 ev) (Some i) (Some (c_target_id r)) db = Inr ms"
    "expand_loop ev x (c_ephemeral r) (Some c) 0 ms = Some cms"
    "expand_tx ev (Some i) (Some c) cms db = (db', Inr cms)"
proof -
  from assms obtain census ms cms' where a: "Census ev (Some i) (Some c) db = Inr census"
    "TargetMembers (shift 1 ev) (Some i) (Some (cs_TargetID census)) db = Inr ms"
    "expand_loop ev x (ci_Ephemeral (cs_Info census)) (Some c) 0 ms = Some cms'"
    "expand_tx ev (Some i) (Some c) cms' db = (db', Inr cms)"
    by (auto simp: ExpandCensusMembers_def split: sum.splits option.splits)
  from a(1) obtain r where "find (\<lambda>r. sql_eq (Some i) (c_entity r) \<and> sql_eq (Some c) (c_key r)) (censuses db) = Some r"
    "census = scan_census r"
    by (auto simp: Census_def split: if_splits option.splits)
  then have r: "r \<in> set (censuses db)" "c_id r = c" "c_entity_id r = i" "census = scan_census r"
    by (auto dest!: find_Some_mem simp: c_entity_def c_key_def)
  show ?thesis
    using that [OF r(1-3)] a(2-4) expand_tx_Inr(1) [OF a(4)] by (simp add: r(4) scan_census_def)
qed

lemma expand_tx_quiet:
  assumes "no_faults ev" "insert_census_members (map census_member_value cms) db = Inr tx"
    and "length (filter (\<lambda>r. sql_eq (Some c) (c_key r) \<and> sql_eq (Some i) (c_entity r)) (censuses tx)) = 1"
  shows "snd (expand_tx ev (Some i) (Some c) cms db) = Inr cms"
  using assms bulk_census_members_complete [of 6 ev "map census_member_value cms" db tx 5]
  by (simp add: expand_tx_def Let_def no_faults_def io_err_def)

text \<open>A second entry for a member that is already in the census is refused.\<close>

lemma insert_census_members_clash:
  assumes "wf_db db" "r \<in> set (census_members db)" "y \<in> set rs" "x_key y = x_key r"
  shows "insert_census_members rs db \<noteq> Inr db'"
proof
  assume ins: "insert_census_members rs db = Inr db'"
  then have "wf_db db'" using assms(1) by (rule insert_census_members_wf)
  then have "uniq x_key (census_members db @ rs)"
    using insert_census_members_Inr [OF ins] by (simp add: wf_db_def wf_census_members_def)
  then show False
    using uniq_append_noclash [of x_key "census_members db" rs r y] assms(2-4) by (simp add: x_key_def)
qed

lemma expand_census_effect:
  assumes "wf_db db" and "ExpandCensusMembers ev x (Some i) (Some c) db = Some (db', Inr cms)"
  shows "\<exists>r\<in>set (censuses db). c_id r = c \<and> c_entity_id r = i \<and>
    census_members db' = census_members db @ map census_member_value cms \<and>
    distinct (map cm_MemberID cms) \<and>
    set (map cm_MemberID cms) = {m_id m |m. m \<in> set (members db) \<and> m_entity_id m = i \<and>
      (ValidPubKey x (m_public_key m) \<or> c_ephemeral r)} \<and>
    (\<forall>y\<in>set cms. cm_CensusID y = Some c) \<and>
    (\<forall>y\<in>set (censuses db'). c_id y = c \<longrightarrow> c_size y = int (length cms))"
proof -
  from assms(2) obtain r ms where r: "r \<in> set (censuses db)" "c_id r = c" "c_entity_id r = i"
    and ms: "TargetMembers (shift 1 ev) (Some i) (Some (c_target_id r)) db = Inr ms"
    and cms: "expand_loop ev x (c_ephemeral r) (Some c) 0 ms = Some cms"
    and tx: "expand_tx ev (Some i) (Some c) cms db = (db', Inr cms)"
    by (rule ExpandCensusMembers_Inr)
  obtain rows where rows: "ms = map (\<lambda>r. ToMember (with_tags r (scan_member r))) rows"
    "mset rows = mset (filter (\<lambda>r. m_entity_id r = i) (members db))"
    using TargetMembers_Inr [OF ms] by blast
  have srows: "set rows = {m \<in> set (members db). m_entity_id m = i}"
    using arg_cong [OF rows(2), of set_mset] by auto
  have ids: "map cm_MemberID cms = map m_id (filter (\<lambda>m. ValidPubKey x (m_public_key m) \<or> c_ephemeral r) rows)"
    using expand_loop_Some [OF cms] by (simp add: rows(1) filter_map comp_def)
  have "distinct (map m_id (members db))" using assms(1) by (simp add: wf_db_def wf_members_def uniq_map_m_id)
  then have "distinct (map m_id (filter (\<lambda>r. m_entity_id r = i) (members db)))" by (rule distinct_map_filter)
  then have "distinct (map m_id rows)"
    using rows(2) by (metis mset_map mset_eq_imp_distinct_iff)
  then have "distinct (map cm_MemberID cms)" unfolding ids by (rule distinct_map_filter)
  moreover have "\<forall>y\<in>set (censuses db'). c_id y = c \<longrightarrow> c_size y = int (length cms)"
  proof (intro ballI impI)
    fix y assume y: "y \<in> set (censuses db')" "c_id y = c"
    have cs: "censuses db' = map (\<lambda>y. if c_id y = c \<and> c_entity_id y = i
        then y\<lparr>c_size := int (length cms)\<rparr> else y) (censuses db)"
      by (simp add: expand_tx_Inr(3) [OF tx])
    from y(1) obtain z where z: "z \<in> set (censuses db)"
      "y = (if c_id z = c \<and> c_entity_id z = i then z\<lparr>c_size := int (length cms)\<rparr> else z)"
      unfolding cs by auto
    then have "c_id z = c" using y(2) by (simp split: if_splits)
    then have "z = r" using uniq_sameD [of c_key "censuses db" z r c] assms(1) z(1) r
      by (simp add: wf_db_def wf_censuses_def c_key_def)
    then show "c_size y = int (length cms)" using z r by simp
  qed
  moreover have "set (map cm_MemberID cms) = {m_id m |m. m \<in> set (members db) \<and> m_entity_id m = i \<and>
      (ValidPubKey x (m_public_key m) \<or> c_ephemeral r)}"
    unfolding ids using srows by auto
  moreover have "census_members db' = census_members db @ map census_member_value cms"
    by (simp add: expand_tx_Inr(3) [OF tx])
  ultimately show ?thesis using r expand_loop_Some [OF cms] by (intro bexI [of _ r] conjI) simp_all
qed

definition demo_keyed_db :: pgdb where
  "demo_keyed_db = demo_db\<lparr>users := [\<lparr>u_updated_at = 1, u_created_at = 1, u_public_key = [4, 4], u_digested_public_key = [5]\<rparr>],
     members := [demo_member 1 [7] (Some [4, 4]) None [], demo_member 2 [7] None None []], census_members := [],
     censuses := map (\<lambda>c. c\<lparr>c_ephemeral := True\<rparr>) (censuses demo_db)\<rparr>"

lemma wf_demo_keyed_db [simp]: "wf_db demo_keyed_db"
  by code_simp

lemma demo_expand:
  "\<exists>db'. ExpandCensusMembers (quiet 1) demo_ext (Some [7]) (Some [1, 1]) demo_keyed_db = Some (db',
     Inr [\<lparr>cm_MemberID = 1, cm_CensusID = Some [1, 1], cm_Ephemeral = False, cm_PrivKey = None, cm_PubKey = None,
            cm_DigestedPubKey = Some [4, 4]\<rparr>,
          \<lparr>cm_MemberID = 2, cm_CensusID = Some [1, 1], cm_Ephemeral = True, cm_PrivKey = Some [9, 0],
            cm_PubKey = Some [2, 0], cm_DigestedPubKey = Some [2, 0]\<rparr>])" (is "\<exists>db'. _ = Some (db', Inr ?cms)")
proof -
  have c: "map_sum (\<lambda>_. ()) (\<lambda>c. (cs_TargetID c, ci_Ephemeral (cs_Info c)))
      (Census (quiet 1) (Some [7]) (Some [1, 1]) demo_keyed_db) = Inr (11, True)" by code_simp
  have e: "map_option (\<lambda>ms. expand_loop (quiet 1) demo_ext True (Some [1, 1]) 0 ms)
      (case TargetMembers (shift 1 (quiet 1)) (Some [7]) (Some 11) demo_keyed_db of Inl _ \<Rightarrow> None | Inr ms \<Rightarrow> Some ms) =
      Some (Some ?cms)"
    by code_simp
  have i: "insert_census_members (map census_member_value ?cms) demo_keyed_db =
      Inr (demo_keyed_db\<lparr>census_members := map census_member_value ?cms\<rparr>)" by code_simp
  have "snd (expand_tx (quiet 1) (Some [7]) (Some [1, 1]) ?cms demo_keyed_db) = Inr ?cms"
    by (rule expand_tx_quiet [OF no_faults_quiet i]) code_simp
  then have t: "\<exists>db'. expand_tx (quiet 1) (Some [7]) (Some [1, 1]) ?cms demo_keyed_db = (db', Inr ?cms)"
    by (metis prod.collapse)
  show ?thesis using c e t
    by (auto simp: ExpandCensusMembers_def split: sum.splits)
qed

text \<open>
  The claims exported for a freshly expanded census are the digested keys of its entries, in order:
  for a member with a registered key that key, for the others the drawn one.
\<close>

lemma expand_then_dump_claims:
  assumes "wf_db db" and "ExpandCensusMembers ev x (Some i) (Some c) db = Some (db', Inr cms)"
    and "\<forall>y\<in>set (census_members db). x_census_id y \<noteq> c" and "no_faults ev'"
  shows "DumpCensusClaims ev' (Some i) (Some c) db' = Inr (map cm_DigestedPubKey cms)"
proof -
  from expand_census_effect [OF assms(1,2)]
  have e: "census_members db' = census_members db @ map census_member_value cms"
    and c: "\<forall>y\<in>set cms. cm_CensusID y = Some c" by blast+
  from assms(2) obtain r ms where r: "r \<in> set (censuses db)" "c_id r = c" "c_entity_id r = i"
    and tx: "expand_tx ev (Some i) (Some c) cms db = (db', Inr cms)"
    by (rule ExpandCensusMembers_Inr)
  have ne: "i \<noteq> [] \<and> c \<noteq> []"
    using assms(2) by (auto simp: ExpandCensusMembers_def Census_def slen_def bts_def split: sum.splits if_splits)
  have "\<exists>y\<in>set (censuses db'). c_id y = c \<and> c_entity_id y = i"
    using r by (auto simp: expand_tx_Inr(3) [OF tx] intro!: bexI [of _ "r\<lparr>c_size := int (length cms)\<rparr>"])
  then obtain y where "find (\<lambda>r. sql_eq (Some i) (c_entity r) \<and> sql_eq (Some c) (c_key r)) (censuses db') = Some y"
    by (cases "find (\<lambda>r. sql_eq (Some i) (c_entity r) \<and> sql_eq (Some c) (c_key r)) (censuses db')")
      (auto simp: find_None_iff c_entity_def c_key_def)
  then have "Census ev' (Some i) (Some c) db' = Inr (scan_census y)"
    using ne assms(4) by (simp add: Census_def slen_def bts_def)
  moreover have "filter (\<lambda>r. sql_eq (Some c) (x_census r)) (census_members db') = map census_member_value cms"
    using assms(3) c by (auto simp: e x_census_def filter_empty_conv filter_id_conv census_member_value_def bts_def)
  ultimately show ?thesis
    using assms(4) by (simp add: DumpCensusClaims_def census_member_value_def comp_def)
qed

section \<open>Properties\<close>

text \<open>
  C17: expanding a census adds one entry for every member of its entity that has a valid public key,
  and for every member when the census is ephemeral, each member once, and stores their number as
  the size of the census; nothing else of the entries changes.
\<close>

theorem ExpandCensusMembers_effect:
  assumes "wf_db db" and "ExpandCensusMembers ev x (Some i) (Some c) db = Some (db', Inr cms)"
  shows "\<exists>r\<in>set (censuses db). c_id r = c \<and> c_entity_id r = i \<and>
    census_members db' = census_members db @ map census_member_value cms \<and>
    distinct (map cm_MemberID cms) \<and>
    set (map cm_MemberID cms) = {m_id m |m. m \<in> set (members db) \<and> m_entity_id m = i \<and>
      (ValidPubKey x (m_public_key m) \<or> c_ephemeral r)} \<and>
    (\<forall>y\<in>set cms. cm_CensusID y = Some c) \<and>
    (\<forall>y\<in>set (censuses db'). c_id y = c \<longrightarrow> c_size y = int (length cms))"
  using expand_census_effect [OF assms] .

theorem ExpandCensusMembers_effect_witness:
  "\<exists>db' cms. ExpandCensusMembers (quiet 1) demo_ext (Some [7]) (Some [1, 1]) demo_keyed_db = Some (db', Inr cms) \<and>
     census_members db' = census_members demo_keyed_db @ map census_member_value cms"
  using demo_expand ExpandCensusMembers_effect [OF wf_demo_keyed_db] by blast



text \<open>
  C34: \<^verbatim>\<open>AddCensus\<close> accepts a target of another entity; that entity can then no longer be deleted
  until the census is: the reference from the census to the target does not cascade.
\<close>

theorem AddCensus_foreign_target_blocks_DeleteEntity:
  assumes "AddCensus ev (Some i) (Some c) (Some t) info db = (db', None)"
    and "tr \<in> set (targets db)" "t_id tr = t" "t_entity_id tr = j" "i \<noteq> j" and "wf_db db"
  shows "snd (DeleteEntity ev' (Some j) db') \<noteq> None"
proof
  assume "snd (DeleteEntity ev' (Some j) db') = None"
  then have "DeleteEntity ev' (Some j) db' = (fst (DeleteEntity ev' (Some j) db'), None)" by (metis prod.collapse)
  note del = DeleteEntity_None(2) [OF this]
  from assms(1) obtain info2 eph where "insert_census (now ev) i c t info2 eph db = Inr db'"
    by (auto simp: AddCensus_def Let_def bts_def split: if_splits option.splits sum.splits)
  then obtain row where row: "c_entity_id row = i" "c_target_id row = t" "db' = db\<lparr>censuses := censuses db @ [row]\<rparr>"
    by (rule insert_census_Inr)
  have "uniq t_key (targets db)" using assms(6) by (simp add: wf_db_def wf_targets_def)
  then have only: "\<forall>y\<in>set (targets db). t_id y = t \<longrightarrow> t_entity_id y = j"
    using assms(2-4) by (metis t_key_def uniq_sameD)
  then show False
    using del row assms(5)
    by (auto simp: delete_entity_row_def delete_censuses_where_def delete_members_where_def Let_def bts_def
        list_ex_iff split: if_splits)
qed

theorem AddCensus_foreign_target_blocks_DeleteEntity_witness:
  "snd (DeleteEntity (quiet 2) (Some [8])
     (fst (AddCensus (quiet 1) (Some [7]) (Some [2]) (Some 12) None demo_db))) \<noteq> None"
proof -
  have "snd (AddCensus (quiet 1) (Some [7]) (Some [2]) (Some 12) None demo_db) = None" by code_simp
  then have "AddCensus (quiet 1) (Some [7]) (Some [2]) (Some 12) None demo_db =
      (fst (AddCensus (quiet 1) (Some [7]) (Some [2]) (Some 12) None demo_db), None)"
    by (metis prod.collapse)
  moreover have "demo_target 12 [8] \<in> set (targets demo_db)" by code_simp
  ultimately show ?thesis
    using AddCensus_foreign_target_blocks_DeleteEntity [of "quiet 1" "[7]" "[2]" 12 None demo_db _ "demo_target 12 [8]" "[8]" "quiet 2"]
    by (simp add: demo_target_def)
qed

end
