(* ===== verification/Database.thy ===== *)
theory Database
  imports PgCensus
begin

text \<open>
  The interface \<^verbatim>\<open>database.Database\<close> of \<^verbatim>\<open>database/database.go\<close> as a state machine: every method
  that writes is an operation, a history is a sequence of calls, each with its own surroundings.
  The contract of such a store is a locale; the PostgreSQL model is shown to meet it.
\<close>

section \<open>Operations\<close>

datatype dbop =
    DoAddEntity gobytes EntityInfo
  | DoDeleteEntity gobytes
  | DoAuthorizeEntity gobytes
  | DoUpdateEntity gobytes EntityInfo
  | DoAddUser User
  | DoCreateMembersWithTokens gobytes "uuid list"
  | DoCreateNMembers gobytes int
  | DoAddMember gobytes gobytes MemberInfo
  | DoImportMembersWithPubKey gobytes "MemberInfo list"
  | DoImportMembers gobytes "MemberInfo list"
  | DoAddMemberBulk gobytes "Member list"
  | DoUpdateMember gobytes "uuid option" MemberInfo
  | DoRegisterMember gobytes gobytes "uuid option"
  | DoDeleteMember gobytes "uuid option"
  | DoDeleteMembers gobytes "uuid list"
  | DoDeleteMembersByKeys gobytes "bytes list"
  | DoAddTag gobytes string
  | DoDeleteTag gobytes int
  | DoAddTagToMembers gobytes "uuid list" int
  | DoRemoveTagFromMembers gobytes "uuid list" int
  | DoAddTarget gobytes Target
  | DoAddCensus gobytes gobytes "uuid option" "CensusInfo option"
  | DoAddCensusWithMembers gobytes gobytes "uuid option" "CensusInfo option"
  | DoUpdateCensus gobytes gobytes "CensusInfo option"
  | DoDeleteCensus gobytes gobytes
  | DoExpandCensusMembers gobytes gobytes

text \<open>The state after a call; \<open>None\<close> when the method panics.\<close>

fun exec_op :: "ext \<Rightarrow> env \<Rightarrow> dbop \<Rightarrow> pgdb \<Rightarrow> pgdb option" where
  "exec_op x ev (DoAddEntity i info) db = Some (fst (AddEntity ev i info db))"
| "exec_op x ev (DoDeleteEntity i) db = Some (fst (DeleteEntity ev i db))"
| "exec_op x ev (DoAuthorizeEntity i) db = Some (fst (AuthorizeEntity ev i db))"
| "exec_op x ev (DoUpdateEntity i info) db = Some (fst (UpdateEntity ev i info db))"
| "exec_op x ev (DoAddUser u) db = Some (fst (AddUser ev 0 u db))"
| "exec_op x ev (DoCreateMembersWithTokens i ts) db = Some (fst (CreateMembersWithTokens ev i ts db))"
| "exec_op x ev (DoCreateNMembers i n) db = Some (fst (CreateNMembers ev i n db))"
| "exec_op x ev (DoAddMember i k info) db = map_option fst (AddMember ev x i k info db)"
| "exec_op x ev (DoImportMembersWithPubKey i info) db = map_option fst (ImportMembersWithPubKey ev x i info db)"
| "exec_op x ev (DoImportMembers i info) db = Some (fst (ImportMembers ev x i info db))"
| "exec_op x ev (DoAddMemberBulk i ms) db = Some (fst (AddMemberBulk ev x i ms db))"
| "exec_op x ev (DoUpdateMember i u info) db = Some (fst (UpdateMember ev x i u info db))"
| "exec_op x ev (DoRegisterMember i k u) db = Some (fst (RegisterMember ev x i k u db))"
| "exec_op x ev (DoDeleteMember i u) db = Some (fst (DeleteMember ev i u db))"
| "exec_op x ev (DoDeleteMembers i us) db = Some (fst (DeleteMembers ev i us db))"
| "exec_op x ev (DoDeleteMembersByKeys i ks) db = Some (fst (DeleteMembersByKeys ev i ks db))"
| "exec_op x ev (DoAddTag i n) db = Some (fst (AddTag ev i n db))"
| "exec_op x ev (DoDeleteTag i t) db = Some (fst (DeleteTag ev i t db))"
| "exec_op x ev (DoAddTagToMembers i us t) db = Some (fst (AddTagToMembers ev i us t db))"
| "exec_op x ev (DoRemoveTagFromMembers i us t) db = Some (fst (RemoveTagFromMembers ev i us t db))"
| "exec_op x ev (DoAddTarget i t) db = Some (fst (AddTarget ev x i t db))"
| "exec_op x ev (DoAddCensus i c t info) db = Some (fst (AddCensus ev i c t info db))"
| "exec_op x ev (DoAddCensusWithMembers i c t info) db = map_option fst (AddCensusWithMembers ev i c t info db)"
| "exec_op x ev (DoUpdateCensus i c info) db = Some (fst (UpdateCensus ev i c info db))"
| "exec_op x ev (DoDeleteCensus i c) db = Some (fst (DeleteCensus ev i c db))"
| "exec_op x ev (DoExpandCensusMembers i c) db = map_option fst (ExpandCensusMembers ev x i c db)"

text \<open>The entity on whose behalf an operation runs; adding a user is on nobody's.\<close>

fun on_behalf :: "dbop \<Rightarrow> gobytes" where
  "on_behalf (DoAddEntity i _) = i" | "on_behalf (DoDeleteEntity i) = i" | "on_behalf (DoAuthorizeEntity i) = i"
| "on_behalf (DoUpdateEntity i _) = i" | "on_behalf (DoAddUser _) = None"
| "on_behalf (DoCreateMembersWithTokens i _) = i" | "on_behalf (DoCreateNMembers i _) = i"
| "on_behalf (DoAddMember i _ _) = i" | "on_behalf (DoImportMembersWithPubKey i _) = i"
| "on_behalf (DoImportMembers i _) = i" | "on_behalf (DoAddMemberBulk i _) = i"
| "on_behalf (DoUpdateMember i _ _) = i" | "on_behalf (DoRegisterMember i _ _) = i"
| "on_behalf (DoDeleteMember i _) = i" | "on_behalf (DoDeleteMembers i _) = i"
| "on_behalf (DoDeleteMembersByKeys i _) = i" | "on_behalf (DoAddTag i _) = i" | "on_behalf (DoDeleteTag i _) = i"
| "on_behalf (DoAddTagToMembers i _ _) = i" | "on_behalf (DoRemoveTagFromMembers i _ _) = i"
| "on_behalf (DoAddTarget i _) = i" | "on_behalf (DoAddCensus i _ _ _) = i"
| "on_behalf (DoAddCensusWithMembers i _ _ _) = i" | "on_behalf (DoUpdateCensus i _ _) = i"
| "on_behalf (DoDeleteCensus i _) = i" | "on_behalf (DoExpandCensusMembers i _) = i"

section \<open>The contract of a store\<close>

text \<open>
  A store runs operations that may stop it, keeps an invariant, and shows each tenant a view that
  only the operations on its behalf can change.
\<close>

fun history :: "('op \<Rightarrow> 's \<Rightarrow> 's option) \<Rightarrow> 'op list \<Rightarrow> 's \<Rightarrow> 's option" where
  "history run [] s = Some s"
| "history run (op # ops) s = (case run op s of None \<Rightarrow> None | Some s' \<Rightarrow> history run ops s')"

locale store =
  fixes run :: "'op \<Rightarrow> 's \<Rightarrow> 's option"
    and inv :: "'s \<Rightarrow> bool"
  assumes run_inv: "inv s \<Longrightarrow> run op s = Some s' \<Longrightarrow> inv s'"
begin

lemma history_inv: "inv s \<Longrightarrow> history run ops s = Some s' \<Longrightarrow> inv s'"
  by (induction ops arbitrary: s) (auto split: option.splits dest: run_inv)

end

locale tenant_store = store run inv for run :: "'op \<Rightarrow> 's \<Rightarrow> 's option" and inv :: "'s \<Rightarrow> bool" +
  fixes owner :: "'op \<Rightarrow> 't"
    and view :: "'t \<Rightarrow> 's \<Rightarrow> 'v"
  assumes isolated: "inv s \<Longrightarrow> run op s = Some s' \<Longrightarrow> owner op \<noteq> t \<Longrightarrow> view t s' = view t s"
begin

lemma history_isolated:
  "inv s \<Longrightarrow> history run ops s = Some s' \<Longrightarrow> \<forall>op\<in>set ops. owner op \<noteq> t \<Longrightarrow> view t s' = view t s"
proof (induction ops arbitrary: s)
  case Nil
  then show ?case by simp
next
  case (Cons op ops)
  then obtain s1 where s1: "run op s = Some s1" "history run ops s1 = Some s'"
    by (auto split: option.splits)
  then have "view t s1 = view t s" using isolated Cons.prems by auto
  moreover have "view t s' = view t s1"
    using Cons.IH [OF run_inv [OF Cons.prems(1) s1(1)] s1(2)] Cons.prems(3) by simp
  ultimately show ?case by simp
qed

end

section \<open>The schema in every reachable state\<close>

text \<open>
  A reachable state: the freshly migrated database, then any calls with any arguments, at any time,
  with any failures of the server in between.
\<close>

inductive reachable :: "ext \<Rightarrow> pgdb \<Rightarrow> bool" for x :: ext where
  migrated: "reachable x empty_db"
| call: "reachable x db \<Longrightarrow> exec_op x ev op db = Some db' \<Longrightarrow> reachable x db'"

inductive_cases reachable_callE: "reachable x db"

lemma exec_op_wf: "wf_db db \<Longrightarrow> exec_op x ev op db = Some db' \<Longrightarrow> wf_db db'"
  by (cases op)
    (auto simp: wf_intros dest: AddMember_wf ImportMembersWithPubKey_wf AddCensusWithMembers_wf ExpandCensusMembers_wf)

section \<open>Tenants\<close>

text \<open>
  What the tables hold of one entity, and of all entities but one. An entry of a census belongs to
  the entity of the census.
\<close>

definition tenant_view :: "bytes \<Rightarrow> pgdb \<Rightarrow> (entity_row list \<times> (pg_origin \<times> bytes) list \<times> member_row list \<times>
    target_row list) \<times> census_row list \<times> tag_row list \<times> census_member_row list" where
  "tenant_view j db =
     ((filter (\<lambda>r. e_id r = j) (entities db), filter (\<lambda>r. snd r = j) (entities_origins db),
       filter (\<lambda>r. m_entity_id r = j) (members db), filter (\<lambda>r. t_entity_id r = j) (targets db)),
      filter (\<lambda>r. c_entity_id r = j) (censuses db), filter (\<lambda>r. g_entity_id r = j) (tags db),
      filter (\<lambda>r. x_census_id r \<in> set (entity_censuses j db)) (census_members db))"

definition same_others :: "bytes \<Rightarrow> pgdb \<Rightarrow> pgdb \<Rightarrow> bool" where
  "same_others i db db' \<longleftrightarrow>
     filter (\<lambda>r. e_id r \<noteq> i) (entities db') = filter (\<lambda>r. e_id r \<noteq> i) (entities db) \<and>
     filter (\<lambda>r. snd r \<noteq> i) (entities_origins db') = filter (\<lambda>r. snd r \<noteq> i) (entities_origins db) \<and>
     filter (\<lambda>r. m_entity_id r \<noteq> i) (members db') = filter (\<lambda>r. m_entity_id r \<noteq> i) (members db) \<and>
     filter (\<lambda>r. t_entity_id r \<noteq> i) (targets db') = filter (\<lambda>r. t_entity_id r \<noteq> i) (targets db) \<and>
     filter (\<lambda>r. c_entity_id r \<noteq> i) (censuses db') = filter (\<lambda>r. c_entity_id r \<noteq> i) (censuses db) \<and>
     filter (\<lambda>r. g_entity_id r \<noteq> i) (tags db') = filter (\<lambda>r. g_entity_id r \<noteq> i) (tags db) \<and>
     (\<forall>j. j \<noteq> i \<longrightarrow> filter (\<lambda>r. x_census_id r \<in> set (entity_censuses j db)) (census_members db') =
                   filter (\<lambda>r. x_census_id r \<in> set (entity_censuses j db)) (census_members db))"

lemma filter_eq_other:
  assumes "filter (\<lambda>r. f r \<noteq> i) xs = filter (\<lambda>r. f r \<noteq> i) ys" "j \<noteq> i"
  shows "filter (\<lambda>r. f r = j) xs = filter (\<lambda>r. f r = j) ys"
proof -
  have "filter (\<lambda>r. f r = j) zs = filter (\<lambda>r. f r = j) (filter (\<lambda>r. f r \<noteq> i) zs)" for zs
    using assms(2) by (auto intro!: filter_cong)
  then show ?thesis using assms(1) by metis
qed

lemma same_others_view: "same_others i db db' \<Longrightarrow> j \<noteq> i \<Longrightarrow> tenant_view j db' = tenant_view j db"
  using filter_eq_other [of e_id i "entities db'" "entities db" j]
    filter_eq_other [of snd i "entities_origins db'" "entities_origins db" j]
    filter_eq_other [of m_entity_id i "members db'" "members db" j]
    filter_eq_other [of t_entity_id i "targets db'" "targets db" j]
    filter_eq_other [of c_entity_id i "censuses db'" "censuses db" j]
    filter_eq_other [of g_entity_id i "tags db'" "tags db" j]
  by (simp add: same_others_def tenant_view_def entity_censuses_def)

text \<open>The member and the census of an entry belong to the same entity.\<close>

definition member_owners :: "pgdb \<Rightarrow> (uuid \<times> bytes) set" where
  "member_owners db = (\<lambda>r. (m_id r, m_entity_id r)) ` set (members db)"

definition census_owners :: "pgdb \<Rightarrow> (bytes \<times> bytes) set" where
  "census_owners db = (\<lambda>r. (c_id r, c_entity_id r)) ` set (censuses db)"

definition census_owned :: "pgdb \<Rightarrow> bool" where
  "census_owned db \<longleftrightarrow> (\<forall>x\<in>set (census_members db). \<forall>e e'. (x_member_id x, e) \<in> member_owners db \<longrightarrow>
     (x_census_id x, e') \<in> census_owners db \<longrightarrow> e = e')"

text \<open>
  A change on behalf of \<open>i\<close>: the rows of the others stay, new members and censuses have new
  identifiers, new census entries join a member and a census of \<open>i\<close>.
\<close>

definition local_change :: "bytes \<Rightarrow> pgdb \<Rightarrow> pgdb \<Rightarrow> bool" where
  "local_change i db db' \<longleftrightarrow> same_others i db db' \<and>
     (\<forall>(u, e)\<in>member_owners db'. (u, e) \<in> member_owners db \<or> u \<notin> set (member_ids db)) \<and>
     (\<forall>(c, e)\<in>census_owners db'. (c, e) \<in> census_owners db \<or> c \<notin> set (census_ids db)) \<and>
     (\<forall>x\<in>set (census_members db'). x \<in> set (census_members db) \<or>
        (x_member_id x, i) \<in> member_owners db' \<and> (x_census_id x, i) \<in> census_owners db')"

lemma owners_unique:
  assumes "wf_db db"
  shows "(u, e) \<in> member_owners db \<Longrightarrow> (u, e') \<in> member_owners db \<Longrightarrow> e = e'"
    and "(c, e) \<in> census_owners db \<Longrightarrow> (c, e') \<in> census_owners db \<Longrightarrow> e = e'"
proof -
  have un: "uniq m_key (members db)" "uniq c_key (censuses db)"
    using assms by (simp_all add: wf_db_def wf_members_def wf_censuses_def)
  show "(u, e) \<in> member_owners db \<Longrightarrow> (u, e') \<in> member_owners db \<Longrightarrow> e = e'"
    using uniq_sameD [OF un(1)] by (fastforce simp: member_owners_def m_key_def)
  show "(c, e) \<in> census_owners db \<Longrightarrow> (c, e') \<in> census_owners db \<Longrightarrow> e = e'"
    using uniq_sameD [OF un(2)] by (fastforce simp: census_owners_def c_key_def)
qed

lemma local_change_owned:
  assumes "wf_db db" "wf_db db'" "census_owned db" "local_change i db db'"
  shows "census_owned db'"
  unfolding census_owned_def
proof (intro ballI allI impI)
  fix x e e'
  assume x: "x \<in> set (census_members db')" and e: "(x_member_id x, e) \<in> member_owners db'"
    and e': "(x_census_id x, e') \<in> census_owners db'"
  show "e = e'"
  proof (cases "x \<in> set (census_members db)")
    case True
    have "x_member_id x \<in> set (member_ids db)" "x_census_id x \<in> set (census_ids db)"
      using assms(1) True by (auto simp: wf_db_def wf_census_members_def refs_iff x_member_def x_census_def)
    then have "(x_member_id x, e) \<in> member_owners db" "(x_census_id x, e') \<in> census_owners db"
      using assms(4) e e' unfolding local_change_def by auto
    then show ?thesis using assms(3) True by (auto simp: census_owned_def)
  next
    case False
    then have "(x_member_id x, i) \<in> member_owners db'" "(x_census_id x, i) \<in> census_owners db'"
      using assms(4) x unfolding local_change_def by auto
    then show ?thesis using owners_unique [OF assms(2)] e e' by metis
  qed
qed

section \<open>Every operation is local to its entity\<close>

lemmas local_defs = local_change_def same_others_def member_owners_def census_owners_def entity_censuses_def

lemma local_refl [simp]: "local_change i db db"
  by (auto simp: local_change_def same_others_def)

lemma local_leak [simp]: "local_change i db (leak db') = local_change i db db'"
  by (simp add: local_defs)

lemma local_users [simp]: "local_change i db (db'\<lparr>users := us\<rparr>) = local_change i db db'"
  "local_change i (db\<lparr>users := us\<rparr>) db' = local_change i db db'"
  by (simp_all add: local_defs)

lemma local_with_user [simp]: "local_change i (with_user ev k db) db' = local_change i db db'"
  by (simp add: local_defs)

lemma local_seq [simp]: "local_change i db (db'\<lparr>tags_seq := n\<rparr>) = local_change i db db'"
  by (simp add: local_defs)

lemma filter_map_own:
  assumes "\<And>r. p r \<Longrightarrow> f r = i" "\<And>r. f (g r) = f r"
  shows "filter (\<lambda>r. f r \<noteq> i) (map (\<lambda>r. if p r then g r else r) rs) = filter (\<lambda>r. f r \<noteq> i) rs"
  using assms by (induction rs) auto

lemma local_update_entities:
  assumes "\<And>r. p r \<Longrightarrow> e_id r = i" "\<And>r. e_id (g r) = e_id r"
  shows "local_change i db (update_entities p g db)"
  using filter_map_own [of p e_id i g "entities db"] assms by (auto simp: local_defs update_entities_def)

lemma local_update_members:
  assumes "\<And>r. p r \<Longrightarrow> m_entity_id r = i" "\<And>r. m_entity_id (g r) = m_entity_id r" "\<And>r. m_id (g r) = m_id r"
  shows "local_change i db (update_members p g db)"
  using filter_map_own [of p m_entity_id i g "members db"] assms by (auto simp: local_defs update_members_def)

lemma local_update_censuses:
  assumes "\<And>r. p r \<Longrightarrow> c_entity_id r = i" "\<And>r. c_entity_id (g r) = c_entity_id r" "\<And>r. c_id (g r) = c_id r"
  shows "local_change i db (update_censuses p g db)"
  using filter_map_own [of p c_entity_id i g "censuses db"] assms by (auto simp: local_defs update_censuses_def)

lemma local_add_members:
  assumes "wf_db (db\<lparr>members := members db @ rows\<rparr>)" "\<forall>r\<in>set rows. m_entity_id r = i"
  shows "local_change i db (db\<lparr>members := members db @ rows\<rparr>)"
proof -
  have "uniq m_key (members db @ rows)" using assms(1) by (simp add: wf_db_def wf_members_def)
  then show ?thesis using assms(2) by (auto simp: local_defs uniq_m_key_append filter_empty_conv)
qed

lemma local_add_census:
  assumes "wf_db (db\<lparr>censuses := censuses db @ [row]\<rparr>)" "c_entity_id row = i"
  shows "local_change i db (db\<lparr>censuses := censuses db @ [row]\<rparr>)"
  using assms by (auto simp: local_defs wf_db_def wf_censuses_def clash_def c_key_def list_ex_iff)

lemma local_add_target: "t_entity_id row = i \<Longrightarrow> local_change i db (db\<lparr>targets := targets db @ [row]\<rparr>)"
  by (auto simp: local_defs)

lemma local_add_tag: "g_entity_id row = i \<Longrightarrow> local_change i db (db\<lparr>tags_seq := n, tags := tags db @ [row]\<rparr>)"
  by (auto simp: local_defs)

text \<open>
  Deleting members takes their census entries along: those of other entities' censuses would be
  lost, were there any. The same holds for deleted censuses.
\<close>

lemma foreign_entry_member:
  assumes "census_owned db" "x \<in> set (census_members db)" "j \<noteq> i" "x_census_id x \<in> set (entity_censuses j db)"
    and "r \<in> set (members db)" "m_entity_id r = i"
  shows "x_member_id x \<noteq> m_id r"
proof
  assume "x_member_id x = m_id r"
  then have "(x_member_id x, i) \<in> member_owners db" using assms(5,6) by (auto simp: member_owners_def)
  moreover have "(x_census_id x, j) \<in> census_owners db"
    using assms(4) by (auto simp: entity_censuses_def census_owners_def)
  ultimately show False using assms(1-3) by (auto simp: census_owned_def)
qed

lemma foreign_entry_census:
  assumes "wf_db db" "j \<noteq> i" "c \<in> set (entity_censuses j db)" "r \<in> set (censuses db)" "c_entity_id r = i"
  shows "c \<noteq> c_id r"
proof -
  have "(c, j) \<in> census_owners db" "(c_id r, i) \<in> census_owners db"
    using assms(3-) by (auto simp: entity_censuses_def census_owners_def)
  then show ?thesis using owners_unique(2) [OF assms(1)] assms(2) by blast
qed

lemma local_delete_members:
  assumes "wf_db db" "census_owned db" "\<And>r. p r \<Longrightarrow> m_entity_id r = i"
  shows "local_change i db (delete_members_where p db)"
proof -
  have "\<forall>j. j \<noteq> i \<longrightarrow> filter (\<lambda>r. x_census_id r \<in> set (entity_censuses j db)) (census_members (delete_members_where p db)) =
      filter (\<lambda>r. x_census_id r \<in> set (entity_censuses j db)) (census_members db)"
  proof -
    have "x_member_id x \<notin> m_id ` {r \<in> set (members db). p r}"
      if "x \<in> set (census_members db)" "j \<noteq> i" "x_census_id x \<in> set (entity_censuses j db)" for x j
      using foreign_entry_member [OF assms(2) that] assms(3) by blast
    then show ?thesis by (auto simp: delete_members_where_def Let_def intro!: filter_cong)
  qed
  moreover have "filter (\<lambda>r. m_entity_id r \<noteq> i) (members (delete_members_where p db)) =
      filter (\<lambda>r. m_entity_id r \<noteq> i) (members db)"
    using assms(3) by (auto simp: delete_members_where_def Let_def intro!: filter_cong)
  ultimately show ?thesis
    by (auto simp: local_change_def same_others_def member_owners_def census_owners_def delete_members_where_def Let_def)
qed

lemma local_delete_censuses:
  assumes "wf_db db" "\<And>r. p r \<Longrightarrow> c_entity_id r = i"
  shows "local_change i db (delete_censuses_where p db)"
proof -
  have "\<forall>j. j \<noteq> i \<longrightarrow> filter (\<lambda>r. x_census_id r \<in> set (entity_censuses j db)) (census_members (delete_censuses_where p db)) =
      filter (\<lambda>r. x_census_id r \<in> set (entity_censuses j db)) (census_members db)"
  proof -
    have "x_census_id x \<notin> c_id ` {r \<in> set (censuses db). p r}"
      if "j \<noteq> i" "x_census_id x \<in> set (entity_censuses j db)" for x j
      using foreign_entry_census [OF assms(1) that] assms(2) by blast
    then show ?thesis by (auto simp: delete_censuses_where_def Let_def intro!: filter_cong)
  qed
  moreover have "filter (\<lambda>r. c_entity_id r \<noteq> i) (censuses (delete_censuses_where p db)) =
      filter (\<lambda>r. c_entity_id r \<noteq> i) (censuses db)"
    using assms(2) by (auto simp: delete_censuses_where_def Let_def intro!: filter_cong)
  ultimately show ?thesis
    by (auto simp: local_change_def same_others_def member_owners_def census_owners_def delete_censuses_where_def Let_def)
qed

lemma local_delete_entity_row:
  assumes "wf_db db" "census_owned db" "delete_entity_row i db = Inr db'"
  shows "local_change i db db'"
proof -
  have d: "entities db' = filter (\<lambda>r. e_id r \<noteq> i) (entities db)"
    "entities_origins db' = filter (\<lambda>r. snd r \<noteq> i) (entities_origins db)"
    "members db' = filter (\<lambda>r. m_entity_id r \<noteq> i) (members db)"
    "targets db' = filter (\<lambda>r. t_entity_id r \<noteq> i) (targets db)"
    "censuses db' = filter (\<lambda>r. c_entity_id r \<noteq> i) (censuses db)"
    "tags db' = filter (\<lambda>r. g_entity_id r \<noteq> i) (tags db)"
    "census_members db' = filter (\<lambda>x. x_member_id x \<notin> set (entity_members i db) \<and>
       x_census_id x \<notin> set (entity_censuses i db)) (census_members db)"
    using assms(3) by (auto simp: delete_entity_row_def delete_censuses_where_def delete_members_where_def Let_def
        entity_members_def entity_censuses_def intro!: filter_cong split: if_splits)
  have ids: "set (entity_members i db) = m_id ` {r \<in> set (members db). m_entity_id r = i}"
    "set (entity_censuses i db) = c_id ` {r \<in> set (censuses db). c_entity_id r = i}"
    by (auto simp: entity_members_def entity_censuses_def)
  have "x_member_id x \<notin> set (entity_members i db) \<and> x_census_id x \<notin> set (entity_censuses i db)"
    if "x \<in> set (census_members db)" "j \<noteq> i" "x_census_id x \<in> set (entity_censuses j db)" for x j
    using foreign_entry_member [OF assms(2) that] foreign_entry_census [OF assms(1) that(2,3)]
    unfolding ids by blast
  then have "\<forall>j. j \<noteq> i \<longrightarrow> filter (\<lambda>r. x_census_id r \<in> set (entity_censuses j db)) (census_members db') =
      filter (\<lambda>r. x_census_id r \<in> set (entity_censuses j db)) (census_members db)"
    by (auto simp: d(7) intro!: filter_cong)
  then show ?thesis
    by (auto simp: local_change_def same_others_def member_owners_def census_owners_def d)
qed

text \<open>The rows of an INSERT of members carry the entity of the values.\<close>

lemma bts_simps [simp]: "bts (Some b) = b" "bts None = []"
  by (simp_all add: bts_def)

lemma member_value_entity:
  "member_value x t u p = Inr row \<Longrightarrow> m_entity_id row = bts (mb_EntityID (pm_Member p))"
  by (auto simp: member_value_def Let_def split: option.splits if_splits)

lemma local_insert_member_values:
  assumes "insert_member_values vs db = Inr tx" "wf_db db" "\<forall>v\<in>set vs. \<forall>row. v = Inr row \<longrightarrow> m_entity_id row = i"
  shows "local_change i db tx"
proof -
  have "wf_db tx" using assms(1,2) by (rule insert_member_values_wf)
  from assms(1) obtain rows where "vs = map Inr rows" "tx = db\<lparr>members := members db @ rows\<rparr>"
    by (rule insert_member_values_Inr)
  then show ?thesis using assms(3) \<open>wf_db tx\<close> by (auto intro!: local_add_members)
qed

lemma local_bulk_members:
  assumes "bulkInsert (batch_exec ev k insert_member_values) (member_values ev x ps) 12 db = Inr tx" "wf_db db"
    and "\<forall>p\<in>set ps. bts (mb_EntityID (pm_Member p)) = i"
  shows "local_change i db tx"
proof (rule local_insert_member_values [OF _ assms(2)])
  show "insert_member_values (member_values ev x ps) db = Inr tx"
    using assms(1) by (rule bulk_members_sound [rotated 2]) simp_all
  show "\<forall>v\<in>set (member_values ev x ps). \<forall>row. v = Inr row \<longrightarrow> m_entity_id row = i"
    using assms(3) by (auto simp: member_values_def dest!: member_value_entity in_set_enumerate_eq [THEN iffD1])
qed

lemma zero_Member_entity [simp]: "mb_EntityID zero_Member = None"
  by (simp add: zero_Member_def)

lemma pg_members_entity: "pg_members x i infos = Inr ps \<Longrightarrow> p \<in> set ps \<Longrightarrow> mb_EntityID (pm_Member p) = i"
  by (induction infos arbitrary: ps) (auto split: sum.splits dest!: ToPGMember_Inr(1))

lemma users_self [simp]: "\<exists>us. db = db\<lparr>users := us\<rparr>"
  by (rule exI [of _ "users db"]) simp

lemma import_users_loop_local:
  "import_users_loop ev x i idx infos keys db = (db1, r) \<Longrightarrow> (\<exists>us. db1 = db\<lparr>users := us\<rparr>) \<and>
   (\<forall>ps. r = Inr ps \<longrightarrow> (\<forall>p\<in>set ps. mb_EntityID (pm_Member p) = i))"
proof (induction ev x i idx infos keys db arbitrary: db1 r rule: import_users_loop.induct)
  case (1 ev x i idx member info key keys db)
  have u: "\<exists>us. fst (AddUser ev k u db) = db\<lparr>users := us\<rparr>" for k u
    by (auto simp: AddUser_def Let_def insert_users_def ins_user.insert_stmt_one user_add_def split: option.splits sum.splits)
  obtain d1 e where au: "AddUser ev (2 + idx) \<lparr>us_CreatedAt = zero_time, us_UpdatedAt = zero_time,
              us_PubKey = Some (fst key), us_DigestedPubKey = None\<rparr> db = (d1, e)" by fastforce
  obtain us where d1: "d1 = db\<lparr>users := us\<rparr>" using u au by (metis fst_conv)
  show ?case
  proof (cases e)
    case (Some er)
    then show ?thesis using 1 au d1 by auto
  next
    case None
    then show ?thesis
    proof (cases "ToPGMember x (zero_Member\<lparr>mb_EntityID := i, mb_PubKey := Some (fst key), mb_Info := member\<rparr>)")
      case (Inl er)
      then show ?thesis using 1 au d1 None by auto
    next
      case (Inr pg)
      obtain d2 r2 where l: "import_users_loop ev x i (Suc idx) info keys d1 = (d2, r2)" by fastforce
      note IH = "1.IH" [OF au [symmetric] None Inr l]
      show ?thesis using IH "1.prems" au None Inr l d1 ToPGMember_Inr(1) [OF Inr]
        by (auto split: sum.splits)
    qed
  qed
qed auto

lemma bulk_members_loop_entity:
  "bulk_members_loop ev x i ms = Inr (us, ps) \<Longrightarrow> p \<in> set ps \<Longrightarrow> bts (mb_EntityID (pm_Member p)) = bts i"
proof (induction ms arbitrary: us ps)
  case Nil
  then show ?case by simp
next
  case (Cons m ms)
  then show ?case
    by (auto simp: Let_def bytes_Equal_def split: if_splits sum.splits dest!: ToPGMember_Inr(1))
qed

text \<open>Operation by operation.\<close>

lemma local_AddEntity: "local_change (bts i) db (fst (AddEntity ev i info db))"
proof (cases "snd (AddEntity ev i info db)")
  case None
  then have "AddEntity ev i info db = (fst (AddEntity ev i info db), None)" by (metis prod.collapse)
  then show ?thesis by (rule AddEntity_None) (auto simp: local_defs filter_empty_conv)
next
  case (Some e)
  then show ?thesis by (auto simp: AddEntity_def Let_def split: option.splits sum.splits if_splits)
qed

lemma local_UpdateEntity: "local_change (bts i) db (fst (UpdateEntity ev i info db))"
  by (auto simp: UpdateEntity_def Let_def e_key_def split: option.splits intro!: local_update_entities)

lemma local_AuthorizeEntity: "local_change (bts i) db (fst (AuthorizeEntity ev i db))"
  by (auto simp: AuthorizeEntity_def Let_def e_key_def split: option.splits intro!: local_update_entities)

lemma local_DeleteEntity: "wf_db db \<Longrightarrow> census_owned db \<Longrightarrow> local_change (bts i) db (fst (DeleteEntity ev i db))"
  by (auto simp: DeleteEntity_def split: option.splits sum.splits intro: local_delete_entity_row)

lemma local_AddUser: "local_change i db (fst (AddUser ev k u db))"
  by (auto simp: AddUser_def Let_def insert_users_def ins_user.insert_stmt_one user_add_def split: option.splits sum.splits)

lemma local_CreateMembersWithTokens:
  assumes "wf_db db"
  shows "local_change (bts i) db (fst (CreateMembersWithTokens ev i ts db))"
proof -
  have "local_change (bts i) db tx" if "insert_member_values (map (token_value (now ev) i) ts) db = Inr tx" for tx
    by (rule local_insert_member_values [OF that assms]) (auto simp: token_value_def split: option.splits)
  then show ?thesis
    by (auto simp: CreateMembersWithTokens_def split: option.splits sum.splits dest: bulk_members_sound [rotated 2])
qed

lemma local_CreateNMembers: "wf_db db \<Longrightarrow> local_change (bts i) db (fst (CreateNMembers ev i n db))"
  using local_CreateMembersWithTokens [of db i ev "map (fresh ev) [0..<nat n]"]
  by (auto simp: CreateNMembers_def Let_def split: prod.splits)

lemma local_AddMember:
  assumes "wf_db db" "AddMember ev x i k info db = Some (db', r)"
  shows "local_change (bts i) db db'"
proof (cases r)
  case (Inl e)
  then show ?thesis using assms(2)
    by (auto simp: AddMember_def Let_def split: option.splits sum.splits prod.splits dberror.splits)
next
  case (Inr u)
  from assms(2) [unfolded Inr] obtain p where tx: "tx_add_member ev x p (with_user ev k db) = Inr (db', u)"
    and p: "ToPGMember x (zero_Member\<lparr>mb_EntityID := i, mb_PubKey := k, mb_Info := info\<rparr>) = Inr p"
    by (rule AddMember_Inr)
  from tx obtain row where row: "member_value x (now ev) u p = Inr row"
    "db' = (with_user ev k db)\<lparr>members := members (with_user ev k db) @ [row]\<rparr>"
    by (rule tx_add_member_Inr)
  have "wf_db db'" using assms(2,1) by (rule AddMember_wf)
  then have "local_change (bts i) (with_user ev k db) db'"
    unfolding row(2) by (rule local_add_members)
      (use member_value_entity [OF row(1)] ToPGMember_Inr(1) [OF p] in simp)
  then show ?thesis by simp
qed

lemma local_ImportMembers: "wf_db db \<Longrightarrow> local_change (bts i) db (fst (ImportMembers ev x i info db))"
  by (auto simp: ImportMembers_def split: option.splits sum.splits dberror.splits
      intro: local_bulk_members dest: pg_members_entity)

lemma local_ImportMembersWithPubKey:
  assumes "wf_db db" "ImportMembersWithPubKey ev x i info db = Some (db', r)"
  shows "local_change (bts i) db db'"
proof (cases "info = [] \<or> createEthRandomKeysBatch ev (length info) = None")
  case True
  then show ?thesis using assms(2) by (auto simp: ImportMembersWithPubKey_def split: if_splits)
next
  case False
  then obtain keys where keys: "info \<noteq> []" "createEthRandomKeysBatch ev (length info) = Some keys" by auto
  obtain db1 q where l: "import_users_loop ev x i 0 info keys db = (db1, q)" by fastforce
  from import_users_loop_local [OF l] obtain us where us: "db1 = db\<lparr>users := us\<rparr>"
    and ps: "\<And>ps p. q = Inr ps \<Longrightarrow> p \<in> set ps \<Longrightarrow> mb_EntityID (pm_Member p) = i" by blast
  have "wf_db db1" using import_users_loop_wf' [OF l assms(1)] .
  then have "local_change (bts i) db1 tx"
    if "bulkInsert (batch_exec ev (2 + length info) insert_member_values) (member_values ev x pms) 12 db1 = Inr tx" "q = Inr pms"
    for tx pms
    using that ps by (intro local_bulk_members [OF that(1)]) auto
  moreover have "local_change (bts i) db db1" by (simp add: us)
  ultimately show ?thesis using assms(2) keys l us
    by (auto simp: ImportMembersWithPubKey_def split: option.splits sum.splits)
qed

lemma local_AddMemberBulk:
  assumes "wf_db db"
  shows "local_change (bts i) db (fst (AddMemberBulk ev x i ms db))"
proof -
  have "local_change (bts i) db tx2"
    if l: "bulk_members_loop ev x i ms = Inr (us, ps)" and u: "bulkInsert (batch_exec ev 2 insert_user_values) us 4 db = Inr tx1"
      and m: "bulkInsert (batch_exec ev (2 + length ms) insert_member_values) (member_values ev x ps) 12 tx1 = Inr tx2"
    for us ps tx1 tx2
  proof -
    have ins: "insert_user_values us db = Inr tx1" using u by (rule bulk_users_sound [rotated 2]) simp_all
    then have wf1: "wf_db tx1" using assms by (rule insert_user_values_wf)
    from ins obtain rows where "tx1 = db\<lparr>users := users db @ rows\<rparr>" by (rule insert_user_values_Inr)
    moreover have "local_change (bts i) tx1 tx2"
      by (rule local_bulk_members [OF m wf1]) (use bulk_members_loop_entity [OF l] in blast)
    ultimately show ?thesis by simp
  qed
  then show ?thesis by (auto simp: AddMemberBulk_def split: option.splits sum.splits)
qed

lemma local_UpdateMember: "local_change (bts i) db (fst (UpdateMember ev x i u info db))"
  by (auto simp: UpdateMember_def Let_def member_set_def m_entity_def split: option.splits sum.splits
      dest!: update_members_checked_Inr intro!: local_update_members)

lemma local_RegisterMember: "local_change (bts i) db (fst (RegisterMember ev x i k u db))"
proof (cases "snd (RegisterMember ev x i k u db)")
  case None
  then have "RegisterMember ev x i k u db = (fst (RegisterMember ev x i k u db), None)" by (metis prod.collapse)
  then obtain v where "tx_register_member ev i k v (with_user ev k db) = Inr (fst (RegisterMember ev x i k u db))"
    by (rule RegisterMember_None)
  then have "fst (RegisterMember ev x i k u db) = update_members (\<lambda>r. m_id r = v \<and> sql_eq i (m_entity r))
      (\<lambda>r. r\<lparr>m_public_key := k, m_updated_at := now ev, m_verified := now ev\<rparr>) (with_user ev k db)"
    by (auto simp: tx_register_member_def Let_def split: option.splits sum.splits if_splits
        dest!: update_members_checked_Inr)
  then have "local_change (bts i) (with_user ev k db) (fst (RegisterMember ev x i k u db))"
    by (simp only:) (rule local_update_members, auto simp: m_entity_def)
  then show ?thesis by simp
next
  case (Some e)
  then show ?thesis
    by (auto simp: RegisterMember_def split: option.splits sum.splits prod.splits dberror.splits)
qed

lemma local_DeleteMember: "wf_db db \<Longrightarrow> census_owned db \<Longrightarrow> local_change (bts i) db (fst (DeleteMember ev i u db))"
  by (auto simp: DeleteMember_def Let_def m_entity_def split: option.splits intro!: local_delete_members)

lemma local_DeleteMembers: "wf_db db \<Longrightarrow> census_owned db \<Longrightarrow> local_change (bts i) db (fst (DeleteMembers ev i us db))"
  by (auto simp: DeleteMembers_def Let_def split: option.splits intro!: local_delete_members)

lemma local_DeleteMembersByKeys:
  "wf_db db \<Longrightarrow> census_owned db \<Longrightarrow> local_change (bts i) db (fst (DeleteMembersByKeys ev i ks db))"
  by (auto simp: DeleteMembersByKeys_def Let_def split: option.splits intro!: local_delete_members)

lemma local_AddTag: "local_change (bts i) db (fst (AddTag ev i n db))"
proof -
  have "local_change (bts i) db (fst (insert_tag t i n db))" for t
    by (auto simp: insert_tag_def Let_def insert_tags_def ins_tag.insert_stmt_one tag_add_def
        split: option.splits sum.splits intro!: local_add_tag)
  then show ?thesis by (auto simp: AddTag_def split: option.splits prod.splits) (metis fst_conv)+
qed

lemma local_DeleteTag: "local_change (bts i) db (fst (DeleteTag ev i t db))"
proof -
  have "local_change (bts i) db (db'\<lparr>tags := filter (\<lambda>r. \<not> (g_id r = t \<and> g_entity_id r = bts i)) (tags db')\<rparr>)"
    if "local_change (bts i) db db'" for db'
  proof -
    have "filter (\<lambda>r. g_entity_id r \<noteq> bts i) (filter (\<lambda>r. g_id r = t \<longrightarrow> g_entity_id r \<noteq> bts i) ts) =
        filter (\<lambda>r. g_entity_id r \<noteq> bts i) ts" for ts :: "tag_row list"
      by (induction ts) auto
    then show ?thesis using that by (simp add: local_defs del: filter_filter)
  qed
  then have "local_change (bts i) db (delete_tag_rows (bts i) t db)"
    unfolding delete_tag_rows_def Let_def by (rule meta_mp) (rule local_update_members, auto)
  then show ?thesis by (auto simp: DeleteTag_def split: option.splits sum.splits dberror.splits)
qed

lemma local_AddTagToMembers: "local_change (bts i) db (fst (AddTagToMembers ev i us t db))"
  by (auto simp: AddTagToMembers_def tag_members_stmt_def Let_def split: option.splits sum.splits dberror.splits prod.splits
      intro!: local_update_members)

lemma local_RemoveTagFromMembers: "local_change (bts i) db (fst (RemoveTagFromMembers ev i us t db))"
  by (auto simp: RemoveTagFromMembers_def tag_members_stmt_def Let_def split: option.splits sum.splits dberror.splits prod.splits
      intro!: local_update_members)

lemma local_AddTarget: "local_change (bts i) db (fst (AddTarget ev x i t db))"
  by (auto simp: AddTarget_def Let_def insert_targets_def ins_target.insert_stmt_one target_add_def
      split: option.splits sum.splits if_splits intro!: local_add_target)

lemma local_insert_census:
  assumes "insert_census t (bts i) c u info e db = Inr db'" "wf_db db"
  shows "local_change (bts i) db db'"
proof -
  have "wf_db db'" using assms by (rule insert_census_wf)
  from assms(1) obtain row where "c_entity_id row = bts i" "db' = db\<lparr>censuses := censuses db @ [row]\<rparr>"
    by (rule insert_census_Inr)
  then show ?thesis using \<open>wf_db db'\<close> local_add_census by blast
qed

lemma local_AddCensus: "wf_db db \<Longrightarrow> local_change (bts i) db (fst (AddCensus ev i c t info db))"
  by (auto simp: AddCensus_def Let_def split: option.splits sum.splits intro: local_insert_census)

lemma local_UpdateCensus: "local_change (bts i) db (fst (UpdateCensus ev i c info db))"
  by (auto simp: UpdateCensus_def Let_def c_entity_def split: option.splits intro!: local_update_censuses)

lemma local_DeleteCensus: "wf_db db \<Longrightarrow> local_change (bts i) db (fst (DeleteCensus ev i c db))"
  by (auto simp: DeleteCensus_def Let_def c_entity_def split: option.splits intro!: local_delete_censuses)

text \<open>Entries that join members and a census of the entity are local, and so is the new size.\<close>

lemma census_owners_map:
  assumes "\<And>r. c_entity_id (g r) = c_entity_id r" "\<And>r. c_id (g r) = c_id r"
  shows "census_owners (db\<lparr>census_members := cm, censuses := map (\<lambda>r. if p r then g r else r) (censuses db)\<rparr>) =
    census_owners db"
proof -
  have "(c_id (if p r then g r else r), c_entity_id (if p r then g r else r)) = (c_id r, c_entity_id r)" for r
    using assms by simp
  moreover have "censuses (db\<lparr>census_members := cm, censuses := map (\<lambda>r. if p r then g r else r) (censuses db)\<rparr>) =
      map (\<lambda>r. if p r then g r else r) (censuses db)" by simp
  ultimately show ?thesis by (simp only: census_owners_def image_image set_map)
qed

lemma local_add_entries:
  assumes "wf_db db" "\<forall>x\<in>set rows. x_census_id x = c \<and> (x_member_id x, i) \<in> member_owners db"
    and "(c, i) \<in> census_owners db" "\<And>r. p r \<Longrightarrow> r \<in> set (censuses db) \<Longrightarrow> c_entity_id r = i"
    and "\<And>r. c_entity_id (g r) = c_entity_id r" "\<And>r. c_id (g r) = c_id r"
  shows "local_change i db (db\<lparr>census_members := census_members db @ rows,
    censuses := map (\<lambda>r. if p r then g r else r) (censuses db)\<rparr>)"
proof -
  have "c \<notin> set (entity_censuses j db)" if "j \<noteq> i" for j
  proof
    assume "c \<in> set (entity_censuses j db)"
    then have "(c, j) \<in> census_owners db" by (auto simp: entity_censuses_def census_owners_def)
    then show False using that assms(3) owners_unique(2) [OF assms(1)] by blast
  qed
  then have e: "filter (\<lambda>r. x_census_id r \<in> set (entity_censuses j db)) rows = []" if "j \<noteq> i" for j
    using that assms(2) by (auto simp: filter_empty_conv)
  have f: "filter (\<lambda>r. c_entity_id r \<noteq> i) (map (\<lambda>r. if p r then g r else r) rs) = filter (\<lambda>r. c_entity_id r \<noteq> i) rs"
    if "set rs \<subseteq> set (censuses db)" for rs
    using that assms(4,5) by (induction rs) auto
  show ?thesis
    unfolding local_change_def census_owners_map [OF assms(5,6)] using assms(2,3) e f [of "censuses db"]
    by (auto simp: same_others_def member_owners_def)
qed

lemma local_expand_tx:
  assumes "wf_db db" "ExpandCensusMembers ev x (Some i) (Some c) db = Some (db', Inr cms)"
  shows "local_change i db db'"
proof -
  from assms(2) have tx: "expand_tx ev (Some i) (Some c) cms db = (db', Inr cms)"
    by (rule ExpandCensusMembers_Inr)
  from expand_census_effect [OF assms] obtain r where r: "r \<in> set (censuses db)" "c_id r = c" "c_entity_id r = i"
    and m: "set (map cm_MemberID cms) = {m_id m |m. m \<in> set (members db) \<and> m_entity_id m = i \<and>
      (ValidPubKey x (m_public_key m) \<or> c_ephemeral r)}" and c: "\<forall>y\<in>set cms. cm_CensusID y = Some c"
    by blast
  have own: "(cm_MemberID y, i) \<in> member_owners db" if "y \<in> set cms" for y
  proof -
    have "cm_MemberID y \<in> set (map cm_MemberID cms)" using that by simp
    then show ?thesis unfolding m member_owners_def by auto
  qed
  have "(c, i) \<in> census_owners db" using r by (auto simp: census_owners_def)
  then show ?thesis unfolding expand_tx_Inr(3) [OF tx]
    by (intro local_add_entries [OF assms(1)]) (use own c in \<open>auto simp: census_member_value_def\<close>)
qed

lemma local_ExpandCensusMembers:
  assumes "wf_db db" "ExpandCensusMembers ev x i c db = Some (db', r)"
  shows "local_change (bts i) db db'"
proof (cases r)
  case (Inl e)
  have "rolled_back db (fst (expand_tx ev i c cms db))" if "snd (expand_tx ev i c cms db) = Inl e" for cms
    using that by (auto simp: expand_tx_def Let_def split: option.splits sum.splits if_splits)
  then have "rolled_back db db'" using assms(2) Inl
    by (auto simp: ExpandCensusMembers_def split: sum.splits option.splits) (metis fst_conv snd_conv)
  then show ?thesis by (auto simp: rolled_back_def)
next
  case (Inr cms)
  then obtain i' c' where "i = Some i'" "c = Some c'" using assms(2)
    by (cases i; cases c) (auto simp: ExpandCensusMembers_def Census_def slen_def split: sum.splits)
  then show ?thesis using local_expand_tx [OF assms(1)] assms(2) Inr by auto
qed

lemma same_others_trans:
  assumes "same_others i db d1" "same_others i d1 d2"
  shows "same_others i db d2"
proof -
  have "entity_censuses j d1 = entity_censuses j db" if "j \<noteq> i" for j
    using assms(1) that filter_eq_other [of c_entity_id i "censuses d1" "censuses db" j]
    by (simp add: same_others_def entity_censuses_def)
  then show ?thesis using assms by (simp add: same_others_def)
qed

text \<open>Two local changes of which none deletes make one.\<close>

lemma local_trans:
  assumes "local_change i db d1" "local_change i d1 d2"
    and "set (member_ids db) \<subseteq> set (member_ids d1)" "set (census_ids db) \<subseteq> set (census_ids d1)"
    and "member_owners d1 \<subseteq> member_owners d2" "census_owners d1 \<subseteq> census_owners d2"
  shows "local_change i db d2"
proof -
  have "same_others i db d2" using assms(1,2) same_others_trans by (auto simp: local_change_def)
  moreover have "(u, e) \<in> member_owners db \<or> u \<notin> set (member_ids db)" if "(u, e) \<in> member_owners d2" for u e
    using that assms(1-3) unfolding local_change_def by blast
  moreover have "(u, e) \<in> census_owners db \<or> u \<notin> set (census_ids db)" if "(u, e) \<in> census_owners d2" for u e
    using that assms(1,2,4) unfolding local_change_def by blast
  moreover have "x \<in> set (census_members db) \<or> (x_member_id x, i) \<in> member_owners d2 \<and> (x_census_id x, i) \<in> census_owners d2"
    if "x \<in> set (census_members d2)" for x
    using that assms(1,2,5,6) unfolding local_change_def by blast
  ultimately show ?thesis unfolding local_change_def by blast
qed

lemma census_with_members_tx_local:
  assumes "wf_db db" "\<forall>u\<in>set ids. (u, bts i) \<in> member_owners db"
  shows "local_change (bts i) db (fst (census_with_members_tx ev (bts i) c t info ids db))"
proof (cases "snd (census_with_members_tx ev (bts i) c t info ids db)")
  case (Inl e)
  then show ?thesis
    by (auto simp: census_with_members_tx_def Let_def split: option.splits sum.splits if_splits)
next
  case (Inr n)
  let ?rows = "map (\<lambda>u. \<lparr>x_member_id = u, x_census_id = c, x_ephemeral = False,
     x_public_key = None, x_digested_public_key = None, x_private_key = None\<rparr>) ids"
  let ?g = "\<lambda>r. r\<lparr>c_size := int (length ids), c_updated_at := now ev\<rparr>"
  from Inr obtain tx1 tx2 where c1: "insert_census (now ev) (bts i) c t info False db = Inr tx1"
    and b: "bulkInsert (batch_exec ev 5 insert_census_members) ?rows 2 tx1 = Inr tx2"
    and r: "fst (census_with_members_tx ev (bts i) c t info ids db) = update_censuses (\<lambda>r. c_id r = c) ?g tx2"
    by (auto simp: census_with_members_tx_def Let_def split: option.splits sum.splits if_splits)
  have wf1: "wf_db tx1" using c1 assms(1) by (rule insert_census_wf)
  have "insert_census_members ?rows tx1 = Inr tx2" using b by (rule bulk_census_members_sound [rotated 2]) simp_all
  note tx2 = insert_census_members_Inr [OF this]
  from c1 obtain row where row: "c_entity_id row = bts i" "c_id row = c" "tx1 = db\<lparr>censuses := censuses db @ [row]\<rparr>"
    by (rule insert_census_Inr)
  have own: "(c, bts i) \<in> census_owners tx1" using row by (auto simp: census_owners_def)
  have ci: "c_entity_id r = bts i" if "c_id r = c" "r \<in> set (censuses tx1)" for r
  proof -
    have "(c, c_entity_id r) \<in> census_owners tx1" using that by (auto simp: census_owners_def)
    then show ?thesis using owners_unique(2) [OF wf1 own] by simp
  qed
  have res: "fst (census_with_members_tx ev (bts i) c t info ids db) =
      tx1\<lparr>census_members := census_members tx1 @ ?rows, censuses := map (\<lambda>r. if c_id r = c then ?g r else r) (censuses tx1)\<rparr>"
    by (simp add: r tx2 update_censuses_def)
  have l2: "local_change (bts i) tx1 (fst (census_with_members_tx ev (bts i) c t info ids db))"
    unfolding res by (rule local_add_entries [OF wf1 _ own ci]) (use assms(2) row(3) in \<open>auto simp: member_owners_def\<close>)
  have l1: "local_change (bts i) db tx1" using c1 assms(1) by (rule local_insert_census)
  have co: "census_owners tx1 \<subseteq> census_owners (fst (census_with_members_tx ev (bts i) c t info ids db))"
    unfolding res by (subst census_owners_map) simp_all
  show ?thesis
    by (rule local_trans [OF l1 l2 _ _ _ co]) (auto simp: row(3) res member_owners_def)
qed

lemma local_AddCensusWithMembers:
  assumes "wf_db db" "AddCensusWithMembers ev i c t info db = Some (db', r)"
  shows "local_change (bts i) db db'"
proof -
  obtain ids where ids: "ids = registered_ids i db" by simp
  have "db' = db \<or> (\<exists>inf. census_with_members_tx ev (bts i) (bts c) (the t) inf ids db = (db', r))"
    using assms(2) unfolding AddCensusWithMembers_def Let_def ids [symmetric]
    by (simp split: if_split_asm option.split_asm) metis+
  moreover have "\<forall>u\<in>set ids. (u, bts i) \<in> member_owners db"
    by (auto simp: ids registered_ids_def member_owners_def m_entity_def)
  ultimately show ?thesis using census_with_members_tx_local [OF assms(1)] by (metis fst_conv local_refl)
qed

lemmas local_ops = local_AddEntity local_DeleteEntity local_AuthorizeEntity local_UpdateEntity local_AddUser
  local_CreateMembersWithTokens local_CreateNMembers local_ImportMembers local_AddMemberBulk local_UpdateMember
  local_RegisterMember local_DeleteMember local_DeleteMembers local_DeleteMembersByKeys local_AddTag local_DeleteTag
  local_AddTagToMembers local_RemoveTagFromMembers local_AddTarget local_AddCensus local_UpdateCensus local_DeleteCensus

lemma exec_op_local:
  "wf_db db \<Longrightarrow> census_owned db \<Longrightarrow> exec_op x ev op db = Some db' \<Longrightarrow> local_change (bts (on_behalf op)) db db'"
  by (cases op) (auto simp: local_ops simp del: bts_simps
      dest: local_AddMember local_ImportMembersWithPubKey local_AddCensusWithMembers local_ExpandCensusMembers)

section \<open>The model meets the contract\<close>

definition db_inv :: "pgdb \<Rightarrow> bool" where
  "db_inv db = (wf_db db \<and> census_owned db)"

definition run_call :: "ext \<Rightarrow> env \<times> dbop \<Rightarrow> pgdb \<Rightarrow> pgdb option" where
  "run_call x c db = exec_op x (fst c) (snd c) db"

definition caller :: "env \<times> dbop \<Rightarrow> bytes" where
  "caller c = bts (on_behalf (snd c))"

lemma db_inv_empty [simp]: "db_inv empty_db"
  by (simp add: db_inv_def census_owned_def empty_db_def)
    (use wf_empty_db in \<open>simp add: empty_db_def\<close>)

interpretation pg: tenant_store "run_call x" db_inv caller tenant_view
proof
  fix s op s'
  assume s: "db_inv s" "run_call x op s = Some s'"
  then have "wf_db s'" by (auto simp: db_inv_def run_call_def intro: exec_op_wf)
  moreover have "local_change (caller op) s s'"
    using s by (auto simp: db_inv_def run_call_def caller_def intro: exec_op_local simp del: bts_simps)
  ultimately show "db_inv s'" using s local_change_owned by (auto simp: db_inv_def)
next
  fix s op s' t
  assume "db_inv s" "run_call x op s = Some s'" "caller op \<noteq> t"
  moreover from this have "local_change (caller op) s s'"
    by (auto simp: db_inv_def run_call_def caller_def intro: exec_op_local simp del: bts_simps)
  ultimately show "tenant_view t s' = tenant_view t s"
    by (auto simp: local_change_def intro: same_others_view)
qed

section \<open>Properties\<close>

text \<open>
  C1: in every state that the database can reach, whatever calls are made with whatever arguments
  and failures, every constraint of the schema holds (keys, uniqueness, references, the range of
  the tag numbers), and every census entry joins a member and a census of the same entity.
\<close>

theorem reachable_schema:
  assumes "reachable x db"
  shows "wf_db db \<and> census_owned db"
  using assms
proof (induction rule: reachable.induct)
  case migrated
  show ?case using db_inv_empty by (simp add: db_inv_def)
next
  case (call db ev op db')
  then show ?case using pg.run_inv [of db x "(ev, op)" db'] by (simp add: db_inv_def run_call_def)
qed

theorem reachable_schema_witness:
  "wf_db (fst (AddEntity (quiet 1) (Some [7]) demo_info empty_db))"
proof -
  have "reachable demo_ext (fst (AddEntity (quiet 1) (Some [7]) demo_info empty_db))"
    by (rule reachable.call [OF reachable.migrated, of _ "quiet 1" "DoAddEntity (Some [7]) demo_info"]) simp
  then show ?thesis using reachable_schema by blast
qed

text \<open>
  Tenants are isolated: no sequence of calls made on behalf of other entities changes anything
  an entity stores (its row, origins, members, targets, censuses, tags and census entries).
\<close>

lemma tenants_isolated:
  assumes "wf_db db" "census_owned db" and "history (run_call x) calls db = Some db'"
    and "\<forall>c\<in>set calls. caller c \<noteq> j"
  shows "tenant_view j db' = tenant_view j db"
  using pg.history_isolated [of db x calls db' j] assms by (simp add: db_inv_def)

end
