(* ===== verification/Rpcapi.thy ===== *)
theory Rpcapi
  imports Database
begin

text \<open>
  \<^verbatim>\<open>rpcapi/rpcapi.go\<close>: the table of methods, the check of an authorized address and the routing of
  a request to its handler; with what the handlers of all three APIs share: how a handler ends, the
  surroundings of its database calls, and Go's conversions of the time.
\<close>

section \<open>Handlers\<close>

text \<open>A handler returns a response or an error, or it panics.\<close>

datatype outcome = Reply APIresponse | Fail string | Panic

text \<open>The \<open>k\<close>-th database call of a handler meets the surroundings \<open>envs k\<close>.\<close>

type_synonym envs = "nat \<Rightarrow> env"

definition calm :: "envs \<Rightarrow> bool" where
  "calm envs = (\<forall>k. no_faults (envs k))"

lemma calm_no_faults [simp]: "calm envs \<Longrightarrow> no_faults (envs k)"
  by (simp add: calm_def)

lemma calm_quiet [simp]: "calm (\<lambda>k. quiet (t k))"
  by (simp add: calm_def)

text \<open>
  \<^verbatim>\<open>time.Now().Unix()\<close> of an instant counted in nanoseconds from the year 1, and the conversion
  \<^verbatim>\<open>int32(i)\<close>, which keeps the low 32 bits.
\<close>

definition Unix :: "gotime \<Rightarrow> int" where
  [go_defs]: "Unix t = t div 1000000000 - 62135596800"

definition to_int32 :: "int \<Rightarrow> int" where
  [go_defs]: "to_int32 i = (i + 2147483648) mod 4294967296 - 2147483648"

lemma to_int32_range: "in_int32 (to_int32 i)"
  using pos_mod_bound [of 4294967296 "i + 2147483648"] pos_mod_sign [of 4294967296 "i + 2147483648"]
  by (simp add: to_int32_def in_int32_def)

lemma to_int32_id [simp]: "in_int32 i \<Longrightarrow> to_int32 i = i"
  by (simp add: to_int32_def in_int32_def)

section \<open>The method table\<close>

text \<open>
  \<^verbatim>\<open>RPCAPI\<close>: the registration of a method with the signed JSON-RPC library says whether it is
  private and whether it may come without a signature; the handler goes into the map. \<open>'w\<close> is the
  state the handlers work on. \<open>ra_Authorized\<close> are the authorized addresses of the signer, \<open>ra_endpoint\<close>
  is the path under which the router passes requests on.
\<close>

type_synonym 'w Handler = "APIrequest \<Rightarrow> 'w \<Rightarrow> 'w \<times> outcome"

record 'w RPCAPI =
  ra_APIs :: "string list"
  ra_endpoint :: string
  ra_registered :: "string \<Rightarrow> (bool \<times> bool) option"
  ra_methods :: "string \<Rightarrow> 'w Handler option"
  ra_allowPrivate :: bool
  ra_Authorized :: "bytes list"

definition RegisterPrivate :: "string \<Rightarrow> 'w Handler \<Rightarrow> 'w RPCAPI \<Rightarrow> 'w RPCAPI" where
  "RegisterPrivate meth h a = a\<lparr>ra_registered := (ra_registered a)(meth \<mapsto> (True, False)),
     ra_methods := (ra_methods a)(meth \<mapsto> h)\<rparr>"

definition RegisterPublic :: "string \<Rightarrow> bool \<Rightarrow> 'w Handler \<Rightarrow> 'w RPCAPI \<Rightarrow> 'w RPCAPI" where
  "RegisterPublic meth requireSignature h a =
     a\<lparr>ra_registered := (ra_registered a)(meth \<mapsto> (False, \<not> requireSignature)),
       ra_methods := (ra_methods a)(meth \<mapsto> h)\<rparr>"

definition AddMethod :: "string \<Rightarrow> 'w Handler \<Rightarrow> 'w RPCAPI \<Rightarrow> 'w RPCAPI" where
  "AddMethod meth h a = a\<lparr>ra_methods := (ra_methods a)(meth \<mapsto> h)\<rparr>"

definition AuthorizedAddress :: "'w RPCAPI \<Rightarrow> bytes option \<Rightarrow> bool" where
  "AuthorizedAddress a addr =
     (case addr of
        None \<Rightarrow> False
      | Some ad \<Rightarrow>
          if \<not> ra_allowPrivate a then False
          else if length (ra_Authorized a) = 0 then True
          else ad \<in> set (ra_Authorized a))"

text \<open>
  \<^verbatim>\<open>info\<close>, which every API answers without a signature; the health of the machine is an argument,
  which \<open>Health\<close> computes. \<^verbatim>\<open>NewAPI\<close> is only called without a metrics agent by the
  service; \<open>authorized\<close> are the addresses the signer had before.
\<close>

definition api_info :: "string + int \<Rightarrow> string list \<Rightarrow> 'w Handler" where
  "api_info getHealth apis request w =
     (case getHealth of
        Inl e \<Rightarrow> (w, Fail (''cannot get health status: ('' @ e @ '')''))
      | Inr health \<Rightarrow> (w, Reply (zero_APIresponse\<lparr>rs_APIList := apis, rs_Health := health\<rparr>)))"

definition NewAPI :: "string + int \<Rightarrow> bytes list \<Rightarrow> bytes \<Rightarrow> string \<Rightarrow> string \<Rightarrow> bool \<Rightarrow> 'w RPCAPI" where
  "NewAPI getHealth authorized addr name endpoint allowPrivate =
     RegisterPublic ''getInfo'' False (api_info getHealth [name])
       \<lparr>ra_APIs = [name], ra_endpoint = endpoint, ra_registered = (\<lambda>_. None), ra_methods = (\<lambda>_. None),
        ra_allowPrivate = allowPrivate, ra_Authorized = authorized @ [addr]\<rparr>"

text \<open>What goes back to the client.\<close>

datatype wire = WireError string string | WireReply string APIresponse | WireNone | WireCrash

text \<open>
  \<^verbatim>\<open>route\<close>: the public key of the signature is put into the request, the handler found by its method
  is called (a method without handler is a nil function), an error goes back as its text, a
  response with \<^verbatim>\<open>Ok\<close> set. \<open>reply_ok\<close> says whether the library could build the signed reply.
\<close>

definition route :: "'w RPCAPI \<Rightarrow> bool \<Rightarrow> string \<Rightarrow> gobytes \<Rightarrow> APIrequest \<Rightarrow> 'w \<Rightarrow> 'w \<times> wire" where
  "route a reply_ok rid pk request w =
     (let apiMsg = request\<lparr>rq_SignaturePublicKey := pk\<rparr> in
      case ra_methods a (rq_Method apiMsg) of
        None \<Rightarrow> (w, WireCrash)
      | Some h \<Rightarrow>
          (case h apiMsg w of
             (w', Panic) \<Rightarrow> (w', WireCrash)
           | (w', Fail msg) \<Rightarrow> (w', WireError rid msg)
           | (w', Reply r) \<Rightarrow> (w', if reply_ok then WireReply rid (r\<lparr>rs_Ok := True\<rparr>) else WireNone)))"

lemma RegisterPublic_methods [simp]:
  "ra_methods (RegisterPublic m s h a) = (ra_methods a)(m \<mapsto> h)"
  "ra_registered (RegisterPublic m s h a) = (ra_registered a)(m \<mapsto> (False, \<not> s))"
  "ra_allowPrivate (RegisterPublic m s h a) = ra_allowPrivate a"
  by (simp_all add: RegisterPublic_def)

lemma NewAPI_simps [simp]:
  "ra_methods (NewAPI h au ad name ep priv) = [''getInfo'' \<mapsto> api_info h [name]]"
  "ra_registered (NewAPI h au ad name ep priv) = [''getInfo'' \<mapsto> (False, True)]"
  "ra_APIs (NewAPI h au ad name ep priv) = [name]"
  "ra_endpoint (NewAPI h au ad name ep priv) = ep"
  by (simp_all add: NewAPI_def RegisterPublic_def)

lemma api_info_unchanged [simp]: "fst (api_info h apis request w) = w"
  by (simp add: api_info_def split: sum.splits)

lemma RegisterPrivate_methods [simp]:
  "ra_methods (RegisterPrivate m h a) = (ra_methods a)(m \<mapsto> h)"
  "ra_registered (RegisterPrivate m h a) = (ra_registered a)(m \<mapsto> (True, False))"
  by (simp_all add: RegisterPrivate_def)

section \<open>Handlers as sequences of database calls\<close>

text \<open>
  \<open>acts_for x i db db'\<close>: the state goes from \<open>db\<close> to \<open>db'\<close> by database calls on behalf of the
  entity \<open>i\<close> alone.
\<close>

inductive acts_for :: "ext \<Rightarrow> bytes \<Rightarrow> pgdb \<Rightarrow> pgdb \<Rightarrow> bool" for x :: ext and i :: bytes and db :: pgdb where
  idle: "acts_for x i db db"
| act: "acts_for x i db db' \<Longrightarrow> exec_op x ev op db' = Some db'' \<Longrightarrow> bts (on_behalf op) = i \<Longrightarrow> acts_for x i db db''"

declare acts_for.idle [simp, intro!]

lemma acts_for_reachable: "acts_for x i db db' \<Longrightarrow> reachable x db \<Longrightarrow> reachable x db'"
  by (induction rule: acts_for.induct) (auto intro: reachable.call)

lemma acts_for_wf: "acts_for x i db db' \<Longrightarrow> wf_db db \<Longrightarrow> wf_db db'"
  by (induction rule: acts_for.induct) (auto intro: exec_op_wf)

lemma acts_for_inv: "acts_for x i db db' \<Longrightarrow> db_inv db \<Longrightarrow> db_inv db'"
proof (induction rule: acts_for.induct)
  case idle
  then show ?case .
next
  case (act db' ev op db'')
  then show ?case using pg.run_inv [of db' x "(ev, op)" db''] by (simp add: run_call_def)
qed

lemma acts_for_isolated: "acts_for x i db db' \<Longrightarrow> db_inv db \<Longrightarrow> j \<noteq> i \<Longrightarrow> tenant_view j db' = tenant_view j db"
proof (induction rule: acts_for.induct)
  case idle
  show ?case ..
next
  case (act db' ev op db'')
  have "db_inv db'" using act.hyps(1) act.prems(1) by (rule acts_for_inv)
  then show ?case using act pg.isolated [of db' x "(ev, op)" db'' j] by (simp add: run_call_def caller_def)
qed

text \<open>One rule per method of the store: a call extends what was done for the entity.\<close>

named_theorems acts_intros \<open>a database call extends what was done for an entity\<close>

lemma acts_AddEntity [acts_intros]:
  "AddEntity ev i info d = (d', r) \<Longrightarrow> acts_for x e db d \<Longrightarrow> bts i = e \<Longrightarrow> acts_for x e db d'"
  by (rule acts_for.act [where op = "DoAddEntity i info" and ev = ev]) auto

lemma acts_UpdateEntity [acts_intros]:
  "UpdateEntity ev i info d = (d', r) \<Longrightarrow> acts_for x e db d \<Longrightarrow> bts i = e \<Longrightarrow> acts_for x e db d'"
  by (rule acts_for.act [where op = "DoUpdateEntity i info" and ev = ev]) auto

lemma acts_CreateMembersWithTokens [acts_intros]:
  "CreateMembersWithTokens ev i ts d = (d', r) \<Longrightarrow> acts_for x e db d \<Longrightarrow> bts i = e \<Longrightarrow> acts_for x e db d'"
  by (rule acts_for.act [where op = "DoCreateMembersWithTokens i ts" and ev = ev]) auto

lemma acts_CreateNMembers [acts_intros]:
  "CreateNMembers ev i n d = (d', r) \<Longrightarrow> acts_for x e db d \<Longrightarrow> bts i = e \<Longrightarrow> acts_for x e db d'"
  by (rule acts_for.act [where op = "DoCreateNMembers i n" and ev = ev]) auto

lemma acts_ImportMembers [acts_intros]:
  "ImportMembers ev x i infos d = (d', r) \<Longrightarrow> acts_for x e db d \<Longrightarrow> bts i = e \<Longrightarrow> acts_for x e db d'"
  by (rule acts_for.act [where op = "DoImportMembers i infos" and ev = ev]) auto

lemma acts_AddMemberBulk [acts_intros]:
  "AddMemberBulk ev x i ms d = (d', r) \<Longrightarrow> acts_for x e db d \<Longrightarrow> bts i = e \<Longrightarrow> acts_for x e db d'"
  by (rule acts_for.act [where op = "DoAddMemberBulk i ms" and ev = ev]) auto

lemma acts_UpdateMember [acts_intros]:
  "UpdateMember ev x i u info d = (d', r) \<Longrightarrow> acts_for x e db d \<Longrightarrow> bts i = e \<Longrightarrow> acts_for x e db d'"
  by (rule acts_for.act [where op = "DoUpdateMember i u info" and ev = ev]) auto

lemma acts_RegisterMember [acts_intros]:
  "RegisterMember ev x i k u d = (d', r) \<Longrightarrow> acts_for x e db d \<Longrightarrow> bts i = e \<Longrightarrow> acts_for x e db d'"
  by (rule acts_for.act [where op = "DoRegisterMember i k u" and ev = ev]) auto

lemma acts_DeleteMember [acts_intros]:
  "DeleteMember ev i u d = (d', r) \<Longrightarrow> acts_for x e db d \<Longrightarrow> bts i = e \<Longrightarrow> acts_for x e db d'"
  by (rule acts_for.act [where op = "DoDeleteMember i u" and ev = ev]) auto

lemma acts_DeleteMembers [acts_intros]:
  "DeleteMembers ev i us d = (d', r) \<Longrightarrow> acts_for x e db d \<Longrightarrow> bts i = e \<Longrightarrow> acts_for x e db d'"
  by (rule acts_for.act [where op = "DoDeleteMembers i us" and ev = ev]) auto

lemma acts_DeleteMembersByKeys [acts_intros]:
  "DeleteMembersByKeys ev i ks d = (d', r) \<Longrightarrow> acts_for x e db d \<Longrightarrow> bts i = e \<Longrightarrow> acts_for x e db d'"
  by (rule acts_for.act [where op = "DoDeleteMembersByKeys i ks" and ev = ev]) auto

lemma acts_AddTag [acts_intros]:
  "AddTag ev i n d = (d', r) \<Longrightarrow> acts_for x e db d \<Longrightarrow> bts i = e \<Longrightarrow> acts_for x e db d'"
  by (rule acts_for.act [where op = "DoAddTag i n" and ev = ev]) auto

lemma acts_DeleteTag [acts_intros]:
  "DeleteTag ev i g d = (d', r) \<Longrightarrow> acts_for x e db d \<Longrightarrow> bts i = e \<Longrightarrow> acts_for x e db d'"
  by (rule acts_for.act [where op = "DoDeleteTag i g" and ev = ev]) auto

lemma acts_AddTagToMembers [acts_intros]:
  "AddTagToMembers ev i us g d = (d', r) \<Longrightarrow> acts_for x e db d \<Longrightarrow> bts i = e \<Longrightarrow> acts_for x e db d'"
  by (rule acts_for.act [where op = "DoAddTagToMembers i us g" and ev = ev]) auto

lemma acts_RemoveTagFromMembers [acts_intros]:
  "RemoveTagFromMembers ev i us g d = (d', r) \<Longrightarrow> acts_for x e db d \<Longrightarrow> bts i = e \<Longrightarrow> acts_for x e db d'"
  by (rule acts_for.act [where op = "DoRemoveTagFromMembers i us g" and ev = ev]) auto

lemma acts_AddTarget [acts_intros]:
  "AddTarget ev x i t d = (d', r) \<Longrightarrow> acts_for x e db d \<Longrightarrow> bts i = e \<Longrightarrow> acts_for x e db d'"
  by (rule acts_for.act [where op = "DoAddTarget i t" and ev = ev]) auto

lemma acts_AddCensus [acts_intros]:
  "AddCensus ev i c t info d = (d', r) \<Longrightarrow> acts_for x e db d \<Longrightarrow> bts i = e \<Longrightarrow> acts_for x e db d'"
  by (rule acts_for.act [where op = "DoAddCensus i c t info" and ev = ev]) auto

lemma acts_UpdateCensus [acts_intros]:
  "UpdateCensus ev i c info d = (d', r) \<Longrightarrow> acts_for x e db d \<Longrightarrow> bts i = e \<Longrightarrow> acts_for x e db d'"
  by (rule acts_for.act [where op = "DoUpdateCensus i c info" and ev = ev]) auto

lemma acts_DeleteCensus [acts_intros]:
  "DeleteCensus ev i c d = (d', r) \<Longrightarrow> acts_for x e db d \<Longrightarrow> bts i = e \<Longrightarrow> acts_for x e db d'"
  by (rule acts_for.act [where op = "DoDeleteCensus i c" and ev = ev]) auto

lemma acts_AddMember [acts_intros]:
  "AddMember ev x i k info d = Some (d', r) \<Longrightarrow> acts_for x e db d \<Longrightarrow> bts i = e \<Longrightarrow> acts_for x e db d'"
  by (rule acts_for.act [where op = "DoAddMember i k info" and ev = ev]) auto

lemma acts_ExpandCensusMembers [acts_intros]:
  "ExpandCensusMembers ev x i c d = Some (d', r) \<Longrightarrow> acts_for x e db d \<Longrightarrow> bts i = e \<Longrightarrow> acts_for x e db d'"
  by (rule acts_for.act [where op = "DoExpandCensusMembers i c" and ev = ev]) auto

end
