(* ===== verification/Registry.thy ===== *)
theory Registry
  imports Rpcapi
begin

text \<open>
  \<^verbatim>\<open>registry/registry.go\<close>, the API of the mobile clients: registration with personal data, the
  validation of a token, and the registration status. A handler takes the surroundings of its
  database calls; \<^verbatim>\<open>validateToken\<close> also returns the URLs that it asks for in the background.
\<close>

section \<open>Handlers\<close>

definition checkMemberInfo :: "ext \<Rightarrow> MemberInfo option \<Rightarrow> bool" where
  "checkMemberInfo x m =
     (case m of
        None \<Rightarrow> False
      | Some info \<Rightarrow> ValidateFormat x (mi_Email info))"

definition register :: "ext \<Rightarrow> envs \<Rightarrow> APIrequest \<Rightarrow> pgdb \<Rightarrow> pgdb \<times> outcome" where
  "register x envs request db =
     (case Entity (envs 0) (rq_EntityID request) db of
        Inl ErrNoRows \<Rightarrow> (db, Fail ''invalid entityID'')
      | Inl _ \<Rightarrow> (db, Fail ''error retrieving entity'')
      | Inr _ \<Rightarrow>
          (case rq_MemberInfo request of
             None \<Rightarrow> (db, Fail ''invalid member info'')
           | Some info \<Rightarrow>
               if \<not> checkMemberInfo x (Some info) then (db, Fail ''invalid member info'')
               else (case AddMember (envs 1) x (rq_EntityID request) (rq_SignaturePublicKey request) info db of
                       None \<Rightarrow> (db, Panic)
                     | Some (db', Inl e) \<Rightarrow> (db', Fail (''cannot create member: ('' @ err_text e @ '')''))
                     | Some (db', Inr uid) \<Rightarrow> (db', Reply zero_APIresponse))))"

text \<open>\<^verbatim>\<open>strings.ReplaceAll\<close> with a nonempty pattern, and the URL that \<^verbatim>\<open>callback\<close> requests.\<close>

function strings_ReplaceAll :: "string \<Rightarrow> string \<Rightarrow> string \<Rightarrow> string" where
  "strings_ReplaceAll s old new =
     (if s = [] \<or> old = [] then s
      else if strings_HasPrefix s old then new @ strings_ReplaceAll (drop (length old) s) old new
      else hd s # strings_ReplaceAll (tl s) old new)"
  by pat_completeness auto
termination
  by (relation "measure (\<lambda>(s, old, new). length s)") auto

declare strings_ReplaceAll.simps [simp del]

definition callback :: "ext \<Rightarrow> gotime \<Rightarrow> string \<Rightarrow> string \<Rightarrow> string \<Rightarrow> uuid \<Rightarrow> string" where
  "callback x t callbackURL secret event uid =
     (let ts = FormatInt (to_int32 (Unix t));
          h = HashRaw x (str_bytes (event @ ts @ uuid_String x uid @ secret));
          url1 = strings_ReplaceAll callbackURL ''{TOKEN}'' (uuid_String x uid);
          url2 = strings_ReplaceAll url1 ''{TIMESTAMP}'' ts;
          url3 = strings_ReplaceAll url2 ''{AUTH}'' (hex_EncodeToString h)
      in strings_ReplaceAll url3 ''{EVENT}'' event)"

text \<open>
  \<^verbatim>\<open>validateToken\<close> up to its decision: it reads the entity and the member and refuses a token that
  is already tied to a key.
\<close>

definition validate_check :: "ext \<Rightarrow> envs \<Rightarrow> APIrequest \<Rightarrow> pgdb \<Rightarrow> string + (Entity \<times> Member \<times> uuid)" where
  "validate_check x envs request db =
     (if rq_Token request = [] then Inl ''invalid token''
      else case uuid_Parse x (rq_Token request) of
        None \<Rightarrow> Inl ''invalid token format''
      | Some uid \<Rightarrow>
          (case Entity (envs 0) (rq_EntityID request) db of
             Inl ErrNoRows \<Rightarrow> Inl ''invalid entity id''
           | Inl _ \<Rightarrow> Inl ''error retrieving entity''
           | Inr entity \<Rightarrow>
               (case Member (envs 1) (rq_EntityID request) (Some uid) db of
                  Inl ErrNoRows \<Rightarrow> Inl ''invalid token id''
                | Inl _ \<Rightarrow> Inl ''error retrieving token''
                | Inr member \<Rightarrow>
                    if bytes_Equal (mb_PubKey member) (rq_SignaturePublicKey request)
                    then Inl ''duplicate user already registered''
                    else if slen (mb_PubKey member) \<noteq> 0 then Inl ''invalid token''
                    else Inr (entity, member, uid))))"

text \<open>
  \<^verbatim>\<open>validateToken\<close> from its decision on: it registers the key, starts the callback when the entity
  has a usable URL, and removes the tag \<^verbatim>\<open>PendingValidation\<close>, whose failures are only logged.
\<close>

definition validate_commit :: "ext \<Rightarrow> envs \<Rightarrow> APIrequest \<Rightarrow> Entity \<times> Member \<times> uuid \<Rightarrow> pgdb \<Rightarrow>
    pgdb \<times> outcome \<times> string list" where
  "validate_commit x envs request d db =
     (case d of (entity, member, uid) \<Rightarrow>
       (case RegisterMember (envs 2) x (rq_EntityID request) (rq_SignaturePublicKey request) (Some uid) db of
          (db1, Some _) \<Rightarrow> (db1, Fail ''invalidToken'', [])
        | (db1, None) \<Rightarrow>
            (let calls = (if ParseRequestURI x (ei_CallbackURL (en_Info entity))
                   then [callback x (now (envs 2)) (ei_CallbackURL (en_Info entity))
                           (ei_CallbackSecret (en_Info entity)) ''register'' uid]
                   else [])
             in case TagByName (envs 3) (rq_EntityID request) ''PendingValidation'' db1 of
                  Inl _ \<Rightarrow> (db1, Reply zero_APIresponse, calls)
                | Inr tag \<Rightarrow>
                    (fst (RemoveTagFromMembers (envs 4) (rq_EntityID request) [mb_ID member] (ta_ID tag) db1),
                     Reply zero_APIresponse, calls))))"

definition validateToken :: "ext \<Rightarrow> envs \<Rightarrow> APIrequest \<Rightarrow> pgdb \<Rightarrow> pgdb \<times> outcome \<times> string list" where
  "validateToken x envs request db =
     (case validate_check x envs request db of
        Inl msg \<Rightarrow> (db, Fail msg, [])
      | Inr d \<Rightarrow> validate_commit x envs request d db)"

definition registrationStatus :: "envs \<Rightarrow> APIrequest \<Rightarrow> pgdb \<Rightarrow> pgdb \<times> outcome" where
  "registrationStatus envs request db =
     (case Entity (envs 0) (rq_EntityID request) db of
        Inl _ \<Rightarrow> (db, Fail ''entity does not exist'')
      | Inr _ \<Rightarrow>
          (case MemberPubKey (envs 1) (rq_EntityID request) (rq_SignaturePublicKey request) db of
             Inl ErrNoRows \<Rightarrow> (db, Reply (zero_APIresponse\<lparr>rs_Status :=
               Some \<lparr>st_Registered = False, st_NeedsUpdate = False\<rparr>\<rparr>))
           | Inl _ \<Rightarrow> (db, Fail ''cannot query for member'')
           | Inr _ \<Rightarrow> (db, Reply (zero_APIresponse\<lparr>rs_Status :=
               Some \<lparr>st_Registered = True, st_NeedsUpdate = False\<rparr>\<rparr>))))"

definition subscribe :: "APIrequest \<Rightarrow> pgdb \<Rightarrow> pgdb \<times> outcome" where
  "subscribe request db = (db, Reply (zero_APIresponse\<lparr>rs_Ok := True\<rparr>))"

definition unsubscribe :: "APIrequest \<Rightarrow> pgdb \<Rightarrow> pgdb \<times> outcome" where
  "unsubscribe request db = (db, Reply (zero_APIresponse\<lparr>rs_Ok := True\<rparr>))"

definition listSubscriptions :: "APIrequest \<Rightarrow> pgdb \<Rightarrow> pgdb \<times> outcome" where
  "listSubscriptions request db = (db, Reply (zero_APIresponse\<lparr>rs_Ok := True\<rparr>))"

text \<open>\<^verbatim>\<open>NewRegistry\<close>, with the address of the signer and whether the router or the database is nil.\<close>

definition NewRegistry :: "string + int \<Rightarrow> bytes list \<Rightarrow> bytes \<Rightarrow> string \<Rightarrow> bool \<Rightarrow> bool \<Rightarrow> string + 'w RPCAPI" where
  "NewRegistry getHealth authorized addr rt r_nil d_nil =
     (if r_nil \<or> d_nil then Inl ''invalid arguments for manager API''
      else Inr (NewAPI getHealth authorized addr ''registry Mobile'' (rt @ ''/registry'') False))"

text \<open>The API as \<^verbatim>\<open>EnableAPI\<close> registers it; the callbacks of \<^verbatim>\<open>validateToken\<close> are dropped here.\<close>

definition Registry_EnableAPI :: "ext \<Rightarrow> envs \<Rightarrow> pgdb RPCAPI \<Rightarrow> pgdb RPCAPI" where
  "Registry_EnableAPI x envs a =
     RegisterPublic ''listSubscriptions'' True listSubscriptions
      (RegisterPublic ''unsubscribe'' True unsubscribe
        (RegisterPublic ''subscribe'' True subscribe
          (RegisterPublic ''registrationStatus'' True (registrationStatus envs)
            (RegisterPublic ''validateToken'' True
               (\<lambda>request db. case validateToken x envs request db of (db', out, calls) \<Rightarrow> (db', out))
              (RegisterPublic ''register'' True (register x envs) a)))))"

section \<open>Facts\<close>

text \<open>Every handler of this API works on behalf of the entity the request names.\<close>

lemma acts_fst_RemoveTag:
  "acts_for x e db d \<Longrightarrow> bts i = e \<Longrightarrow> acts_for x e db (fst (RemoveTagFromMembers ev i us g d))"
  by (metis acts_RemoveTagFromMembers prod.collapse)

lemma register_acts: "acts_for x (bts (rq_EntityID request)) db (fst (register x envs request db))"
  by (auto simp: register_def split: sum.splits dberror.splits option.splits intro: acts_intros)

lemma validate_commit_acts:
  "acts_for x (bts (rq_EntityID request)) db (fst (validate_commit x envs request d db))"
  by (auto simp: validate_commit_def Let_def split: prod.splits option.splits sum.splits
      intro: acts_intros acts_fst_RemoveTag)

lemma validateToken_acts: "acts_for x (bts (rq_EntityID request)) db (fst (validateToken x envs request db))"
  by (auto simp: validateToken_def validate_commit_acts split: sum.splits)

lemma registrationStatus_unchanged [simp]: "fst (registrationStatus envs request db) = db"
  by (simp add: registrationStatus_def split: sum.splits dberror.splits)

lemma member_of_PubKey [simp]: "mb_PubKey (member_of r) = m_public_key r" "mb_ID (member_of r) = m_id r"
  by (simp_all add: member_of_def ToMember_def with_consented_def with_tags_def scan_member_def Let_def)

lemma Member_Inr:
  assumes "Member ev entityID (Some u) db = Inr m"
  obtains r where "r \<in> set (members db)" "m_id r = u" "entityID = Some (m_entity_id r)" "m = member_of r"
  using assms that by (auto simp: Member_def m_entity_def sql_eq_def split: option.splits dest!: find_Some_mem)

lemma validate_check_Inr:
  assumes "validate_check x envs request db = Inr d"
  obtains entity r where "d = (entity, member_of r, m_id r)" "uuid_Parse x (rq_Token request) = Some (m_id r)"
    "Entity (envs 0) (rq_EntityID request) db = Inr entity" "r \<in> set (members db)"
    "rq_EntityID request = Some (m_entity_id r)" "slen (m_public_key r) = 0"
  using assms that
  by (auto simp: validate_check_def split: if_splits option.splits sum.splits dberror.splits elim!: Member_Inr)

text \<open>Removing a tag from one member, or failing to, leaves everything but the tags of that member.\<close>

lemma RemoveTag_one:
  assumes "uniq m_key (members db)" "r \<in> set (members db)"
  obtains ts where "fst (RemoveTagFromMembers ev i [m_id r] g db) =
    db\<lparr>members := map (\<lambda>y. if m_id y = m_id r then r\<lparr>m_tags := ts\<rparr> else y) (members db)\<rparr>"
proof -
  have same: "y = r" if "y \<in> set (members db)" "m_id y = m_id r" for y
    using uniq_sameD [OF assms(1) that(1) assms(2)] that(2) by (simp add: m_key_def)
  have "map (\<lambda>y. if m_id y = m_id r then r\<lparr>m_tags := m_tags r\<rparr> else y) (members db) = members db"
    by (rule map_idI) (auto dest: same)
  then have keep: "db = db\<lparr>members := map (\<lambda>y. if m_id y = m_id r then r\<lparr>m_tags := m_tags r\<rparr> else y) (members db)\<rparr>"
    by simp
  have upd: "update_members (\<lambda>y. A \<and> m_id y = m_id r \<and> P y) (\<lambda>y. y\<lparr>m_tags := removeAll g (m_tags y)\<rparr>) db =
    db\<lparr>members := map (\<lambda>y. if m_id y = m_id r then r\<lparr>m_tags := if A \<and> P r then removeAll g (m_tags r) else m_tags r\<rparr>
      else y) (members db)\<rparr>" for A P
    by (auto simp: update_members_def intro!: arg_cong [where f = "\<lambda>m. db\<lparr>members := m\<rparr>"] map_cong dest: same)
  have "fst (RemoveTagFromMembers ev i [m_id r] g db) = db \<or> (\<exists>t. fst (RemoveTagFromMembers ev i [m_id r] g db) =
      update_members (\<lambda>y. io_err ev 2 = None \<and> m_id y = m_id r \<and> m_entity_id y = bts i \<and> t \<in> set (m_tags y))
        (\<lambda>y. y\<lparr>m_tags := removeAll g (m_tags y)\<rparr>) db)"
    by (auto simp: RemoveTagFromMembers_def tag_members_stmt_def Let_def split: sum.splits dberror.splits option.splits)
  then show ?thesis
  proof (elim disjE exE)
    assume "fst (RemoveTagFromMembers ev i [m_id r] g db) = db"
    also note keep
    finally show ?thesis by (rule that)
  next
    fix t
    assume "fst (RemoveTagFromMembers ev i [m_id r] g db) =
      update_members (\<lambda>y. io_err ev 2 = None \<and> m_id y = m_id r \<and> m_entity_id y = bts i \<and> t \<in> set (m_tags y))
        (\<lambda>y. y\<lparr>m_tags := removeAll g (m_tags y)\<rparr>) db"
    also note upd [of "io_err ev 2 = None" "\<lambda>y. m_entity_id y = bts i \<and> t \<in> set (m_tags y)"]
    finally show ?thesis by (rule that)
  qed
qed

text \<open>The rows of the members after a token was validated, seen through the row of the token.\<close>

lemma validate_effect:
  assumes "wf_db db" "validateToken x envs request db = (db', Reply resp, calls)"
  obtains pk r ts where "rq_SignaturePublicKey request = Some pk" "length pk = PubKeyLengthBytes x"
    "uuid_Parse x (rq_Token request) = Some (m_id r)" "rq_EntityID request = Some (m_entity_id r)"
    "r \<in> set (members db)" "slen (m_public_key r) = 0"
    "\<exists>entity. Entity (envs 0) (rq_EntityID request) db = Inr entity"
    "db' = (with_user (envs 2) (Some pk) db)\<lparr>members := map (\<lambda>y. if m_id y = m_id r
      then r\<lparr>m_public_key := Some pk, m_updated_at := now (envs 2), m_verified := now (envs 2), m_tags := ts\<rparr>
      else y) (members db)\<rparr>"
proof -
  from assms(2) obtain d where d: "validate_check x envs request db = Inr d"
    "validate_commit x envs request d db = (db', Reply resp, calls)"
    by (auto simp: validateToken_def split: sum.splits)
  from d(1) obtain entity r where r: "d = (entity, member_of r, m_id r)" "uuid_Parse x (rq_Token request) = Some (m_id r)"
    "Entity (envs 0) (rq_EntityID request) db = Inr entity" "r \<in> set (members db)"
    "rq_EntityID request = Some (m_entity_id r)" "slen (m_public_key r) = 0"
    by (rule validate_check_Inr)
  from d(2) obtain db1 where reg: "RegisterMember (envs 2) x (rq_EntityID request) (rq_SignaturePublicKey request)
      (Some (m_id r)) db = (db1, None)"
    and fin: "db' = db1 \<or> (\<exists>g. db' = fst (RemoveTagFromMembers (envs 4) (rq_EntityID request) [m_id r] g db1))"
    by (auto simp: validate_commit_def r(1) Let_def split: prod.splits option.splits sum.splits)
  from reg obtain pk r' where pk: "rq_SignaturePublicKey request = Some pk" "length pk = PubKeyLengthBytes x"
    "r' \<in> set (members db)" "m_id r' = m_id r"
    and db1: "db1 = (with_user (envs 2) (rq_SignaturePublicKey request) db)\<lparr>members := map (\<lambda>y. if m_id y = m_id r
      then r'\<lparr>m_public_key := Some pk, m_updated_at := now (envs 2), m_verified := now (envs 2)\<rparr> else y) (members db)\<rparr>"
    by (rule register_member_effect [OF assms(1)]) blast
  have un: "uniq m_key (members db)" using assms(1) by (simp add: wf_db_def wf_members_def)
  have "r' = r" using uniq_sameD [OF un pk(3) r(4)] pk(4) by (simp add: m_key_def)
  define s where "s = r\<lparr>m_public_key := Some pk, m_updated_at := now (envs 2), m_verified := now (envs 2)\<rparr>"
  have db1': "db1 = (with_user (envs 2) (Some pk) db)\<lparr>members := map (\<lambda>y. if m_id y = m_id r then s else y) (members db)\<rparr>"
    using db1 by (simp add: s_def pk(1) \<open>r' = r\<close>)
  have ms: "m_id s = m_id r" by (simp add: s_def)
  have s: "s \<in> set (members db1)" using r(4) by (auto simp: db1' image_iff)
  have un1: "uniq m_key (members db1)"
    using RegisterMember_wf [OF assms(1)] reg by (metis fst_conv wf_db_def wf_members_def)
  have "\<exists>ts. db' = (with_user (envs 2) (Some pk) db)\<lparr>members := map (\<lambda>y. if m_id y = m_id r
      then s\<lparr>m_tags := ts\<rparr> else y) (members db)\<rparr>"
    using fin
  proof
    assume "db' = db1"
    then show ?thesis by (intro exI [of _ "m_tags r"]) (simp add: db1' s_def)
  next
    assume "\<exists>g. db' = fst (RemoveTagFromMembers (envs 4) (rq_EntityID request) [m_id r] g db1)"
    then obtain g where g: "db' = fst (RemoveTagFromMembers (envs 4) (rq_EntityID request) [m_id s] g db1)" using ms by auto
    obtain ts where "db' = db1\<lparr>members := map (\<lambda>y. if m_id y = m_id s then s\<lparr>m_tags := ts\<rparr> else y) (members db1)\<rparr>"
      unfolding g by (rule RemoveTag_one [OF un1 s])
    moreover have "map (\<lambda>y. if m_id y = m_id s then s\<lparr>m_tags := ts\<rparr> else y) (members db1) =
        map (\<lambda>y. if m_id y = m_id r then s\<lparr>m_tags := ts\<rparr> else y) (members db)"
      by (simp add: db1' ms)
    ultimately show ?thesis by (intro exI [of _ ts]) (simp add: db1')
  qed
  then obtain ts where "db' = (with_user (envs 2) (Some pk) db)\<lparr>members := map (\<lambda>y. if m_id y = m_id r
      then s\<lparr>m_tags := ts\<rparr> else y) (members db)\<rparr>" ..
  then show ?thesis using that [OF pk(1,2) r(2,5,4,6), of ts] r(3) by (simp add: s_def)
qed

lemma Entity_calm:
  "Entity ev i db = Inr entity \<Longrightarrow> entities db' = entities db \<Longrightarrow> no_faults ev' \<Longrightarrow>
   \<exists>entity'. Entity ev' i db' = Inr entity'"
  by (auto simp: Entity_def EntityOrigins_def Let_def no_faults_io split: option.splits)

section \<open>Properties\<close>


text \<open>
  A request of the holder of the key \<open>k\<close> of two bytes to the entity \<open>[7]\<close>, whose member 2 has no key.
\<close>

definition demo_request :: "string \<Rightarrow> bytes \<Rightarrow> APIrequest" where
  "demo_request token k = \<lparr>rq_Amount = 0, rq_AuthHash = [], rq_Census = None, rq_CensusID = [], rq_Keys = [],
     rq_Email = [], rq_EntityID = Some [7], rq_Entity = None, rq_ListOptions = None, rq_MemberID = None,
     rq_MemberIDs = [], rq_Member = None, rq_MemberInfo = None, rq_MembersInfo = [], rq_Method = ''validateToken'',
     rq_ProcessID = None, rq_TagID = 0, rq_TagName = [], rq_TargetID = None, rq_Timestamp = 0, rq_Token = token,
     rq_SignaturePublicKey = Some k\<rparr>"

definition demo_envs :: envs where
  "demo_envs k = quiet (int k)"

lemma calm_demo_envs [simp]: "calm demo_envs"
  by (simp add: calm_def demo_envs_def)


text \<open>
  C5: a token is good for one registration: once \<^verbatim>\<open>validateToken\<close> succeeded with it, every later
  validation of the same token, with any key, for any entity and in any surroundings, fails and
  changes nothing.
\<close>

theorem validateToken_once:
  assumes "wf_db db" "0 < PubKeyLengthBytes x"
    and "validateToken x envs request db = (db', Reply resp, calls)"
    and "uuid_Parse x (rq_Token request2) = uuid_Parse x (rq_Token request)"
  shows "\<exists>msg. validateToken x envs2 request2 db' = (db', Fail msg, [])"
proof -
  from assms(3) obtain pk r ts where k: "rq_SignaturePublicKey request = Some pk" "length pk = PubKeyLengthBytes x"
    and r: "uuid_Parse x (rq_Token request) = Some (m_id r)"
    and db': "db' = (with_user (envs 2) (Some pk) db)\<lparr>members := map (\<lambda>y. if m_id y = m_id r
      then r\<lparr>m_public_key := Some pk, m_updated_at := now (envs 2), m_verified := now (envs 2), m_tags := ts\<rparr>
      else y) (members db)\<rparr>"
    by (rule validate_effect [OF assms(1)])
  have taken: "m_public_key y = Some pk" if "y \<in> set (members db')" "m_id y = m_id r" for y
    using that by (auto simp: db' split: if_splits)
  have "validate_check x envs2 request2 db' \<noteq> Inr d" for d
  proof
    assume "validate_check x envs2 request2 db' = Inr d"
    then obtain entity y where "uuid_Parse x (rq_Token request2) = Some (m_id y)" "y \<in> set (members db')"
      "slen (m_public_key y) = 0" by (rule validate_check_Inr)
    then show False using taken [of y] assms(2,4) r k by (simp add: slen_def bts_def)
  qed
  then show ?thesis by (cases "validate_check x envs2 request2 db'") (auto simp: validateToken_def)
qed

theorem validateToken_once_witness:
  "\<exists>msg. validateToken demo_ext demo_envs (demo_request ''cd'' [2, 2])
     (fst (validateToken demo_ext demo_envs (demo_request ''ab'' [1, 1]) demo_db)) =
   (fst (validateToken demo_ext demo_envs (demo_request ''ab'' [1, 1]) demo_db), Fail msg, [])"
proof -
  have "snd (validateToken demo_ext demo_envs (demo_request ''ab'' [1, 1]) demo_db) = (Reply zero_APIresponse, [])"
    by code_simp
  then have v: "validateToken demo_ext demo_envs (demo_request ''ab'' [1, 1]) demo_db =
      (fst (validateToken demo_ext demo_envs (demo_request ''ab'' [1, 1]) demo_db), Reply zero_APIresponse, [])"
    by (metis prod.collapse)
  show ?thesis
    by (rule validateToken_once [OF wf_demo_db _ v]) (simp_all add: demo_ext_def demo_request_def)
qed


end
