(* ===== verification/TokenApi.thy ===== *)
theory TokenApi
  imports Registry
begin

text \<open>
  \<^verbatim>\<open>tokenapi/tokenapi.go\<close>, the API of an entity's own backend: it is not signed, a request carries a
  timestamp and a hash over its fields and the secret that the entity stored.
\<close>

section \<open>Authentication\<close>

definition AuthWindowSeconds :: int where
  "AuthWindowSeconds = 300"

text \<open>
  The dynamic types of the values that the handlers pass to \<^verbatim>\<open>checkAuth\<close>: the type switch has cases
  for strings, slices of strings, \<^verbatim>\<open>ListOptions\<close> and byte slices, and none for a pointer to
  \<^verbatim>\<open>ListOptions\<close>, which therefore adds nothing to the hashed text.
\<close>

datatype field =
    FString string
  | FStrings "string list"
  | FListOptions ListOptions
  | FBytes gobytes
  | FListOptionsPtr "ListOptions option"

fun field_bytes :: "field \<Rightarrow> bytes" where
  "field_bytes (FString s) = str_bytes s"
| "field_bytes (FStrings ks) = concat (map str_bytes ks)"
| "field_bytes (FListOptions v) =
     str_bytes (FormatInt (lo_Skip v) @ FormatInt (lo_Count v) @ lo_Order v @ lo_SortBy v)"
| "field_bytes (FBytes b) = bts b"
| "field_bytes (FListOptionsPtr p) = []"

text \<open>The clock gives the instant \<open>t\<close>; the bounds of the window are sums of \<^verbatim>\<open>int32\<close>, which wrap.\<close>

definition checkAuth :: "ext \<Rightarrow> gotime \<Rightarrow> int \<Rightarrow> string \<Rightarrow> field list \<Rightarrow> bool" where
  "checkAuth x t timestamp auth fs =
     (if length fs = 0 then False
      else let current = to_int32 (Unix t) in
        if timestamp > to_int32 (current + AuthWindowSeconds) \<or>
           timestamp < to_int32 (current - AuthWindowSeconds) then False
        else hex_EncodeToString (HashRaw x (concat (map field_bytes fs))) = TrimHex x auth)"

definition getSecret :: "env \<Rightarrow> gobytes \<Rightarrow> pgdb \<Rightarrow> dberror + string" where
  "getSecret ev entityID db =
     (case Entity ev entityID db of
        Inl e \<Rightarrow> Inl e
      | Inr entity \<Rightarrow> Inr (ei_CallbackSecret (en_Info entity)))"

section \<open>Handlers\<close>

text \<open>What every handler does once it has checked its arguments: it reads the secret, then checks the hash.\<close>

definition authenticate :: "ext \<Rightarrow> envs \<Rightarrow> APIrequest \<Rightarrow> (string \<Rightarrow> field list) \<Rightarrow> pgdb \<Rightarrow> string option" where
  "authenticate x envs request fs db =
     (case getSecret (envs 0) (rq_EntityID request) db of
        Inl ErrNoRows \<Rightarrow> Some ''invalid entityID''
      | Inl _ \<Rightarrow> Some ''error retrieving entity''
      | Inr secret \<Rightarrow>
          if checkAuth x (now (envs 1)) (rq_Timestamp request) (rq_AuthHash request) (fs secret)
          then None else Some ''invalid authentication'')"

definition token_fields :: "APIrequest \<Rightarrow> string \<Rightarrow> field list" where
  "token_fields request secret =
     [FBytes (rq_EntityID request), FString (rq_Method request), FString (FormatInt (rq_Timestamp request)),
      FString (rq_Token request), FString secret]"

definition revoke :: "ext \<Rightarrow> envs \<Rightarrow> APIrequest \<Rightarrow> pgdb \<Rightarrow> pgdb \<times> outcome" where
  "revoke x envs request db =
     (if slen (rq_EntityID request) = 0 then (db, Fail ''invalid entityID'')
      else if length (rq_Token request) = 0 then (db, Fail ''invalid token'')
      else case uuid_Parse x (rq_Token request) of
        None \<Rightarrow> (db, Fail ''invalid token format'')
      | Some uid \<Rightarrow>
          (case authenticate x envs request (token_fields request) db of
             Some msg \<Rightarrow> (db, Fail msg)
           | None \<Rightarrow>
               (case DeleteMember (envs 1) (rq_EntityID request) (Some uid) db of
                  (db', Some _) \<Rightarrow> (db', Fail ''could not delete member'')
                | (db', None) \<Rightarrow> (db', Reply (zero_APIresponse\<lparr>rs_Ok := True\<rparr>)))))"

definition status :: "ext \<Rightarrow> envs \<Rightarrow> APIrequest \<Rightarrow> pgdb \<Rightarrow> pgdb \<times> outcome" where
  "status x envs request db =
     (if slen (rq_EntityID request) = 0 then (db, Fail ''invalid entityID'')
      else if length (rq_Token request) = 0 then (db, Fail ''invalid token'')
      else case uuid_Parse x (rq_Token request) of
        None \<Rightarrow> (db, Fail ''invalid token format'')
      | Some uid \<Rightarrow>
          (case authenticate x envs request (token_fields request) db of
             Some msg \<Rightarrow> (db, Fail msg)
           | None \<Rightarrow>
               (case Member (envs 1) (rq_EntityID request) (Some uid) db of
                  Inl _ \<Rightarrow> (db, Reply (zero_APIresponse\<lparr>rs_TokenStatus := ''invalid''\<rparr>))
                | Inr member \<Rightarrow>
                    if slen (mb_PubKey member) \<noteq> PubKeyLengthBytes x
                    then (db, Reply (zero_APIresponse\<lparr>rs_TokenStatus := ''available''\<rparr>))
                    else (db, Reply (zero_APIresponse\<lparr>rs_TokenStatus := ''registered''\<rparr>)))))"

text \<open>The \<open>n\<close>-th \<^verbatim>\<open>uuid.New()\<close> of the handler is \<open>fresh (envs 1) n\<close>.\<close>

definition generate :: "ext \<Rightarrow> envs \<Rightarrow> APIrequest \<Rightarrow> pgdb \<Rightarrow> pgdb \<times> outcome" where
  "generate x envs request db =
     (if slen (rq_EntityID request) = 0 then (db, Fail ''invalid entityId'')
      else case authenticate x envs request (\<lambda>secret.
             [FString (FormatInt (rq_Amount request)), FBytes (rq_EntityID request), FString (rq_Method request),
              FString (FormatInt (rq_Timestamp request)), FString secret]) db of
        Some msg \<Rightarrow> (db, Fail msg)
      | None \<Rightarrow>
          if rq_Amount request < 1 then (db, Fail ''invalid token amount'')
          else (let tokens = map (fresh (envs 1)) [0..<nat (rq_Amount request)] in
                case CreateMembersWithTokens (envs 1) (rq_EntityID request) tokens db of
                  (db', Some _) \<Rightarrow> (db', Fail ''could not generate tokens'')
                | (db', None) \<Rightarrow> (db', Reply (zero_APIresponse\<lparr>rs_Tokens := tokens\<rparr>))))"

text \<open>The keys of an import, decoded in order; the first text that is not hexadecimal is the error.\<close>

fun import_keys :: "ext \<Rightarrow> string list \<Rightarrow> string + Member list" where
  "import_keys x [] = Inr []"
| "import_keys x (claim # claims) =
     (case hex_DecodeString (TrimHex x claim) of
        None \<Rightarrow> Inl (''error decoding claim ('' @ claim @ '')'')
      | Some k \<Rightarrow>
          (case import_keys x claims of
             Inl msg \<Rightarrow> Inl msg
           | Inr ms \<Rightarrow> Inr (zero_Member\<lparr>mb_PubKey := Some k\<rparr> # ms)))"

definition importKeysBulk :: "ext \<Rightarrow> envs \<Rightarrow> APIrequest \<Rightarrow> pgdb \<Rightarrow> pgdb \<times> outcome" where
  "importKeysBulk x envs request db =
     (if slen (rq_EntityID request) = 0 \<or> length (rq_Keys request) = 0 then (db, Fail ''invalid arguments'')
      else case authenticate x envs request (\<lambda>secret.
             [FStrings (rq_Keys request), FBytes (rq_EntityID request), FString (rq_Method request),
              FString (FormatInt (rq_Timestamp request)), FString secret]) db of
        Some msg \<Rightarrow> (db, Fail msg)
      | None \<Rightarrow>
          (case import_keys x (rq_Keys request) of
             Inl msg \<Rightarrow> (db, Fail msg)
           | Inr ms \<Rightarrow>
               (case AddMemberBulk (envs 1) x (rq_EntityID request) ms db of
                  (db', Some _) \<Rightarrow> (db', Fail ''could not import keys'')
                | (db', None) \<Rightarrow> (db', Reply zero_APIresponse))))"

definition token_checkOptions :: "ListOptions option \<Rightarrow> string \<Rightarrow> string option" where
  "token_checkOptions opts meth =
     (case opts of
        None \<Rightarrow> None
      | Some f \<Rightarrow>
          if lo_Skip f < 0 \<or> lo_Count f < 0 then Some ''invalid skip/count''
          else if lo_Order f \<noteq> [] \<or> lo_SortBy f \<noteq> [] then Some ''invalid filter parameters''
          else None)"

definition listKeys :: "ext \<Rightarrow> envs \<Rightarrow> APIrequest \<Rightarrow> pgdb \<Rightarrow> pgdb \<times> outcome" where
  "listKeys x envs request db =
     (if slen (rq_EntityID request) = 0 then (db, Fail ''invalid arguments'')
      else case authenticate x envs request (\<lambda>secret.
             [FBytes (rq_EntityID request), FListOptionsPtr (rq_ListOptions request), FString (rq_Method request),
              FString (FormatInt (rq_Timestamp request)), FString secret]) db of
        Some msg \<Rightarrow> (db, Fail msg)
      | None \<Rightarrow>
          if token_checkOptions (rq_ListOptions request) (rq_Method request) \<noteq> None
          then (db, Fail ''invalid filter options'')
          else (case ListMembers (envs 1) (rq_EntityID request) (rq_ListOptions request) db of
                  Inl ErrNoRows \<Rightarrow> (db, Fail ''no members found'')
                | Inl _ \<Rightarrow> (db, Fail ''cannot retrieve members'')
                | Inr ms \<Rightarrow> (db, Reply (zero_APIresponse\<lparr>rs_Keys :=
                    map (\<lambda>m. hex_EncodeToString (bts (mb_PubKey m))) (filter (\<lambda>m. slen (mb_PubKey m) > 0) ms)\<rparr>))))"

definition deleteKeys :: "ext \<Rightarrow> envs \<Rightarrow> APIrequest \<Rightarrow> pgdb \<Rightarrow> pgdb \<times> outcome" where
  "deleteKeys x envs request db =
     (if slen (rq_EntityID request) = 0 then (db, Fail ''invalid arguments'')
      else case authenticate x envs request (\<lambda>secret.
             [FBytes (rq_EntityID request), FStrings (rq_Keys request), FString (rq_Method request),
              FString (FormatInt (rq_Timestamp request)), FString secret]) db of
        Some msg \<Rightarrow> (db, Fail msg)
      | None \<Rightarrow>
          (case those (map hex_DecodeString (rq_Keys request)) of
             None \<Rightarrow> (db, Fail ''error decoding keys'')
           | Some keys \<Rightarrow>
               (case DeleteMembersByKeys (envs 1) (rq_EntityID request) keys db of
                  (db', Inl ErrNoRows) \<Rightarrow> (db', Fail ''no members found'')
                | (db', Inl _) \<Rightarrow> (db', Fail ''cannot delete members'')
                | (db', Inr (deleted, invalid)) \<Rightarrow>
                    (db', Reply (zero_APIresponse\<lparr>rs_Count := int deleted,
                                   rs_InvalidKeys := map hex_EncodeToString invalid\<rparr>)))))"

text \<open>
  \<^verbatim>\<open>NewTokenAPI\<close> generates a signer of its own, whose address is \<open>addr\<close>. Without a metrics agent, as
  everywhere here, nothing else is registered.
\<close>

definition NewTokenAPI :: "string + int \<Rightarrow> bytes \<Rightarrow> string \<Rightarrow> bool \<Rightarrow> bool \<Rightarrow> string + 'w RPCAPI" where
  "NewTokenAPI getHealth addr rt r_nil d_nil =
     (if r_nil \<or> d_nil then Inl ''invalid arguments for manager API''
      else Inr (NewAPI getHealth [] addr ''tokenapi'' (rt @ ''/token'') False))"

definition TokenAPI_EnableAPI :: "ext \<Rightarrow> envs \<Rightarrow> pgdb RPCAPI \<Rightarrow> pgdb RPCAPI" where
  "TokenAPI_EnableAPI x envs a =
     RegisterPublic ''deleteKeys'' False (deleteKeys x envs)
      (RegisterPublic ''listKeys'' False (listKeys x envs)
        (RegisterPublic ''importKeysBulk'' False (importKeysBulk x envs)
          (RegisterPublic ''generate'' False (generate x envs)
            (RegisterPublic ''status'' False (status x envs)
              (RegisterPublic ''revoke'' False (revoke x envs) a)))))"

section \<open>Facts\<close>

lemma getSecret_Inr:
  assumes "getSecret ev i db = Inr s"
  obtains r where "r \<in> set (entities db)" "i = Some (e_id r)" "s = e_callback_secret r"
  using assms that
  by (auto simp: getSecret_def Entity_def EntityOrigins_def ToEntity_def scan_entity_def Let_def sql_eq_def e_key_def
      split: sum.splits option.splits if_splits dest!: find_Some_mem)

lemma checkAuth_iff:
  assumes "in_int32 (Unix t - AuthWindowSeconds)" "in_int32 (Unix t + AuthWindowSeconds)"
  shows "checkAuth x t ts auth fs \<longleftrightarrow> fs \<noteq> [] \<and> \<bar>ts - Unix t\<bar> \<le> AuthWindowSeconds \<and>
    TrimHex x auth = hex_EncodeToString (HashRaw x (concat (map field_bytes fs)))"
proof -
  have "in_int32 (Unix t)" using assms by (simp add: in_int32_def AuthWindowSeconds_def)
  then show ?thesis using assms by (auto simp: checkAuth_def Let_def)
qed

lemma authenticate_None:
  assumes "authenticate x envs request fs db = None"
    and "in_int32 (Unix (now (envs 1)) - AuthWindowSeconds)" "in_int32 (Unix (now (envs 1)) + AuthWindowSeconds)"
  obtains r where "r \<in> set (entities db)" "rq_EntityID request = Some (e_id r)"
    "\<bar>rq_Timestamp request - Unix (now (envs 1))\<bar> \<le> AuthWindowSeconds"
    "TrimHex x (rq_AuthHash request) =
      hex_EncodeToString (HashRaw x (concat (map field_bytes (fs (e_callback_secret r)))))"
  using assms that
  by (auto simp: authenticate_def checkAuth_iff split: sum.splits dberror.splits if_splits elim!: getSecret_Inr)

lemma authenticate_calm:
  "authenticate x envs request fs db = None \<Longrightarrow> \<exists>s. getSecret (envs 0) (rq_EntityID request) db = Inr s"
  by (auto simp: authenticate_def split: sum.splits dberror.splits if_splits)

text \<open>Every handler of this API works on behalf of the entity the request names.\<close>

lemma revoke_acts: "acts_for x (bts (rq_EntityID request)) db (fst (revoke x envs request db))"
  by (auto simp: revoke_def split: option.splits prod.splits intro: acts_intros)

lemma status_unchanged [simp]: "fst (status x envs request db) = db"
  by (simp add: status_def split: option.splits sum.splits)

lemma generate_acts: "acts_for x (bts (rq_EntityID request)) db (fst (generate x envs request db))"
  by (auto simp: generate_def Let_def split: option.splits prod.splits intro: acts_intros)

lemma importKeysBulk_acts: "acts_for x (bts (rq_EntityID request)) db (fst (importKeysBulk x envs request db))"
  by (auto simp: importKeysBulk_def split: option.splits sum.splits prod.splits intro: acts_intros)

lemma listKeys_unchanged [simp]: "fst (listKeys x envs request db) = db"
  by (simp add: listKeys_def split: option.splits sum.splits dberror.splits)

lemma deleteKeys_acts: "acts_for x (bts (rq_EntityID request)) db (fst (deleteKeys x envs request db))"
  by (auto simp: deleteKeys_def split: option.splits sum.splits prod.splits dberror.splits intro: acts_intros)

section \<open>The life of a token\<close>

text \<open>
  The abstract view of the tokens of an entity: a token is not valid, valid and free, or used by a
  registered key. Generation, validation and revocation move the tokens they are called for.
\<close>

datatype token_state = Invalid | Available | Registered

fun token_state_text :: "token_state \<Rightarrow> string" where
  "token_state_text Invalid = ''invalid''"
| "token_state_text Available = ''available''"
| "token_state_text Registered = ''registered''"

definition token_map :: "ext \<Rightarrow> bytes \<Rightarrow> pgdb \<Rightarrow> uuid \<Rightarrow> token_state" where
  "token_map x i db u =
     (case find (\<lambda>r. m_id r = u \<and> m_entity_id r = i) (members db) of
        None \<Rightarrow> Invalid
      | Some r \<Rightarrow> if slen (m_public_key r) \<noteq> PubKeyLengthBytes x then Available else Registered)"

datatype token_call = Generate | Validate | Revoke

fun handle_token :: "ext \<Rightarrow> envs \<Rightarrow> token_call \<Rightarrow> APIrequest \<Rightarrow> pgdb \<Rightarrow> pgdb \<times> outcome" where
  "handle_token x envs Generate request db = generate x envs request db"
| "handle_token x envs Validate request db =
     (case validateToken x envs request db of (db', out, calls) \<Rightarrow> (db', out))"
| "handle_token x envs Revoke request db = revoke x envs request db"

fun token_touched :: "ext \<Rightarrow> token_call \<Rightarrow> APIrequest \<Rightarrow> APIresponse \<Rightarrow> uuid set" where
  "token_touched x Generate request resp = set (rs_Tokens resp)"
| "token_touched x _ request resp = set_option (uuid_Parse x (rq_Token request))"

fun token_before :: "token_call \<Rightarrow> token_state set" where
  "token_before Generate = {Invalid}"
| "token_before Validate = {Available}"
| "token_before Revoke = {Available, Registered}"

fun token_after :: "token_call \<Rightarrow> token_state" where
  "token_after Generate = Available"
| "token_after Validate = Registered"
| "token_after Revoke = Invalid"

lemma generate_Reply:
  assumes "generate x envs request db = (db', Reply resp)"
  shows "CreateMembersWithTokens (envs 1) (rq_EntityID request) (rs_Tokens resp) db = (db', None)"
    "rs_Tokens resp = map (fresh (envs 1)) [0..<nat (rq_Amount request)]"
  using assms by (auto simp: generate_def Let_def split: if_splits option.splits prod.splits)

lemma revoke_Reply:
  assumes "revoke x envs request db = (db', Reply resp)"
  obtains uid where "uuid_Parse x (rq_Token request) = Some uid"
    "DeleteMember (envs 1) (rq_EntityID request) (Some uid) db = (db', None)"
  using assms that by (auto simp: revoke_def split: if_splits option.splits prod.splits)

lemma token_map_append:
  assumes "\<forall>r\<in>set rows. m_entity_id r = i \<and> m_public_key r = None" "map m_id rows = ts" "0 < PubKeyLengthBytes x"
    and "set ts \<inter> set (member_ids db) = {}"
  shows "token_map x i (db\<lparr>members := members db @ rows\<rparr>) =
    (\<lambda>u. if u \<in> set ts then Available else token_map x i db u)"
    and "u \<in> set ts \<Longrightarrow> token_map x i db u = Invalid"
proof -
  let ?p = "\<lambda>u r. m_id r = u \<and> m_entity_id r = i"
  have none: "find (?p u) (members db) = None" if "u \<in> set ts" for u
    using that assms(4) by (auto simp: find_None_iff)
  have new: "find (?p u) rows = (if u \<in> set ts then find (\<lambda>r. m_id r = u) rows else None)" for u
    using assms(1) by (auto simp: find_None_iff assms(2) [symmetric] intro: find_cong)
  have free: "m_public_key r = None" if "find (\<lambda>r. m_id r = u) rows = Some r" for u r
    using find_Some_mem [OF that] assms(1) by auto
  have ex: "find (\<lambda>r. m_id r = u) rows \<noteq> None" if "u \<in> set ts" for u
    using that by (auto simp: find_None_iff assms(2) [symmetric])
  have app: "find p (xs @ ys) = (case find p xs of None \<Rightarrow> find p ys | Some r \<Rightarrow> Some r)" for p and xs ys :: "member_row list"
    by (induction xs) auto
  show "token_map x i (db\<lparr>members := members db @ rows\<rparr>) =
    (\<lambda>u. if u \<in> set ts then Available else token_map x i db u)"
  proof
    fix u
    show "token_map x i (db\<lparr>members := members db @ rows\<rparr>) u = (if u \<in> set ts then Available else token_map x i db u)"
      using none [of u] ex [of u] free [of u] assms(3) by (auto simp: token_map_def app new slen_def bts_def split: option.splits)
  qed
  show "u \<in> set ts \<Longrightarrow> token_map x i db u = Invalid" using none by (simp add: token_map_def)
qed

lemma token_map_row:
  assumes "uniq m_key (members db)" "r \<in> set (members db)"
  shows "token_map x (m_entity_id r) db (m_id r) =
    (if slen (m_public_key r) \<noteq> PubKeyLengthBytes x then Available else Registered)"
proof (cases "find (\<lambda>y. m_id y = m_id r \<and> m_entity_id y = m_entity_id r) (members db)")
  case None
  then show ?thesis using assms(2) by (auto simp: find_None_iff)
next
  case (Some y)
  from find_Some_mem [OF this] have "y = r" using uniq_sameD [OF assms(1) _ assms(2), of y] by (simp add: m_key_def)
  then show ?thesis using Some by (simp add: token_map_def)
qed

lemma token_map_none: "(\<And>r. r \<in> set (members db) \<Longrightarrow> m_id r \<noteq> u \<or> m_entity_id r \<noteq> i) \<Longrightarrow> token_map x i db u = Invalid"
  by (auto simp: token_map_def split: option.splits dest!: find_Some_mem)

text \<open>A statement that rewrites or removes the row of one token leaves the other tokens.\<close>

lemma find_map_other:
  "\<forall>r\<in>set xs. p (f r) = p r \<and> (p r \<longrightarrow> f r = r) \<Longrightarrow> find p (map f xs) = find p xs"
  by (induction xs) auto

lemma find_filter_other: "(\<And>r. r \<in> set xs \<Longrightarrow> p r \<Longrightarrow> q r) \<Longrightarrow> find p (filter q xs) = find p xs"
  by (induction xs) auto

lemma token_map_update:
  assumes "uniq m_key (members db)" "uniq m_key (members db')" "r \<in> set (members db)"
    and "members db' = map (\<lambda>y. if m_id y = m_id r then s else y) (members db)"
    and "m_id s = m_id r" "m_entity_id s = m_entity_id r" "slen (m_public_key s) = PubKeyLengthBytes x"
  shows "token_map x (m_entity_id r) db' = (token_map x (m_entity_id r) db)(m_id r := Registered)"
proof
  fix u
  show "token_map x (m_entity_id r) db' u = ((token_map x (m_entity_id r) db)(m_id r := Registered)) u"
  proof (cases "u = m_id r")
    case True
    have "s \<in> set (members db')" using assms(3,4) by (auto intro: image_eqI [where x = r])
    then show ?thesis using token_map_row [OF assms(2), of s x] assms(5-7) True by simp
  next
    case False
    have "find (\<lambda>y. m_id y = u \<and> m_entity_id y = m_entity_id r) (members db') =
        find (\<lambda>y. m_id y = u \<and> m_entity_id y = m_entity_id r) (members db)"
      unfolding assms(4) using False assms(5) by (intro find_map_other) (auto split: if_splits)
    then show ?thesis using False by (simp add: token_map_def)
  qed
qed

lemma token_map_delete:
  assumes "members db' = filter (\<lambda>y. \<not> (m_id y = v \<and> m_entity_id y = i)) (members db)"
  shows "token_map x i db' = (token_map x i db)(v := Invalid)"
proof
  fix u
  show "token_map x i db' u = ((token_map x i db)(v := Invalid)) u"
  proof (cases "u = v")
    case True
    then show ?thesis by (auto simp: assms intro!: token_map_none)
  next
    case False
    have "find (\<lambda>y. m_id y = u \<and> m_entity_id y = i) (members db') = find (\<lambda>y. m_id y = u \<and> m_entity_id y = i) (members db)"
      unfolding assms using False by (intro find_filter_other) auto
    then show ?thesis using False by (simp add: token_map_def)
  qed
qed

lemma validate_token_map:
  assumes "wf_db db" "0 < PubKeyLengthBytes x" "validateToken x envs request db = (db', Reply resp, calls)"
  shows "\<exists>i u. rq_EntityID request = Some i \<and> uuid_Parse x (rq_Token request) = Some u \<and>
    token_map x i db u = Available \<and> token_map x i db' = (token_map x i db)(u := Registered)"
proof -
  have wf: "wf_db db'" using validateToken_acts [of x request db envs] assms(1,3) by (auto dest: acts_for_wf)
  from assms(3) obtain pk r ts where v: "length pk = PubKeyLengthBytes x" "uuid_Parse x (rq_Token request) = Some (m_id r)"
    "rq_EntityID request = Some (m_entity_id r)" "r \<in> set (members db)" "slen (m_public_key r) = 0"
    and db': "db' = (with_user (envs 2) (Some pk) db)\<lparr>members := map (\<lambda>y. if m_id y = m_id r
      then r\<lparr>m_public_key := Some pk, m_updated_at := now (envs 2), m_verified := now (envs 2), m_tags := ts\<rparr>
      else y) (members db)\<rparr>"
    by (rule validate_effect [OF assms(1)])
  define s where "s = r\<lparr>m_public_key := Some pk, m_updated_at := now (envs 2), m_verified := now (envs 2), m_tags := ts\<rparr>"
  have un: "uniq m_key (members db)" "uniq m_key (members db')"
    using assms(1) wf by (simp_all add: wf_db_def wf_members_def)
  have "token_map x (m_entity_id r) db' = (token_map x (m_entity_id r) db)(m_id r := Registered)"
    using v by (intro token_map_update [OF un v(4), of s]) (simp_all add: db' s_def slen_def bts_def)
  then show ?thesis using token_map_row [OF un(1) v(4), of x] v assms(2) by auto
qed

lemma DeleteMember_None:
  assumes "DeleteMember ev entityID (Some u) db = (db', None)"
  obtains r where "r \<in> set (members db)" "m_id r = u" "entityID = Some (m_entity_id r)"
    "members db' = filter (\<lambda>y. \<not> (m_id y = u \<and> m_entity_id y = m_entity_id r)) (members db)"
proof -
  let ?p = "\<lambda>r. m_id r = u \<and> sql_eq entityID (m_entity r)"
  have one: "length (filter ?p (members db)) = 1" and db': "db' = delete_members_where ?p db"
    using assms by (auto simp: DeleteMember_def Let_def split: option.splits if_splits)
  from one obtain r where "filter ?p (members db) = [r]" by (auto simp: length_Suc_conv)
  then have "r \<in> set (filter ?p (members db))" by simp
  then have r: "r \<in> set (members db)" "m_id r = u" "entityID = Some (m_entity_id r)"
    by (auto simp: m_entity_def sql_eq_def)
  have "members db' = filter (\<lambda>y. \<not> (m_id y = u \<and> m_entity_id y = m_entity_id r)) (members db)"
    using r by (auto simp: db' delete_members_where_def Let_def m_entity_def sql_eq_def intro!: filter_cong)
  then show ?thesis by (rule that [OF r])
qed

text \<open>What a handler has checked before it changes anything or answers.\<close>

lemma handler_authenticated:
  assumes "h \<in> {revoke, status, generate, importKeysBulk, listKeys, deleteKeys}"
    and "h x envs request db = (db', out)" "db' \<noteq> db \<or> (\<exists>resp. out = Reply resp)"
  obtains fs pre mid tok where "authenticate x envs request fs db = None"
    "\<And>s. concat (map field_bytes (fs s)) = pre @ bts (rq_EntityID request) @ mid @
      str_bytes (rq_Method request) @ str_bytes (FormatInt (rq_Timestamp request)) @ tok @ str_bytes s"
proof -
  let ?mt = "[FString (rq_Method request), FString (FormatInt (rq_Timestamp request))]"
  consider "h = revoke" | "h = status" | "h = generate" | "h = importKeysBulk" | "h = listKeys" | "h = deleteKeys"
    using assms(1) by blast
  then show ?thesis
  proof cases
    case 1
    then have "authenticate x envs request (token_fields request) db = None"
      using assms(2,3) by (auto simp: revoke_def split: if_splits option.splits)
    then show ?thesis by (rule that [of _ "[]" "[]" "str_bytes (rq_Token request)"]) (simp add: token_fields_def)
  next
    case 2
    then have "authenticate x envs request (token_fields request) db = None"
      using assms(2,3) by (auto simp: status_def split: if_splits option.splits)
    then show ?thesis by (rule that [of _ "[]" "[]" "str_bytes (rq_Token request)"]) (simp add: token_fields_def)
  next
    case 3
    then have "authenticate x envs request (\<lambda>s. [FString (FormatInt (rq_Amount request)), FBytes (rq_EntityID request)]
        @ ?mt @ [FString s]) db = None"
      using assms(2,3) by (auto simp: generate_def split: if_splits option.splits)
    then show ?thesis by (rule that [of _ "str_bytes (FormatInt (rq_Amount request))" "[]" "[]"]) simp
  next
    case 4
    then have "authenticate x envs request (\<lambda>s. [FStrings (rq_Keys request), FBytes (rq_EntityID request)]
        @ ?mt @ [FString s]) db = None"
      using assms(2,3) by (auto simp: importKeysBulk_def split: if_splits option.splits)
    then show ?thesis by (rule that [of _ "concat (map str_bytes (rq_Keys request))" "[]" "[]"]) simp
  next
    case 5
    then have "authenticate x envs request (\<lambda>s. [FBytes (rq_EntityID request), FListOptionsPtr (rq_ListOptions request)]
        @ ?mt @ [FString s]) db = None"
      using assms(2,3) by (auto simp: listKeys_def split: if_splits option.splits)
    then show ?thesis by (rule that [of _ "[]" "[]" "[]"]) simp
  next
    case 6
    then have "authenticate x envs request (\<lambda>s. [FBytes (rq_EntityID request), FStrings (rq_Keys request)]
        @ ?mt @ [FString s]) db = None"
      using assms(2,3) by (auto simp: deleteKeys_def split: if_splits option.splits)
    then show ?thesis by (rule that [of _ "[]" "concat (map str_bytes (rq_Keys request))" "[]"]) simp
  qed
qed

text \<open>The check depends on the hashed text only; when a handler refuses it.\<close>

lemma authenticate_cong:
  assumes "\<And>s. concat (map field_bytes (fs s)) = concat (map field_bytes (gs s))" "\<And>s. fs s \<noteq> []" "\<And>s. gs s \<noteq> []"
    and "rq_EntityID q = rq_EntityID q'" "rq_Timestamp q = rq_Timestamp q'" "rq_AuthHash q = rq_AuthHash q'"
  shows "authenticate x envs q fs db = authenticate x envs q' gs db"
proof -
  have "checkAuth x t ts auth (fs s) = checkAuth x t ts auth (gs s)" for t ts auth s
    using assms(1) [of s] assms(2) [of s] assms(3) [of s] by (simp add: checkAuth_def)
  then show ?thesis using assms(4-6) by (auto simp: authenticate_def split: sum.splits dberror.splits)
qed

lemma listKeys_refused:
  "(snd (listKeys x envs request db) = Fail ''invalid authentication'') = (slen (rq_EntityID request) \<noteq> 0 \<and>
     authenticate x envs request (\<lambda>secret.
             [FBytes (rq_EntityID request), FListOptionsPtr (rq_ListOptions request), FString (rq_Method request),
              FString (FormatInt (rq_Timestamp request)), FString secret]) db = Some ''invalid authentication'')"
  by (auto simp: listKeys_def split: option.splits sum.splits dberror.splits)

lemma deleteKeys_refused:
  "(snd (deleteKeys x envs request db) = Fail ''invalid authentication'') = (slen (rq_EntityID request) \<noteq> 0 \<and>
     authenticate x envs request (\<lambda>secret.
             [FBytes (rq_EntityID request), FStrings (rq_Keys request), FString (rq_Method request),
              FString (FormatInt (rq_Timestamp request)), FString secret]) db = Some ''invalid authentication'')"
  by (auto simp: deleteKeys_def split: option.splits sum.splits dberror.splits prod.splits)

section \<open>Properties\<close>


text \<open>A clock 1000 seconds after the start of 1970, and a request authenticated for it.\<close>

definition demo_clock :: envs where
  "demo_clock k = quiet ((62135596800 + 1000) * 1000000000)"

definition demo_token_request :: "string \<Rightarrow> string \<Rightarrow> APIrequest" where
  "demo_token_request meth auth = (demo_request ''ab'' [])\<lparr>rq_Method := meth, rq_Timestamp := 1000, rq_AuthHash := auth\<rparr>"

lemma demo_clock_range [simp]:
  "in_int32 (Unix (now (demo_clock 1)) - AuthWindowSeconds)" "in_int32 (Unix (now (demo_clock 1)) + AuthWindowSeconds)"
  by (simp_all add: demo_clock_def quiet_def Unix_def in_int32_def AuthWindowSeconds_def)

lemma demo_revoke: "snd (revoke demo_ext demo_clock (demo_token_request ''revoke'' ''0x13'') demo_db) =
    Reply (zero_APIresponse\<lparr>rs_Ok := True\<rparr>)"
  by code_simp


text \<open>
  C4: the handlers refine the life of a token. A successful \<^verbatim>\<open>generate\<close> turns exactly the tokens it
  returns, which were not valid before, into available ones; a successful \<^verbatim>\<open>validateToken\<close> turns the
  one token it names from available into registered; a successful \<^verbatim>\<open>revoke\<close> makes the one token it
  names, which was available or registered, invalid. All other tokens of the entity stay as they are.
\<close>

theorem token_handlers_refine:
  assumes "wf_db db" "0 < PubKeyLengthBytes x" "rq_EntityID request = Some i"
    and "handle_token x envs c request db = (db', Reply resp)"
  shows "(\<forall>u\<in>token_touched x c request resp. token_map x i db u \<in> token_before c) \<and>
    token_map x i db' = (\<lambda>u. if u \<in> token_touched x c request resp then token_after c else token_map x i db u)"
proof (cases c)
  case Generate
  then have g: "CreateMembersWithTokens (envs 1) (Some i) (rs_Tokens resp) db = (db', None)"
    using assms(3,4) generate_Reply(1) by (metis handle_token.simps(1))
  note N = CreateMembersWithTokens_None [OF g]
  from N(2) obtain rows where rows: "map (token_value (now (envs 1)) (Some i)) (rs_Tokens resp) = map Inr rows"
    "db' = db\<lparr>members := members db @ rows\<rparr>"
    by (rule insert_member_values_Inr)
  note tv = token_value_Inr [OF rows(1)]
  have "wf_db db'" using N(2) assms(1) by (rule insert_member_values_wf)
  then have "set (rs_Tokens resp) \<inter> set (member_ids db) = {}"
    using tv rows(2) by (auto simp: wf_db_def wf_members_def uniq_m_key_append)
  then show ?thesis
    using token_map_append [of rows i "rs_Tokens resp" x db] tv assms(2) Generate rows(2) by auto
next
  case Validate
  then obtain calls where "validateToken x envs request db = (db', Reply resp, calls)"
    using assms(4) by (auto split: prod.splits)
  from validate_token_map [OF assms(1,2) this] show ?thesis using assms(3) Validate by auto
next
  case Revoke
  then obtain uid where u: "uuid_Parse x (rq_Token request) = Some uid"
    and d: "DeleteMember (envs 1) (Some i) (Some uid) db = (db', None)"
    using assms(3,4) by (auto elim!: revoke_Reply)
  from d obtain r where "r \<in> set (members db)" "m_id r = uid" "Some i = Some (m_entity_id r)"
    "members db' = filter (\<lambda>y. \<not> (m_id y = uid \<and> m_entity_id y = m_entity_id r)) (members db)"
    by (rule DeleteMember_None)
  then show ?thesis
    using token_map_row [of db r x] token_map_delete [of db' uid i db x] assms(1) u Revoke
    by (auto simp: wf_db_def wf_members_def fun_upd_def)
qed

theorem token_handlers_refine_witness:
  "token_map demo_ext [7] (fst (handle_token demo_ext demo_clock Revoke (demo_token_request ''revoke'' ''0x13'') demo_db)) 2 =
   Invalid \<and> token_map demo_ext [7] demo_db 2 = Available"
proof -
  let ?q = "demo_token_request ''revoke'' ''0x13''"
  have "handle_token demo_ext demo_clock Revoke ?q demo_db =
      (fst (handle_token demo_ext demo_clock Revoke ?q demo_db), Reply (zero_APIresponse\<lparr>rs_Ok := True\<rparr>))"
    using demo_revoke by (metis handle_token.simps(3) prod.collapse)
  moreover have "uuid_Parse demo_ext (rq_Token ?q) = Some 2"
    by (simp add: demo_token_request_def demo_request_def demo_ext_def)
  moreover have "token_map demo_ext [7] demo_db 2 = Available" by code_simp
  ultimately show ?thesis
    using token_handlers_refine [OF wf_demo_db, of demo_ext ?q "[7]" demo_clock Revoke]
    by (auto simp: demo_token_request_def demo_request_def demo_ext_def)
qed

text \<open>
  An authenticated \<^verbatim>\<open>status\<close> request that meets no failure of the server is answered with the
  state of the token in that abstract view.
\<close>

lemma status_reports:
  assumes "rq_EntityID request = Some i" "uuid_Parse x (rq_Token request) = Some u" "no_faults (envs 1)"
    and "status x envs request db = (db', Reply resp)"
  shows "resp = zero_APIresponse\<lparr>rs_TokenStatus := token_state_text (token_map x i db u)\<rparr>"
proof -
  have same: "(\<lambda>r. m_id r = u \<and> sql_eq (Some i) (m_entity r)) = (\<lambda>r. m_id r = u \<and> m_entity_id r = i)"
    by (auto simp: m_entity_def sql_eq_def)
  from assms(4) show ?thesis
    using assms(1-3) by (auto simp: status_def Member_def same token_map_def split: if_splits option.splits)
qed

text \<open>
  C39: the hash does not bind everything it is meant to: the options of \<^verbatim>\<open>listKeys\<close> never enter it,
  because they are passed as a pointer, and of the keys of \<^verbatim>\<open>deleteKeys\<close> only the concatenation does.
  A request accepted with some options or keys is accepted with any options, or any other split.
\<close>

theorem token_auth_not_binding:
  "((snd (listKeys x envs (request\<lparr>rq_ListOptions := o1\<rparr>) db) = Fail ''invalid authentication'') =
    (snd (listKeys x envs (request\<lparr>rq_ListOptions := o2\<rparr>) db) = Fail ''invalid authentication'')) \<and>
   (concat ks1 = concat ks2 \<longrightarrow>
     (snd (deleteKeys x envs (request\<lparr>rq_Keys := ks1\<rparr>) db) = Fail ''invalid authentication'') =
     (snd (deleteKeys x envs (request\<lparr>rq_Keys := ks2\<rparr>) db) = Fail ''invalid authentication''))"
proof -
  have c: "concat (map str_bytes ks) = str_bytes (concat ks)" for ks by (induction ks) (simp_all add: str_bytes_def)
  show ?thesis unfolding listKeys_refused deleteKeys_refused
    by (intro conjI impI arg_cong2 [where f = "(\<and>)"] arg_cong2 [where f = "(=)"] authenticate_cong) (simp_all add: c)
qed

theorem token_auth_not_binding_witness:
  "(snd (deleteKeys demo_ext demo_clock ((demo_token_request ''deleteKeys'' ''19'')\<lparr>rq_Keys := [''ab'', ''cd'']\<rparr>) demo_db) =
      Fail ''invalid authentication'') =
   (snd (deleteKeys demo_ext demo_clock ((demo_token_request ''deleteKeys'' ''19'')\<lparr>rq_Keys := [''abcd'']\<rparr>) demo_db) =
      Fail ''invalid authentication'')"
  using token_auth_not_binding [where x = demo_ext and envs = demo_clock and db = demo_db
      and request = "demo_token_request ''deleteKeys'' ''19''" and ?ks1.0 = "[''ab'', ''cd'']" and ?ks2.0 = "[''abcd'']"] by simp

end
