(* ===== verification/Manager.thy ===== *)
theory Manager
  imports TokenApi
begin

text \<open>
  \<^verbatim>\<open>manager/manager.go\<close>, the API of the organisations, first part: sign-up, the data of the entity,
  its members, their tokens, and the targets. A request is signed; the entity is the address of the
  public key of the signature. \<^verbatim>\<open>m.eth.SendTokens(ctx, address, 0, 0)\<close> is an argument of the two
  handlers that call it: \<open>None\<close> when \<^verbatim>\<open>m.eth\<close> is nil, else what the call returns for an address.
\<close>

section \<open>The caller\<close>

text \<open>How every handler starts: the length of the key, then the entity of the key.\<close>

definition caller_entity :: "ext \<Rightarrow> APIrequest \<Rightarrow> string + bytes" where
  "caller_entity x request =
     (if slen (rq_SignaturePublicKey request) \<noteq> PubKeyLengthBytes x then Inl ''invalid public key''
      else case PubKeyToEntityID x (rq_SignaturePublicKey request) of
        Inl _ \<Rightarrow> Inl ''cannot recover entityID''
      | Inr entityID \<Rightarrow> Inr entityID)"

definition with_caller :: "ext \<Rightarrow> APIrequest \<Rightarrow> pgdb \<Rightarrow> (bytes \<Rightarrow> pgdb \<times> outcome) \<Rightarrow> pgdb \<times> outcome" where
  "with_caller x request db k =
     (case caller_entity x request of
        Inl msg \<Rightarrow> (db, Fail msg)
      | Inr entityID \<Rightarrow> k entityID)"

text \<open>\<^verbatim>\<open>big.Int.Int64\<close> keeps the low 64 bits.\<close>

definition to_int64 :: "int \<Rightarrow> int" where
  [go_defs]: "to_int64 i = (i + 9223372036854775808) mod 18446744073709551616 - 9223372036854775808"

section \<open>Entities\<close>

type_synonym faucet = "(bytes \<Rightarrow> string + int) option"

definition signUp_info :: "bytes \<Rightarrow> EntityInfo option \<Rightarrow> EntityInfo" where
  "signUp_info entityID entity =
     (let info = zero_EntityInfo\<lparr>ei_CensusManagersAddresses := Some [entityID], ei_Origins := [Token]\<rparr> in
      case entity of
        None \<Rightarrow> info
      | Some e \<Rightarrow> info\<lparr>ei_Name := ei_Name e, ei_Email := ei_Email e, ei_Size := ei_Size e, ei_Type := ei_Type e,
                     ei_Consented := ei_Consented e\<rparr>)"

definition all_target :: "bytes \<Rightarrow> Target" where
  "all_target entityID = zero_Target\<lparr>tg_EntityID := Some entityID, tg_Name := ''all'', tg_Filters := Some [123, 125]\<rparr>"

text \<open>The end of \<^verbatim>\<open>signUp\<close>: tokens for a new wallet; one that has a balance already is no error.\<close>

definition signUp_tokens :: "ext \<Rightarrow> faucet \<Rightarrow> bytes \<Rightarrow> outcome" where
  "signUp_tokens x eth entityID =
     (case eth of
        None \<Rightarrow> Reply zero_APIresponse
      | Some SendTokens \<Rightarrow>
          (case SendTokens entityID of
             Inl msg \<Rightarrow>
               if \<not> strings_Contains msg ''maxAcceptedBalance''
               then Fail (''could not send tokens to '' @ AddressString x entityID)
               else Reply zero_APIresponse
           | Inr sent \<Rightarrow> Reply (zero_APIresponse\<lparr>rs_Count := to_int64 sent\<rparr>)))"

definition signUp :: "ext \<Rightarrow> envs \<Rightarrow> faucet \<Rightarrow> APIrequest \<Rightarrow> pgdb \<Rightarrow> pgdb \<times> outcome" where
  "signUp x envs eth request db =
     with_caller x request db (\<lambda>entityID.
       case AddEntity (envs 0) (Some entityID) (signUp_info entityID (rq_Entity request)) db of
         (db1, err) \<Rightarrow>
           if (case err of None \<Rightarrow> False | Some e \<Rightarrow> \<not> strings_Contains (err_text e) ''entities_pkey'')
           then (db1, Fail ''cannot add entity to the DB'')
           else
             (case AddTarget (envs 1) x (Some entityID) (all_target entityID) db1 of
                (db2, r) \<Rightarrow>
                  if (case r of Inr _ \<Rightarrow> False | Inl e \<Rightarrow> \<not> strings_Contains (err_text e) ''result has no rows'')
                  then (db2, Fail ''cannot create entity generic target'')
                  else (db2, signUp_tokens x eth entityID)))"

definition getEntity :: "ext \<Rightarrow> envs \<Rightarrow> APIrequest \<Rightarrow> pgdb \<Rightarrow> pgdb \<times> outcome" where
  "getEntity x envs request db =
     with_caller x request db (\<lambda>entityID.
       case Entity (envs 0) (Some entityID) db of
         Inl ErrNoRows \<Rightarrow> (db, Fail ''entity not found'')
       | Inl _ \<Rightarrow> (db, Fail ''cannot retrieve entity'')
       | Inr entity \<Rightarrow> (db, Reply (zero_APIresponse\<lparr>rs_Entity := Some entity\<rparr>)))"

definition updateEntity :: "ext \<Rightarrow> envs \<Rightarrow> APIrequest \<Rightarrow> pgdb \<Rightarrow> pgdb \<times> outcome" where
  "updateEntity x envs request db =
     with_caller x request db (\<lambda>entityID.
       case rq_Entity request of
         None \<Rightarrow> (db, Fail ''no entity data to update'')
       | Some e \<Rightarrow>
           (let info = zero_EntityInfo\<lparr>ei_Name := ei_Name e, ei_Email := ei_Email e,
                  ei_CallbackURL := [], ei_CallbackSecret := []\<rparr>;
                info1 = (if length (ei_CallbackURL e) > 0 then info\<lparr>ei_CallbackURL := ei_CallbackURL e\<rparr> else info);
                info2 = (if length (ei_CallbackSecret e) > 0 then info1\<lparr>ei_CallbackSecret := ei_CallbackSecret e\<rparr> else info1)
            in case UpdateEntity (envs 0) (Some entityID) info2 db of
                 (db', Inl _) \<Rightarrow> (db', Fail ''cannot update entity'')
               | (db', Inr n) \<Rightarrow> (db', Reply (zero_APIresponse\<lparr>rs_Count := int n\<rparr>))))"

definition adminEntityList :: "ext \<Rightarrow> envs \<Rightarrow> APIrequest \<Rightarrow> pgdb \<Rightarrow> pgdb \<times> outcome" where
  "adminEntityList x envs request db =
     with_caller x request db (\<lambda>entityID.
       if AddressString x entityID \<noteq> ''0xCc41C6545234ac63F11c47bC282f89Ca77aB9945'' then (db, Fail ''invalid auth'')
       else case AdminEntityList (envs 0) db of
         Inl ErrNoRows \<Rightarrow> (db, Fail ''no entities found'')
       | Inl _ \<Rightarrow> (db, Fail ''cannot retrieve entities'')
       | Inr es \<Rightarrow> (db, Reply (zero_APIresponse\<lparr>rs_Entities := es\<rparr>)))"

definition requestGas :: "ext \<Rightarrow> envs \<Rightarrow> faucet \<Rightarrow> APIrequest \<Rightarrow> pgdb \<Rightarrow> pgdb \<times> outcome" where
  "requestGas x envs eth request db =
     (case eth of
        None \<Rightarrow> (db, Fail ''internal error'')
      | Some SendTokens \<Rightarrow>
          with_caller x request db (\<lambda>entityID.
            case Entity (envs 0) (Some entityID) db of
              Inl ErrNoRows \<Rightarrow> (db, Fail ''entity not found'')
            | Inl _ \<Rightarrow> (db, Fail ''cannot retrieve entity'')
            | Inr _ \<Rightarrow>
                (case SendTokens entityID of
                   Inl _ \<Rightarrow> (db, Fail ''error sending tokens'')
                 | Inr sent \<Rightarrow> (db, Reply (zero_APIresponse\<lparr>rs_Count := to_int64 sent\<rparr>)))))"

section \<open>List options\<close>

text \<open>The field names that reflection finds in \<^verbatim>\<open>types.MemberInfo\<close> and \<^verbatim>\<open>types.CensusInfo\<close>, by method.\<close>

definition checkOptions :: "ListOptions option \<Rightarrow> string \<Rightarrow> string option" where
  "checkOptions opts meth =
     (case opts of
        None \<Rightarrow> None
      | Some f \<Rightarrow>
          if lo_Skip f < 0 \<or> lo_Count f < 0 then Some ''invalid skip/count''
          else case (if meth = ''listMembers'' then Some MemberInfo_fields
                     else if meth = ''listCensus'' then Some CensusInfo_fields
                     else None) of
            None \<Rightarrow> Some ''invalid method''
          | Some t \<Rightarrow>
              if length (lo_SortBy f) > 0 then
                (if map_of t (strings_Title (lo_SortBy f)) = None then Some ''invalid filter field''
                 else if ToOrderBySQLi (lo_SortBy f) = - 1
                 then Some (''invalid sort by field on query: '' @ lo_SortBy f)
                 else if length (lo_Order f) > 0 \<and> \<not> (lo_Order f = ''ascend'' \<or> lo_Order f = ''descend'')
                 then Some ''invalid filter order''
                 else None)
              else if length (lo_Order f) > 0 then Some ''invalid filter order''
              else None)"

section \<open>Members\<close>

definition listMembers :: "ext \<Rightarrow> envs \<Rightarrow> APIrequest \<Rightarrow> pgdb \<Rightarrow> pgdb \<times> outcome" where
  "listMembers x envs request db =
     with_caller x request db (\<lambda>entityID.
       if checkOptions (rq_ListOptions request) (rq_Method request) \<noteq> None then (db, Fail ''invalid filter options'')
       else case ListMembers (envs 0) (Some entityID) (rq_ListOptions request) db of
         Inl ErrNoRows \<Rightarrow> (db, Fail ''no members found'')
       | Inl _ \<Rightarrow> (db, Fail ''cannot retrieve members'')
       | Inr ms \<Rightarrow> (db, Reply (zero_APIresponse\<lparr>rs_Members := ms\<rparr>)))"

text \<open>
  \<^verbatim>\<open>getMember\<close> gives the first target of the entity as the target of the member. When the targets
  cannot be read the slice is empty, so the test for an empty slice comes first and the handler
  answers with an empty target.
\<close>

definition getMember :: "ext \<Rightarrow> envs \<Rightarrow> APIrequest \<Rightarrow> pgdb \<Rightarrow> pgdb \<times> outcome" where
  "getMember x envs request db =
     (case rq_MemberID request of
        None \<Rightarrow> (db, Fail ''invalid memberId'')
      | Some memberID \<Rightarrow>
          with_caller x request db (\<lambda>entityID.
            case Member (envs 0) (Some entityID) (Some memberID) db of
              Inl ErrNoRows \<Rightarrow> (db, Fail ''member not found'')
            | Inl _ \<Rightarrow> (db, Fail ''cannot retrieve member'')
            | Inr member \<Rightarrow>
                (let target = (case ListTargets (envs 1) (Some entityID) db of
                       Inl _ \<Rightarrow> zero_Target
                     | Inr [] \<Rightarrow> zero_Target
                     | Inr (t # _) \<Rightarrow> t)
                 in (db, Reply (zero_APIresponse\<lparr>rs_Member := Some member, rs_Target := Some target\<rparr>)))))"

definition updateMember :: "ext \<Rightarrow> envs \<Rightarrow> APIrequest \<Rightarrow> pgdb \<Rightarrow> pgdb \<times> outcome" where
  "updateMember x envs request db =
     (case rq_Member request of
        None \<Rightarrow> (db, Fail ''invalid member struct'')
      | Some member \<Rightarrow>
          with_caller x request db (\<lambda>entityID.
            case UpdateMember (envs 0) x (Some entityID) (Some (mb_ID member)) (mb_Info member) db of
              (db', Inl _) \<Rightarrow> (db', Fail ''cannot update member'')
            | (db', Inr n) \<Rightarrow> (db', Reply (zero_APIresponse\<lparr>rs_Count := int n\<rparr>))))"

definition deleteMembers :: "ext \<Rightarrow> envs \<Rightarrow> APIrequest \<Rightarrow> pgdb \<Rightarrow> pgdb \<times> outcome" where
  "deleteMembers x envs request db =
     (if length (rq_MemberIDs request) = 0 then (db, Fail ''invalid member list'')
      else with_caller x request db (\<lambda>entityID.
        case DeleteMembers (envs 0) (Some entityID) (rq_MemberIDs request) db of
          (db', Inl _) \<Rightarrow> (db', Fail ''error deleting members'')
        | (db', Inr (n, invalid)) \<Rightarrow>
            (db', Reply (zero_APIresponse\<lparr>rs_Count := int n, rs_InvalidIDs := invalid\<rparr>))))"

definition countMembers :: "ext \<Rightarrow> envs \<Rightarrow> APIrequest \<Rightarrow> pgdb \<Rightarrow> pgdb \<times> outcome" where
  "countMembers x envs request db =
     with_caller x request db (\<lambda>entityID.
       case CountMembers (envs 0) (Some entityID) db of
         Inl _ \<Rightarrow> (db, Fail ''cannot count members'')
       | Inr n \<Rightarrow> (db, Reply (zero_APIresponse\<lparr>rs_Count := int n\<rparr>)))"

definition generateTokens :: "ext \<Rightarrow> envs \<Rightarrow> APIrequest \<Rightarrow> pgdb \<Rightarrow> pgdb \<times> outcome" where
  "generateTokens x envs request db =
     with_caller x request db (\<lambda>entityID.
       if rq_Amount request < 1 then (db, Fail ''invalid token amount'')
       else (let tokens = map (fresh (envs 0)) [0..<nat (rq_Amount request)] in
             case CreateMembersWithTokens (envs 0) (Some entityID) tokens db of
               (db', Some _) \<Rightarrow> (db', Fail ''could not register generated tokens'')
             | (db', None) \<Rightarrow> (db', Reply (zero_APIresponse\<lparr>rs_Tokens := tokens\<rparr>))))"

definition exportTokens :: "ext \<Rightarrow> envs \<Rightarrow> APIrequest \<Rightarrow> pgdb \<Rightarrow> pgdb \<times> outcome" where
  "exportTokens x envs request db =
     with_caller x request db (\<lambda>entityID.
       case MembersTokensEmails (envs 0) (Some entityID) db of
         Inl ErrNoRows \<Rightarrow> (db, Fail ''no members found'')
       | Inl _ \<Rightarrow> (db, Fail ''could not retrieve members tokens'')
       | Inr ms \<Rightarrow> (db, Reply (zero_APIresponse\<lparr>rs_MembersTokens :=
           map (\<lambda>m. \<lparr>te_Token = mb_ID m, te_Email = mi_Email (mb_Info m)\<rparr>) ms\<rparr>)))"

definition importMembers :: "ext \<Rightarrow> envs \<Rightarrow> APIrequest \<Rightarrow> pgdb \<Rightarrow> pgdb \<times> outcome" where
  "importMembers x envs request db =
     with_caller x request db (\<lambda>entityID.
       if length (rq_MembersInfo request) < 1 then (db, Fail ''no member data provided'')
       else (let infos = map (\<lambda>info. info\<lparr>mi_Origin := Token\<rparr>) (rq_MembersInfo request) in
             case ImportMembers (envs 0) x (Some entityID) infos db of
               (db', Some _) \<Rightarrow> (db', Fail ''could not import members'')
             | (db', None) \<Rightarrow> (db', Reply zero_APIresponse)))"

section \<open>Targets\<close>

definition countTargets :: "ext \<Rightarrow> envs \<Rightarrow> APIrequest \<Rightarrow> pgdb \<Rightarrow> pgdb \<times> outcome" where
  "countTargets x envs request db =
     with_caller x request db (\<lambda>entityID.
       case CountTargets (envs 0) (Some entityID) db of
         Inl _ \<Rightarrow> (db, Fail ''cannot count targets'')
       | Inr n \<Rightarrow> (db, Reply (zero_APIresponse\<lparr>rs_Count := int n\<rparr>)))"

definition listTargets :: "ext \<Rightarrow> envs \<Rightarrow> APIrequest \<Rightarrow> pgdb \<Rightarrow> pgdb \<times> outcome" where
  "listTargets x envs request db =
     with_caller x request db (\<lambda>entityID.
       case checkOptions (rq_ListOptions request) (rq_Method request) of
         Some msg \<Rightarrow> (db, Fail (''invalid filter options: ('' @ msg @ '')''))
       | None \<Rightarrow>
           (case ListTargets (envs 0) (Some entityID) db of
              Inl ErrNoRows \<Rightarrow> (db, Fail ''no targets found'')
            | Inl _ \<Rightarrow> (db, Fail ''cannot query targets'')
            | Inr ts \<Rightarrow>
                if length ts = 0 then (db, Fail ''cannot query targets'')
                else (db, Reply (zero_APIresponse\<lparr>rs_Targets := ts\<rparr>))))"

definition getTarget :: "ext \<Rightarrow> envs \<Rightarrow> APIrequest \<Rightarrow> pgdb \<Rightarrow> pgdb \<times> outcome" where
  "getTarget x envs request db =
     with_caller x request db (\<lambda>entityID.
       case Target (envs 0) (Some entityID) (rq_TargetID request) db of
         Inl ErrNoRows \<Rightarrow> (db, Fail ''target not found'')
       | Inl _ \<Rightarrow> (db, Fail ''could not retrieve target'')
       | Inr target \<Rightarrow>
           (case TargetMembers (envs 1) (Some entityID) (rq_TargetID request) db of
              Inl _ \<Rightarrow> (db, Fail ''members for requested target could not be retrieved'')
            | Inr ms \<Rightarrow> (db, Reply (zero_APIresponse\<lparr>rs_Target := Some target, rs_Members := ms\<rparr>))))"

definition dumpTarget :: "ext \<Rightarrow> envs \<Rightarrow> APIrequest \<Rightarrow> pgdb \<Rightarrow> pgdb \<times> outcome" where
  "dumpTarget x envs request db =
     with_caller x request db (\<lambda>entityID.
       case Target (envs 0) (Some entityID) (rq_TargetID request) db of
         Inl ErrNoRows \<Rightarrow> (db, Fail ''target not found'')
       | Inl _ \<Rightarrow> (db, Fail ''could not retrieve target'')
       | Inr target \<Rightarrow>
           if tg_Name target \<noteq> ''all'' then (db, Fail ''could not retrieve target'')
           else (case DumpClaims (envs 1) (Some entityID) db of
                   Inl ErrNoRows \<Rightarrow> (db, Fail ''no claims found'')
                 | Inl _ \<Rightarrow> (db, Fail ''cannot dump claims'')
                 | Inr claims \<Rightarrow> (db, Reply (zero_APIresponse\<lparr>rs_Claims := map Some claims\<rparr>))))"

end
