(* ===== verification/ManagerCensus.thy ===== *)
theory ManagerCensus
  imports Manager
begin

text \<open>
  \<^verbatim>\<open>manager/manager.go\<close>, second part: the censuses and the tags of an entity.
\<close>

section \<open>Censuses\<close>

text \<open>
  The claims in the order of \<open>perm\<close>, the value of \<^verbatim>\<open>rand.Perm(len(censusMembers))\<close>: the claim of the
  \<open>i\<close>-th entry goes to the place \<open>perm ! i\<close>.
\<close>

definition shuffle :: "nat list \<Rightarrow> CensusMember list \<Rightarrow> gobytes list" where
  "shuffle perm cms =
     fold (\<lambda>(i, v) claims. claims[v := cm_DigestedPubKey (cms ! i)]) (enumerate 0 perm) (replicate (length cms) None)"

definition dumpCensus :: "ext \<Rightarrow> envs \<Rightarrow> (nat \<Rightarrow> nat list) \<Rightarrow> APIrequest \<Rightarrow> pgdb \<Rightarrow> pgdb \<times> outcome" where
  "dumpCensus x envs rand_Perm request db =
     with_caller x request db (\<lambda>entityID.
       case DecodeCensusID x (rq_CensusID request) (rq_SignaturePublicKey request) of
         Inl _ \<Rightarrow> (db, Fail ''cannot decode census id'')
       | Inr censusID \<Rightarrow>
           (case ExpandCensusMembers (envs 0) x (Some entityID) (Some censusID) db of
              None \<Rightarrow> (db, Panic)
            | Some (db', Inl _) \<Rightarrow> (db', Fail ''cannot dump claims'')
            | Some (db', Inr cms) \<Rightarrow>
                (db', Reply (zero_APIresponse\<lparr>rs_Claims := shuffle (rand_Perm (length cms)) cms\<rparr>))))"

text \<open>
  \<^verbatim>\<open>addCensus\<close>: the first guard of the source, \<^verbatim>\<open>len(request.TargetID) == 0\<close> on a pointer to an array of
  16 bytes, is the constant comparison \<^verbatim>\<open>16 == 0\<close>.
\<close>

definition addCensus :: "ext \<Rightarrow> envs \<Rightarrow> APIrequest \<Rightarrow> pgdb \<Rightarrow> pgdb \<times> outcome" where
  "addCensus x envs request db =
     (if (16::nat) = 0 then (db, Fail ''invalid target id'')
      else if length (rq_CensusID request) = 0 then (db, Fail ''invalid census id'')
      else with_caller x request db (\<lambda>entityID.
        case DecodeCensusID x (rq_CensusID request) (rq_SignaturePublicKey request) of
          Inl msg \<Rightarrow> (db, Fail msg)
        | Inr censusID \<Rightarrow>
            (case AddCensus (envs 0) (Some entityID) (Some censusID) (rq_TargetID request) (rq_Census request) db of
               (db', Some _) \<Rightarrow> (db', Fail ''cannot add census'')
             | (db', None) \<Rightarrow> (db', Reply zero_APIresponse))))"

definition updateCensus :: "ext \<Rightarrow> envs \<Rightarrow> APIrequest \<Rightarrow> pgdb \<Rightarrow> pgdb \<times> outcome" where
  "updateCensus x envs request db =
     (if length (rq_CensusID request) = 0 then (db, Fail ''invalid census id'')
      else if rq_Census request = None then (db, Fail ''invalid census info'')
      else with_caller x request db (\<lambda>entityID.
        case DecodeCensusID x (rq_CensusID request) (rq_SignaturePublicKey request) of
          Inl msg \<Rightarrow> (db, Fail msg)
        | Inr censusID \<Rightarrow>
            (case UpdateCensus (envs 0) (Some entityID) (Some censusID) (rq_Census request) db of
               (db', Inl _) \<Rightarrow> (db', Fail ''cannot update census'')
             | (db', Inr n) \<Rightarrow> (db', Reply (zero_APIresponse\<lparr>rs_Count := int n\<rparr>)))))"

definition getCensus :: "ext \<Rightarrow> envs \<Rightarrow> APIrequest \<Rightarrow> pgdb \<Rightarrow> pgdb \<times> outcome" where
  "getCensus x envs request db =
     (if length (rq_CensusID request) = 0 then (db, Fail ''invalid census id'')
      else with_caller x request db (\<lambda>entityID.
        case DecodeCensusID x (rq_CensusID request) (rq_SignaturePublicKey request) of
          Inl _ \<Rightarrow> (db, Fail ''cannot decode census id'')
        | Inr censusID \<Rightarrow>
            (case Census (envs 0) (Some entityID) (Some censusID) db of
               Inl ErrNoRows \<Rightarrow> (db, Fail ''census not found'')
             | Inl _ \<Rightarrow> (db, Fail ''cannot query for censuses'')
             | Inr census \<Rightarrow>
                 (case Target (envs 1) (Some entityID) (Some (cs_TargetID census)) db of
                    Inl _ \<Rightarrow> (db, Fail ''census target not found'')
                  | Inr target \<Rightarrow>
                      (db, Reply (zero_APIresponse\<lparr>rs_Census := Some census, rs_Target := Some target\<rparr>))))))"

definition countCensus :: "ext \<Rightarrow> envs \<Rightarrow> APIrequest \<Rightarrow> pgdb \<Rightarrow> pgdb \<times> outcome" where
  "countCensus x envs request db =
     with_caller x request db (\<lambda>entityID.
       case CountCensus (envs 0) (Some entityID) db of
         Inl _ \<Rightarrow> (db, Fail ''cannot count censuses'')
       | Inr n \<Rightarrow> (db, Reply (zero_APIresponse\<lparr>rs_Count := int n\<rparr>)))"

text \<open>\<^verbatim>\<open>listCensus\<close> answers \<^verbatim>\<open>invalid public key\<close> also when the address cannot be recovered.\<close>

definition listCensus :: "ext \<Rightarrow> envs \<Rightarrow> APIrequest \<Rightarrow> pgdb \<Rightarrow> pgdb \<times> outcome" where
  "listCensus x envs request db =
     (case caller_entity x request of
        Inl _ \<Rightarrow> (db, Fail ''invalid public key'')
      | Inr entityID \<Rightarrow>
          if checkOptions (rq_ListOptions request) (rq_Method request) \<noteq> None
          then (db, Fail ''invalid filter options'')
          else (case ListCensus (envs 0) (Some entityID) (rq_ListOptions request) db of
                  Inl ErrNoRows \<Rightarrow> (db, Fail ''no censuses found'')
                | Inl _ \<Rightarrow> (db, Fail ''cannot query for censuses'')
                | Inr cs \<Rightarrow> (db, Reply (zero_APIresponse\<lparr>rs_Censuses := cs\<rparr>))))"

definition deleteCensus :: "ext \<Rightarrow> envs \<Rightarrow> APIrequest \<Rightarrow> pgdb \<Rightarrow> pgdb \<times> outcome" where
  "deleteCensus x envs request db =
     (if length (rq_CensusID request) = 0 then (db, Fail ''invalid census id'')
      else with_caller x request db (\<lambda>entityID.
        case DecodeCensusID x (rq_CensusID request) (rq_SignaturePublicKey request) of
          Inl _ \<Rightarrow> (db, Fail ''cannot decode census id'')
        | Inr censusID \<Rightarrow>
            (case DeleteCensus (envs 0) (Some entityID) (Some censusID) db of
               (db', err) \<Rightarrow>
                 if err \<noteq> None \<and> err \<noteq> Some ErrNoRows then (db', Fail ''cannot delete census'')
                 else (db', Reply zero_APIresponse))))"

section \<open>Tags\<close>

definition createTag :: "ext \<Rightarrow> envs \<Rightarrow> APIrequest \<Rightarrow> pgdb \<Rightarrow> pgdb \<times> outcome" where
  "createTag x envs request db =
     (if rq_TagName request = [] then (db, Fail ''invalid tag name'')
      else with_caller x request db (\<lambda>entityID.
        case AddTag (envs 0) (Some entityID) (rq_TagName request) db of
          (db', Inl _) \<Rightarrow> (db', Fail ''cannot create tag '')
        | (db', Inr tagID) \<Rightarrow>
            (db', Reply (zero_APIresponse\<lparr>rs_Tag := Some \<lparr>ta_ID = tagID, ta_EntityID = None,
                                             ta_Name = rq_TagName request\<rparr>\<rparr>))))"

definition listTags :: "ext \<Rightarrow> envs \<Rightarrow> APIrequest \<Rightarrow> pgdb \<Rightarrow> pgdb \<times> outcome" where
  "listTags x envs request db =
     with_caller x request db (\<lambda>entityID.
       case ListTags (envs 0) (Some entityID) db of
         Inl ErrNoRows \<Rightarrow> (db, Fail ''no tags found'')
       | Inl _ \<Rightarrow> (db, Fail ''cannot retrieve tags'')
       | Inr ts \<Rightarrow> (db, Reply (zero_APIresponse\<lparr>rs_Tags := ts\<rparr>)))"

definition deleteTag :: "ext \<Rightarrow> envs \<Rightarrow> APIrequest \<Rightarrow> pgdb \<Rightarrow> pgdb \<times> outcome" where
  "deleteTag x envs request db =
     (if rq_TagID request = 0 then (db, Fail ''invalid tag id'')
      else with_caller x request db (\<lambda>entityID.
        case DeleteTag (envs 0) (Some entityID) (rq_TagID request) db of
          (db', Some _) \<Rightarrow> (db', Fail ''cannot delete tag '')
        | (db', None) \<Rightarrow> (db', Reply zero_APIresponse)))"

definition addTag :: "ext \<Rightarrow> envs \<Rightarrow> APIrequest \<Rightarrow> pgdb \<Rightarrow> pgdb \<times> outcome" where
  "addTag x envs request db =
     (if rq_TagID request = 0 \<or> length (rq_MemberIDs request) = 0 then (db, Fail ''invalid arguments'')
      else with_caller x request db (\<lambda>entityID.
        case AddTagToMembers (envs 0) (Some entityID) (rq_MemberIDs request) (rq_TagID request) db of
          (db', Inl _) \<Rightarrow> (db', Fail ''cannot add tag '')
        | (db', Inr (n, invalid)) \<Rightarrow>
            (db', Reply (zero_APIresponse\<lparr>rs_Count := int n, rs_InvalidIDs := invalid\<rparr>))))"

definition removeTag :: "ext \<Rightarrow> envs \<Rightarrow> APIrequest \<Rightarrow> pgdb \<Rightarrow> pgdb \<times> outcome" where
  "removeTag x envs request db =
     (if rq_TagID request = 0 \<or> length (rq_MemberIDs request) = 0 then (db, Fail ''invalid arguments'')
      else with_caller x request db (\<lambda>entityID.
        case RemoveTagFromMembers (envs 0) (Some entityID) (rq_MemberIDs request) (rq_TagID request) db of
          (db', Inl _) \<Rightarrow> (db', Fail ''cannot remove tag '')
        | (db', Inr (n, invalid)) \<Rightarrow>
            (db', Reply (zero_APIresponse\<lparr>rs_Count := int n, rs_InvalidIDs := invalid\<rparr>))))"

end
