(* ===== verification/Templates.thy ===== *)
theory Templates
  imports Prelude
begin

text \<open>
  The plain text of the mails: the templates of \<^verbatim>\<open>smtpclient/static.go\<close>, byte by byte in UTF-8, and
  what they use of Go's \<^verbatim>\<open>text/template\<close>: fields, and conditionals on a field that is not empty.
\<close>

section \<open>The template language\<close>

datatype token = TText string | TAction string

text \<open>The text before and after the first place where a character stands twice in a row.\<close>

fun cut_twice :: "char \<Rightarrow> string \<Rightarrow> (string \<times> string) option" where
  "cut_twice c (a # b # s) =
     (if a = c \<and> b = c then Some ([], s) else map_option (\<lambda>(p, q). (a # p, q)) (cut_twice c (b # s)))"
| "cut_twice c s = None"

lemma cut_twice_length: "cut_twice c s = Some (p, q) \<Longrightarrow> length q < length s"
  by (induction c s arbitrary: p rule: cut_twice.induct) (auto split: if_splits intro: less_SucI)

definition text_token :: "string \<Rightarrow> token list" where
  "text_token s = (if s = [] then [] else [TText s])"

function lex_template :: "string \<Rightarrow> token list option" where
  "lex_template s =
     (case cut_twice (CHR ''{'') s of
        None \<Rightarrow> Some (text_token s)
      | Some (p, r) \<Rightarrow>
          (case cut_twice (CHR ''}'') r of
             None \<Rightarrow> None
           | Some (act, r') \<Rightarrow> map_option (\<lambda>ts. text_token p @ TAction act # ts) (lex_template r')))"
  by pat_completeness auto
termination by (relation "measure length") (auto dest!: cut_twice_length)

declare lex_template.simps [simp del]

datatype tnode = Lit string | Field string | IfField string "tnode list"

text \<open>\<open>acc\<close> are the nodes of the innermost open conditional, in reverse, \<open>opened\<close> the conditionals around it.\<close>

fun parse_tokens :: "token list \<Rightarrow> tnode list \<Rightarrow> (string \<times> tnode list) list \<Rightarrow> tnode list option" where
  "parse_tokens [] acc opened = (if opened = [] then Some (rev acc) else None)"
| "parse_tokens (TText s # ts) acc opened = parse_tokens ts (Lit s # acc) opened"
| "parse_tokens (TAction a # ts) acc opened =
     (if a = ''end'' then
        (case opened of
           [] \<Rightarrow> None
         | (f, outer) # opened' \<Rightarrow> parse_tokens ts (IfField f (rev acc) # outer) opened')
      else if strings_HasPrefix a ''if .'' then parse_tokens ts [] ((drop 4 a, acc) # opened)
      else if strings_HasPrefix a ''.'' then parse_tokens ts (Field (drop 1 a) # acc) opened
      else None)"

definition parse_template :: "string \<Rightarrow> tnode list option" where
  "parse_template s = (case lex_template s of None \<Rightarrow> None | Some ts \<Rightarrow> parse_tokens ts [] [])"

text \<open>\<open>data f\<close> is the value of the field \<open>f\<close> of the data, \<open>None\<close> when the struct has no such field, an error.\<close>

fun execute_template :: "(string \<Rightarrow> string option) \<Rightarrow> tnode list \<Rightarrow> string option" where
  "execute_template data [] = Some []"
| "execute_template data (Lit s # ns) = map_option ((@) s) (execute_template data ns)"
| "execute_template data (Field f # ns) =
     (case data f of None \<Rightarrow> None | Some v \<Rightarrow> map_option ((@) v) (execute_template data ns))"
| "execute_template data (IfField f body # ns) =
     (case data f of
        None \<Rightarrow> None
      | Some v \<Rightarrow>
          (case (if v = [] then Some [] else execute_template data body) of
             None \<Rightarrow> None
           | Some s \<Rightarrow> map_option ((@) s) (execute_template data ns)))"

text \<open>Parsing and executing, with the errors of the callers; \<open>what\<close> is how they call the template.\<close>

definition fill :: "string \<Rightarrow> string \<Rightarrow> (string \<Rightarrow> string option) \<Rightarrow> string + string" where
  "fill what template data =
     (case parse_template template of
        None \<Rightarrow> Inl (''error parsing '' @ what)
      | Some ns \<Rightarrow>
          (case execute_template data ns of
             None \<Rightarrow> Inl (''error adding data to '' @ what)
           | Some s \<Rightarrow> Inr s))"

section \<open>The templates\<close>

text \<open>The source of a template, from its nodes.\<close>

fun tokens_of :: "tnode list \<Rightarrow> token list" where
  "tokens_of [] = []"
| "tokens_of (Lit s # ns) = TText s # tokens_of ns"
| "tokens_of (Field f # ns) = TAction (''.'' @ f) # tokens_of ns"
| "tokens_of (IfField f body # ns) = TAction (''if .'' @ f) # tokens_of body @ TAction ''end'' # tokens_of ns"

fun token_text :: "token \<Rightarrow> string" where
  "token_text (TText s) = s"
| "token_text (TAction a) = ''{{'' @ a @ ''}}''"

definition print_template :: "tnode list \<Rightarrow> string" where
  "print_template ns = concat (map token_text (tokens_of ns))"

definition ValidationSubject_nodes :: "tnode list" where
  "ValidationSubject_nodes =
     [Lit ''Participa en '',
      Field ''OrgName'',
      Lit '' con Vocdoni'']"

definition ValidationSubject :: string where
  "ValidationSubject = print_template ValidationSubject_nodes"

definition ValidationText_nodes :: "tnode list" where
  "ValidationText_nodes =
     [Lit ([CHR 0x0A] @ ''Versi'' @ [CHR 0xC3, CHR 0xB3] @ '' en castell'' @ [CHR 0xC3, CHR 0xA0, CHR 0x0A, CHR 0x0A] @ ''Hola ''),
      Field ''Name'',
      Lit ('','' @ [CHR 0x0A, CHR 0x0A]),
      Field ''OrgName'',
      Lit ('' te ha invitado a unirte a su plataforma de gobernanza.'' @ [CHR 0x0A, CHR 0x0A] @ ''Como miembro de ''),
      Field ''OrgName'',
      Lit ('', recibir'' @ [CHR 0xC3, CHR 0xA1] @ ''s todas las noticias de la organizaci'' @ [CHR 0xC3, CHR 0xB3] @ ''n en tu m'' @
        [CHR 0xC3, CHR 0xB3] @ ''vil y podr'' @ [CHR 0xC3, CHR 0xA1] @
        ''s participar en la toma de decisiones mediante voto digital seguro.'' @ [CHR 0x0A, CHR 0x0A] @ ''Para unirte a ''),
      Field ''OrgName'',
      Lit ('':'' @ [CHR 0x0A] @ ''1. Instala Vocdoni para Android o iPhone desde la tienda de aplicaciones de tu dispositivo.'' @
        [CHR 0x0A] @ ''2. Crea tu identidad dentro de la app, copia el siguiente enlace en tu navegador y sigue los pasos:'' @
        [CHR 0x0A, CHR 0x0A]),
      Field ''ValidationLink'',
      Lit [CHR 0x0A, CHR 0x0A],
      IfField ''OrgEmail'' [Lit (''Para m'' @ [CHR 0xC3, CHR 0xA1] @ ''s informaci'' @ [CHR 0xC3, CHR 0xB3] @ ''n o ayuda, contacta con ''),
        Field ''OrgEmail'',
        Lit ''.''],
      Lit ([CHR 0x0A] @ ''Gracias,'' @ [CHR 0x0A, CHR 0x0A]),
      Field ''OrgName'',
      Lit ([CHR 0x0A, CHR 0x0A] @ ''Versi'' @ [CHR 0xC3, CHR 0xB3] @ '' en catal'' @ [CHR 0xC3, CHR 0xA0, CHR 0x0A, CHR 0x0A] @
        ''Hola ''),
      Field ''Name'',
      Lit ('','' @ [CHR 0x0A, CHR 0x0A]),
      Field ''OrgName'',
      Lit ('' t'' @ [CHR 0x27] @ ''ha convidat a unir-te a la seva plataforma de governan'' @ [CHR 0xC3, CHR 0xA7] @ ''a.'' @
        [CHR 0x0A, CHR 0x0A] @ ''Com a membre de ''),
      Field ''OrgName'',
      Lit ('', rebr'' @ [CHR 0xC3, CHR 0xA0] @ ''s totes les not'' @ [CHR 0xC3, CHR 0xAD] @ ''cies de l'' @ [CHR 0x27] @
        ''organitzaci'' @ [CHR 0xC3, CHR 0xB3] @ '' en el teu m'' @ [CHR 0xC3, CHR 0xB2] @ ''bil i podr'' @ [CHR 0xC3, CHR 0xA0] @
        ''s participar en la presa de decisions mitjan'' @ [CHR 0xC3, CHR 0xA7] @ ''ant vot digital segur.'' @
        [CHR 0x0A, CHR 0x0A] @ ''Per unir-te a ''),
      Field ''OrgName'',
      Lit ('':'' @ [CHR 0x0A] @ ''1. Instal'' @ [CHR 0xC2, CHR 0xB7] @ ''la Vocdoni per a Android o iPhone des de la botiga d'' @
        [CHR 0x27] @ ''aplicacions del teu dispositiu.'' @ [CHR 0x0A] @ ''2. Crea la teva identitat dins de l'' @ [CHR 0x27] @
        ''app, c'' @ [CHR 0xC3, CHR 0xB2] @ ''pia el seg'' @ [CHR 0xC3, CHR 0xBC] @ ''ent enlla'' @ [CHR 0xC3, CHR 0xA7] @
        '' en el navegador i segueix el passos:'' @ [CHR 0x0A, CHR 0x0A]),
      Field ''ValidationLink'',
      Lit [CHR 0x0A, CHR 0x0A],
      IfField ''OrgEmail'' [Lit (''Per a m'' @ [CHR 0xC3, CHR 0xA9] @ ''s informaci'' @ [CHR 0xC3, CHR 0xB3] @ '' o ajuda, contacta amb ''),
        Field ''OrgEmail'',
        Lit ''.''],
      Lit ([CHR 0x0A] @ ''Gr'' @ [CHR 0xC3, CHR 0xA0] @ ''cies,'' @ [CHR 0x0A, CHR 0x0A]),
      Field ''OrgName'',
      Lit [CHR 0x0A]]"

definition ValidationTextTemplate :: string where
  "ValidationTextTemplate = print_template ValidationText_nodes"

definition VotingText_nodes :: "tnode list" where
  "VotingText_nodes =
     [Lit ([CHR 0x0A] @ ''Hola ''),
      Field ''Name'',
      Lit ('','' @ [CHR 0x0A]),
      Field ''OrgMessage'',
      Lit ([CHR 0x0A] @ ''Para consultar l'' @ [CHR 0x27] @ ''ordre del dia i la documentaci'' @ [CHR 0xC3, CHR 0xB3] @ '', aix'' @
        [CHR 0xC3, CHR 0xAD] @ '' com participar el dia de la votaci'' @ [CHR 0xC3, CHR 0xB3] @ ''  copia el seg'' @
        [CHR 0xC3, CHR 0xBC] @ ''ent text a la barra d'' @ [CHR 0x27] @ ''adreces del teu navegador:'' @ [CHR 0x0A, CHR 0x0A]),
      Field ''VotingLink'',
      Lit [CHR 0x0A, CHR 0x0A],
      IfField ''OrgEmail'' [Lit (''Per a m'' @ [CHR 0xC3, CHR 0xA9] @ ''s informaci'' @ [CHR 0xC3, CHR 0xB3] @ '' o ajuda, contacta amb ''),
        Field ''OrgName'',
        Lit ''.''],
      Lit ([CHR 0x0A] @ ''Moltes gr'' @ [CHR 0xC3, CHR 0xA0] @ ''cies,'' @ [CHR 0x0A, CHR 0x0A]),
      Field ''OrgName'',
      Lit [CHR 0x0A]]"

definition VotingTextTemplate :: string where
  "VotingTextTemplate = print_template VotingText_nodes"

section \<open>Facts\<close>

text \<open>Printing and parsing: texts are not empty, not adjacent and free of braces, names free of closing ones.\<close>

fun wf_tokens :: "token list \<Rightarrow> bool" where
  "wf_tokens [] = True"
| "wf_tokens (TText s # ts) = (s \<noteq> [] \<and> CHR ''{'' \<notin> set s \<and> (case ts of TText _ # _ \<Rightarrow> False | _ \<Rightarrow> True) \<and> wf_tokens ts)"
| "wf_tokens (TAction a # ts) = (CHR ''}'' \<notin> set a \<and> wf_tokens ts)"

lemma cut_twice_here: "c \<notin> set p \<Longrightarrow> cut_twice c (p @ c # c # q) = Some (p, q)"
proof (induction p)
  case (Cons a p)
  then show ?case by (cases "p @ c # c # q") auto
qed simp

lemma cut_twice_none: "c \<notin> set p \<Longrightarrow> cut_twice c p = None"
  by (induction c p rule: cut_twice.induct) auto

lemma lex_action:
  assumes "CHR ''{'' \<notin> set p" "CHR ''}'' \<notin> set a"
  shows "lex_template (p @ token_text (TAction a) @ r) = map_option (\<lambda>ts. text_token p @ TAction a # ts) (lex_template r)"
  using assms cut_twice_here [of "CHR ''{''" p "a @ CHR ''}'' # CHR ''}'' # r"] cut_twice_here [of "CHR ''}''" a r]
  by (subst lex_template.simps) simp

lemma lex_print: "wf_tokens ts \<Longrightarrow> lex_template (concat (map token_text ts)) = Some ts"
proof (induction ts rule: wf_tokens.induct)
  case 1
  show ?case by (subst lex_template.simps) (simp add: text_token_def)
next
  case (2 s ts)
  show ?case
  proof (cases ts)
    case Nil
    then show ?thesis using 2 by (subst lex_template.simps) (simp add: cut_twice_none text_token_def)
  next
    case (Cons t ts')
    with 2 obtain a where t: "ts = TAction a # ts'" by (cases t) auto
    then have "lex_template (concat (map token_text ts)) = Some ts" using 2 by simp
    then have "map_option ((#) (TAction a)) (lex_template (concat (map token_text ts'))) = Some (TAction a # ts')"
      using t 2 lex_action [of "[]" a "concat (map token_text ts')"] by (simp add: text_token_def)
    then have "lex_template (concat (map token_text ts')) = Some ts'" by (simp add: map_option_eq_Some)
    then show ?thesis using t 2 lex_action [of s a "concat (map token_text ts')"] by (simp add: text_token_def)
  qed
next
  case (3 a ts)
  then show ?case using lex_action [of "[]" a "concat (map token_text ts)"] by (simp add: text_token_def)
qed

lemma parse_tokens_of: "parse_tokens (tokens_of ns @ ts) acc opened = parse_tokens ts (rev ns @ acc) opened"
proof (induction ns arbitrary: ts acc opened rule: tokens_of.induct)
  case (4 f body ns)
  have "parse_tokens (tokens_of body @ TAction ''end'' # tokens_of ns @ ts) [] ((f, acc) # opened) =
      parse_tokens (tokens_of ns @ ts) (IfField f body # acc) opened"
    using 4(1) by simp
  then show ?case using 4(2) by (simp add: strings_HasPrefix_def)
qed (simp_all add: strings_HasPrefix_def)

lemma parse_print: "wf_tokens (tokens_of ns) \<Longrightarrow> parse_template (print_template ns) = Some ns"
  using parse_tokens_of [of ns "[]" "[]" "[]"] by (simp add: parse_template_def print_template_def lex_print)

lemmas template_nodes = ValidationSubject_nodes_def ValidationText_nodes_def VotingText_nodes_def

lemma parse_templates:
  "parse_template ValidationSubject = Some ValidationSubject_nodes"
  "parse_template ValidationTextTemplate = Some ValidationText_nodes"
  "parse_template VotingTextTemplate = Some VotingText_nodes"
  unfolding ValidationSubject_def ValidationTextTemplate_def VotingTextTemplate_def
  by (rule parse_print, simp add: template_nodes)+

fun template_fields :: "tnode list \<Rightarrow> string list" where
  "template_fields [] = []"
| "template_fields (Lit s # ns) = template_fields ns"
| "template_fields (Field f # ns) = f # template_fields ns"
| "template_fields (IfField f body # ns) = f # template_fields body @ template_fields ns"

lemma execute_total: "\<forall>f\<in>set (template_fields ns). data f \<noteq> None \<Longrightarrow> \<exists>s. execute_template data ns = Some s"
  by (induction ns rule: template_fields.induct) (auto split: option.splits)

definition occurs :: "string \<Rightarrow> string \<Rightarrow> bool" where
  "occurs v s \<longleftrightarrow> (\<exists>a b. s = a @ v @ b)"

lemma occurs_append: "occurs v s \<Longrightarrow> occurs v (p @ s)" "occurs v (v @ s)"
  unfolding occurs_def by (metis append.assoc) (metis append_Nil)

lemma execute_contains:
  "execute_template data ns = Some s \<Longrightarrow> Field f \<in> set ns \<Longrightarrow> data f = Some v \<Longrightarrow> occurs v s"
proof (induction data ns arbitrary: s rule: execute_template.induct)
  case (3 data g ns)
  then obtain w s' where w: "data g = Some w" "execute_template data ns = Some s'" "s = w @ s'" by (auto split: option.splits)
  show ?case
  proof (cases "Field f \<in> set ns")
    case True
    then show ?thesis using 3 w by (auto intro: occurs_append)
  next
    case False
    then show ?thesis using 3 w by (auto intro: occurs_append)
  qed
next
  case (4 data g body ns)
  then obtain t s' where "execute_template data ns = Some s'" "s = t @ s'" by (auto split: option.splits)
  then show ?case using 4 by (auto split: option.splits intro: occurs_append)
qed (auto intro: occurs_append)

text \<open>A template whose conditionals alone mention a field shows only whether the field is empty.\<close>

fun shown_fields :: "tnode list \<Rightarrow> string list" where
  "shown_fields [] = []"
| "shown_fields (Lit s # ns) = shown_fields ns"
| "shown_fields (Field f # ns) = f # shown_fields ns"
| "shown_fields (IfField f body # ns) = shown_fields body @ shown_fields ns"

lemma execute_hidden:
  assumes "f \<notin> set (shown_fields ns)" "\<And>g. g \<noteq> f \<Longrightarrow> data g = data' g"
    and "data f = Some v" "data' f = Some v'" "v = [] \<longleftrightarrow> v' = []"
  shows "execute_template data ns = execute_template data' ns"
  using assms(1)
proof (induction ns rule: shown_fields.induct)
  case (4 g body ns)
  then show ?case using assms(2-5) by (cases "g = f") (auto split: option.splits)
next
  case (3 g ns)
  then have "data g = data' g" using assms(2) [of g] by auto
  then show ?case using 3 by (simp split: option.splits)
qed auto

text \<open>The fields that the templates name, and those they print unconditionally.\<close>

definition template_ok :: "string \<Rightarrow> string list \<Rightarrow> string list \<Rightarrow> bool" where
  "template_ok t allowed needed =
     (case parse_template t of
        None \<Rightarrow> False
      | Some ns \<Rightarrow> list_all (\<lambda>f. f \<in> set allowed) (template_fields ns) \<and> list_all (\<lambda>f. Field f \<in> set ns) needed)"

lemma templates_ok:
  "template_ok ValidationSubject [''OrgName''] [''OrgName'']"
  "template_ok VotingTextTemplate [''Name'', ''OrgName'', ''OrgEmail'', ''VotingLink'', ''OrgMessage''] [''Name'', ''OrgName'', ''VotingLink'']"
  "template_ok ValidationTextTemplate [''Name'', ''OrgName'', ''OrgEmail'', ''ValidationLink''] [''Name'', ''OrgName'', ''ValidationLink'']"
  by (simp_all add: template_ok_def parse_templates template_nodes)

lemma fill_ok:
  assumes "template_ok t allowed needed" "\<forall>f\<in>set allowed. data f \<noteq> None"
  shows "\<exists>s. fill what t data = Inr s \<and> (\<forall>f\<in>set needed. \<exists>v. data f = Some v \<and> occurs v s)"
proof -
  obtain ns where ns: "parse_template t = Some ns" "\<forall>f\<in>set (template_fields ns). f \<in> set allowed" "\<forall>f\<in>set needed. Field f \<in> set ns"
    using assms(1) by (auto simp: template_ok_def list_all_iff split: option.splits)
  then obtain s where s: "execute_template data ns = Some s" using execute_total [of ns data] assms(2) by blast
  have "\<exists>v. data f = Some v \<and> occurs v s" if f: "f \<in> set needed" for f
  proof -
    have m: "Field f \<in> set ns" using ns(3) f by blast
    then have "f \<in> set (template_fields ns)" by (induction ns rule: template_fields.induct) auto
    then obtain v where v: "data f = Some v" using ns(2) assms(2) by blast
    then show ?thesis using execute_contains [OF s m v] by blast
  qed
  then show ?thesis using ns(1) s by (simp add: fill_def)
qed

definition hides :: "string \<Rightarrow> string \<Rightarrow> bool" where
  "hides t f = (case parse_template t of None \<Rightarrow> False | Some ns \<Rightarrow> f \<notin> set (shown_fields ns))"

lemma voting_text_hides_email: "hides VotingTextTemplate ''OrgEmail''"
  by (simp add: hides_def parse_templates template_nodes)

lemma fill_hidden:
  assumes "hides t f" "\<And>g. g \<noteq> f \<Longrightarrow> data g = data' g"
    and "data f = Some v" "data' f = Some v'" "v = [] \<longleftrightarrow> v' = []"
  shows "fill what t data = fill what t data'"
proof (cases "parse_template t")
  case (Some ns)
  then have "f \<notin> set (shown_fields ns)" using assms(1) by (simp add: hides_def)
  then have "execute_template data ns = execute_template data' ns" using assms(2-5) by (rule execute_hidden)
  then show ?thesis by (simp add: fill_def Some)
qed (simp add: fill_def)

end
