(* ===== verification/Mailing.thy ===== *)
theory Mailing
  imports ManagerCensus Templates
begin

text \<open>
  \<^verbatim>\<open>smtpclient/smtp.go\<close> and the two handlers of \<^verbatim>\<open>manager/manager.go\<close> that mail links to members,
  \<^verbatim>\<open>sendValidationLinks\<close> and \<^verbatim>\<open>sendVotingLinks\<close>, with the goroutines they start, one per member, and the
  wait group and channels through which these report.
\<close>

section \<open>Mails\<close>

text \<open>
  What a mail is made of: its addresses, its subject and text, and the data that the template of its
  HTML part is filled with. That template, which \<^verbatim>\<open>html/template\<close> escapes by context, and the attached
  logo are not modelled: both are constants, and the template names the fields that the plain text
  names, so that neither is a source of errors.
\<close>

record Mail =
  ml_SenderName :: string
  ml_Sender :: string
  ml_FirstName :: string
  ml_LastName :: string
  ml_Email :: string
  ml_OrgName :: string
  ml_OrgEmail :: string
  ml_Link :: string
  ml_Subject :: string
  ml_Text :: string

text \<open>\<^verbatim>\<open>pool\<close> is \<open>None\<close> before \<^verbatim>\<open>StartPool\<close>; sending through it returns an error or nothing.\<close>

record SMTP =
  sm_ValidationURL :: string
  sm_WebpollURL :: string
  sm_SenderName :: string
  sm_Sender :: string
  sm_pool :: "(Mail \<Rightarrow> string option) option"

definition SendMail :: "SMTP \<Rightarrow> Mail \<Rightarrow> string option" where
  "SendMail s m = (case sm_pool s of None \<Rightarrow> Some ''requested pool is not initialized'' | Some send \<Rightarrow> send m)"

definition validation_data :: "Member \<Rightarrow> Entity \<Rightarrow> string \<Rightarrow> string \<Rightarrow> string option" where
  "validation_data member entity link =
     [''Name'' \<mapsto> mi_FirstName (mb_Info member), ''OrgName'' \<mapsto> ei_Name (en_Info entity),
      ''OrgEmail'' \<mapsto> ei_Email (en_Info entity), ''ValidationLink'' \<mapsto> link]"

definition SendValidationLink :: "ext \<Rightarrow> SMTP \<Rightarrow> Member \<Rightarrow> Entity \<Rightarrow> string option" where
  "SendValidationLink x s member entity =
     (if mi_Email (mb_Info member) = [] then Some ''invalid member email''
      else
        (let link = sm_ValidationURL s @ ''/'' @ hex_EncodeToString (bts (en_ID entity)) @ ''/'' @ uuid_String x (mb_ID member);
             data = validation_data member entity link
         in case fill ''text template'' ValidationTextTemplate data of
              Inl e \<Rightarrow> Some e
            | Inr body \<Rightarrow>
                (case fill ''mail subject'' ValidationSubject data of
                   Inl e \<Rightarrow> Some e
                 | Inr subject \<Rightarrow>
                     SendMail s \<lparr>ml_SenderName = sm_SenderName s, ml_Sender = sm_Sender s,
                       ml_FirstName = mi_FirstName (mb_Info member), ml_LastName = mi_LastName (mb_Info member),
                       ml_Email = mi_Email (mb_Info member), ml_OrgName = ei_Name (en_Info entity),
                       ml_OrgEmail = ei_Email (en_Info entity), ml_Link = link, ml_Subject = subject, ml_Text = body\<rparr>)))"

definition voting_data :: "EphemeralMemberInfo \<Rightarrow> Entity \<Rightarrow> string \<Rightarrow> string \<Rightarrow> string option" where
  "voting_data member entity link =
     [''Name'' \<mapsto> em_FirstName member, ''OrgName'' \<mapsto> ei_Name (en_Info entity), ''OrgEmail'' \<mapsto> ei_Email (en_Info entity),
      ''VotingLink'' \<mapsto> link, ''OrgMessage'' \<mapsto> []]"

text \<open>The voting link is mailed under the subject of the validation link.\<close>

definition SendVotingLink :: "SMTP \<Rightarrow> EphemeralMemberInfo \<Rightarrow> Entity \<Rightarrow> gobytes \<Rightarrow> string option" where
  "SendVotingLink s member entity processID =
     (if em_Email member = [] then Some ''invalid member email''
      else if slen (em_PrivKey member) = 0 then Some ''missing privKey''
      else
        (let link = sm_WebpollURL s @ ''/'' @ hex_EncodeToString (bts (en_ID entity)) @ ''/'' @
               hex_EncodeToString (bts processID) @ ''/'' @ hex_EncodeToString (bts (em_PrivKey member));
             data = voting_data member entity link
         in case fill ''text template'' VotingTextTemplate data of
              Inl e \<Rightarrow> Some e
            | Inr body \<Rightarrow>
                (case fill ''mail subject'' ValidationSubject data of
                   Inl e \<Rightarrow> Some e
                 | Inr subject \<Rightarrow>
                     SendMail s \<lparr>ml_SenderName = sm_SenderName s, ml_Sender = sm_Sender s,
                       ml_FirstName = em_FirstName member, ml_LastName = em_LastName member, ml_Email = em_Email member,
                       ml_OrgName = ei_Name (en_Info entity), ml_OrgEmail = ei_Email (en_Info entity), ml_Link = link,
                       ml_Subject = subject, ml_Text = body\<rparr>)))"

section \<open>Workers\<close>

text \<open>
  What a goroutine does as the other goroutines see it: it puts an error into \<^verbatim>\<open>ec\<close>, an identifier into
  \<^verbatim>\<open>sc\<close>, or calls \<^verbatim>\<open>wg.Done()\<close>. After an error it does not return: it goes on to report success.
\<close>

datatype action = SendEc string | SendSc uuid | Done

definition report :: "string list \<Rightarrow> uuid \<Rightarrow> action list" where
  "report errs uid = concat (map (\<lambda>e. [SendEc e, Done]) errs) @ [SendSc uid, Done]"

text \<open>\<open>time_String\<close> prints the instant of the verification.\<close>

definition validation_worker :: "ext \<Rightarrow> (gotime \<Rightarrow> string) \<Rightarrow> SMTP \<Rightarrow> Entity \<Rightarrow> Member \<Rightarrow> action list" where
  "validation_worker x time_String s entity member =
     report
       ((if mb_PubKey member \<noteq> None
         then [''member '' @ uuid_String x (mb_ID member) @ '' is already validated at  '' @
               time_String (mi_Verified (mb_Info member))]
         else []) @
        (case SendValidationLink x s member entity of
           None \<Rightarrow> []
         | Some err \<Rightarrow> [''member '' @ uuid_String x (mb_ID member) @ '' error  '' @ err]))
       (mb_ID member)"

definition voting_worker :: "ext \<Rightarrow> SMTP \<Rightarrow> Entity \<Rightarrow> gobytes \<Rightarrow> EphemeralMemberInfo \<Rightarrow> action list" where
  "voting_worker x s entity processID member =
     report
       (case SendVotingLink s member entity processID of
          None \<Rightarrow> []
        | Some err \<Rightarrow> [''member '' @ uuid_String x (em_ID member) @ '' error  '' @ err])
       (em_ID member)"

text \<open>
  The handler waits until the counter of the wait group is zero, then closes both channels. A send
  on a closed channel and a counter below zero are panics, which end the process.
\<close>

datatype phase = Waiting | Closed | Crashed

record mail_state =
  ws_pending :: "action list list"
  ws_count :: nat
  ws_ec :: "string list"
  ws_sc :: "uuid list"
  ws_phase :: phase

definition mail_start :: "action list list \<Rightarrow> mail_state" where
  "mail_start ws = \<lparr>ws_pending = ws, ws_count = length ws, ws_ec = [], ws_sc = [], ws_phase = Waiting\<rparr>"

text \<open>One step of one goroutine; both channels have room for \<open>cap\<close> values.\<close>

inductive mail_step :: "nat \<Rightarrow> mail_state \<Rightarrow> mail_state \<Rightarrow> bool" for cap :: nat where
  send_error: "ws_phase s = Waiting \<Longrightarrow> ws_pending s = as @ (SendEc e # p) # bs \<Longrightarrow> length (ws_ec s) < cap \<Longrightarrow>
    mail_step cap s (s\<lparr>ws_pending := as @ p # bs, ws_ec := ws_ec s @ [e]\<rparr>)"
| send_ok: "ws_phase s = Waiting \<Longrightarrow> ws_pending s = as @ (SendSc u # p) # bs \<Longrightarrow> length (ws_sc s) < cap \<Longrightarrow>
    mail_step cap s (s\<lparr>ws_pending := as @ p # bs, ws_sc := ws_sc s @ [u]\<rparr>)"
| count_down: "ws_phase s \<noteq> Crashed \<Longrightarrow> ws_pending s = as @ (Done # p) # bs \<Longrightarrow> ws_count s = Suc n \<Longrightarrow>
    mail_step cap s (s\<lparr>ws_pending := as @ p # bs, ws_count := n\<rparr>)"
| negative: "ws_phase s \<noteq> Crashed \<Longrightarrow> ws_pending s = as @ (Done # p) # bs \<Longrightarrow> ws_count s = 0 \<Longrightarrow>
    mail_step cap s (s\<lparr>ws_pending := as @ p # bs, ws_phase := Crashed\<rparr>)"
| send_closed: "ws_phase s = Closed \<Longrightarrow> ws_pending s = as @ (a # p) # bs \<Longrightarrow> a \<noteq> Done \<Longrightarrow>
    mail_step cap s (s\<lparr>ws_pending := as @ p # bs, ws_phase := Crashed\<rparr>)"
| release: "ws_phase s = Waiting \<Longrightarrow> ws_count s = 0 \<Longrightarrow> mail_step cap s (s\<lparr>ws_phase := Closed\<rparr>)"

inductive_cases mail_stepE: "mail_step cap s s'"

inductive mail_reach :: "action list list \<Rightarrow> mail_state \<Rightarrow> bool" for ws :: "action list list" where
  start: "mail_reach ws (mail_start ws)"
| step: "mail_reach ws s \<Longrightarrow> mail_step (length ws) s s' \<Longrightarrow> mail_reach ws s'"

text \<open>The contents of \<^verbatim>\<open>sc\<close> and \<^verbatim>\<open>ec\<close> that the handler can find once it has closed the channels.\<close>

definition collects :: "action list list \<Rightarrow> uuid list \<times> string list \<Rightarrow> bool" where
  "collects ws c \<longleftrightarrow> (\<exists>s. mail_reach ws s \<and> ws_phase s = Closed \<and> (ws_sc s, ws_ec s) = c)"

section \<open>Handlers\<close>

fun join_space :: "string list \<Rightarrow> string" where
  "join_space [] = []"
| "join_space [s] = s"
| "join_space (s # ss) = s @ '' '' @ join_space ss"

definition ensure_tag :: "envs \<Rightarrow> bytes \<Rightarrow> string \<Rightarrow> pgdb \<Rightarrow> pgdb \<times> int option" where
  "ensure_tag envs entityID tagName db =
     (case TagByName (envs 2) (Some entityID) tagName db of
        Inr tag \<Rightarrow> (db, Some (ta_ID tag))
      | Inl ErrNoRows \<Rightarrow>
          (case AddTag (envs 3) (Some entityID) tagName db of
             (db', Inl _) \<Rightarrow> (db', None)
           | (db', Inr t) \<Rightarrow> (db', Some t))
      | Inl _ \<Rightarrow> (db, None))"

text \<open>
  What both handlers do with the results: count, report, and give the tag to the members that were
  mailed, creating the tag first when the entity does not have it.
\<close>

definition finish_mails :: "envs \<Rightarrow> bytes \<Rightarrow> string \<Rightarrow> nat \<Rightarrow> uuid list \<Rightarrow> uuid list \<times> string list \<Rightarrow> pgdb \<Rightarrow> pgdb \<times> outcome" where
  "finish_mails envs entityID tagName n invalid c db =
     (case c of (successUUIDs, errors) \<Rightarrow>
       if length errors + length successUUIDs \<noteq> n
       then (db, Fail ''inconsistency in number of sent emails and errors'')
       else if length errors = n then (db, Fail ''could not send emails'')
       else
         (let response = zero_APIresponse\<lparr>rs_Count := int (length successUUIDs), rs_InvalidIDs := invalid,
                rs_Message := (if length errors > 0
                   then FormatInt (int (length errors)) @ '' where found:'' @ [CHR 0x0A] @ ''['' @ join_space errors @ '']''
                   else [])\<rparr>
          in case ensure_tag envs entityID tagName db of
               (db1, None) \<Rightarrow> (db1, Fail ''sent emails but could not assign tag'')
             | (db1, Some t) \<Rightarrow>
                 (case AddTagToMembers (envs 4) (Some entityID) successUUIDs t db1 of
                    (db2, Inl _) \<Rightarrow> (db2, Fail ''sent emails but could not assign tag'')
                  | (db2, Inr _) \<Rightarrow> (db2, Reply response))))"

text \<open>
  \<open>collect\<close> gives the contents of the two channels when the handler goes on, or nothing when the
  process ended before that. The guard on \<^verbatim>\<open>len(request.MemberID)\<close>, a pointer to an array, is constant.
\<close>

definition sendValidationLinks :: "ext \<Rightarrow> envs \<Rightarrow> (gotime \<Rightarrow> string) \<Rightarrow> SMTP \<Rightarrow>
    (action list list \<Rightarrow> (uuid list \<times> string list) option) \<Rightarrow> APIrequest \<Rightarrow> pgdb \<Rightarrow> pgdb \<times> outcome" where
  "sendValidationLinks x envs time_String smtp collect request db =
     (if (16::nat) = 0 then (db, Fail ''invalid arguments'')
      else if slen (rq_SignaturePublicKey request) \<noteq> PubKeyLengthBytes x then (db, Fail ''invalid public key'')
      else case PubKeyToEntityID x (rq_SignaturePublicKey request) of
        Inl _ \<Rightarrow> (db, Fail ''cannot recover entityID from public key'')
      | Inr entityID \<Rightarrow>
          (case Entity (envs 0) (Some entityID) db of
             Inl _ \<Rightarrow> (db, Fail ''cannot recover entity from public key'')
           | Inr entity \<Rightarrow>
               (case Members (envs 1) (Some entityID) (rq_MemberIDs request) db of
                  Inl _ \<Rightarrow> (db, Fail ''cannot retrieve member'')
                | Inr (ms, invalid) \<Rightarrow>
                    if length ms = 0 then (db, Reply (zero_APIresponse\<lparr>rs_InvalidIDs := invalid\<rparr>))
                    else (case collect (map (validation_worker x time_String smtp entity) ms) of
                            None \<Rightarrow> (db, Panic)
                          | Some c \<Rightarrow> finish_mails envs entityID ''PendingValidation'' (length ms) invalid c db))))"

definition sendVotingLinks :: "ext \<Rightarrow> envs \<Rightarrow> SMTP \<Rightarrow>
    (action list list \<Rightarrow> (uuid list \<times> string list) option) \<Rightarrow> APIrequest \<Rightarrow> pgdb \<Rightarrow> pgdb \<times> outcome" where
  "sendVotingLinks x envs smtp collect request db =
     (if (16::nat) = 0 \<or> slen (rq_ProcessID request) = 0 then (db, Fail ''invalid arguments'')
      else if slen (rq_SignaturePublicKey request) \<noteq> PubKeyLengthBytes x then (db, Fail ''invalid public key'')
      else case PubKeyToEntityID x (rq_SignaturePublicKey request) of
        Inl _ \<Rightarrow> (db, Fail ''cannot recover entityID from public key'')
      | Inr entityID \<Rightarrow>
          (case Entity (envs 0) (Some entityID) db of
             Inl _ \<Rightarrow> (db, Fail ''cannot recover entity from public key'')
           | Inr entity \<Rightarrow>
               (case DecodeCensusID x (rq_CensusID request) (rq_SignaturePublicKey request) of
                  Inl _ \<Rightarrow> (db, Fail ''cannot decode census id'')
                | Inr censusID \<Rightarrow>
                    if rq_Email request \<noteq> [] then
                      (case EphemeralMemberInfoByEmail (envs 1) (Some entityID) (Some censusID) (rq_Email request) db of
                         None \<Rightarrow> (db, Panic)
                       | Some (Inl _) \<Rightarrow> (db, Fail ''cannot retrieve ephemeral census member by email'')
                       | Some (Inr member) \<Rightarrow>
                           (case SendVotingLink smtp member entity (rq_ProcessID request) of
                              Some _ \<Rightarrow> (db, Fail ''could not send voting link'')
                            | None \<Rightarrow> (db, Reply (zero_APIresponse\<lparr>rs_Count := 1\<rparr>))))
                    else
                      (case ListEphemeralMemberInfo (envs 1) (Some entityID) (Some censusID) db of
                         Inl _ \<Rightarrow> (db, Fail ''cannot retrieve ephemeral census members'')
                       | Inr ms \<Rightarrow>
                           if length ms = 0 then (db, Reply zero_APIresponse)
                           else (case collect (map (voting_worker x smtp entity (rq_ProcessID request)) ms) of
                                   None \<Rightarrow> (db, Panic)
                                 | Some c \<Rightarrow> finish_mails envs entityID ''VoteEmailSent'' (length ms) [] c db)))))"

section \<open>Facts\<close>

text \<open>What is left of a goroutine, counted by the kinds of its actions.\<close>

fun n_done :: "action list \<Rightarrow> nat" where
  "n_done [] = 0"
| "n_done (a # p) = (if a = Done then 1 else 0) + n_done p"

fun n_ec :: "action list \<Rightarrow> nat" where
  "n_ec [] = 0"
| "n_ec (a # p) = (case a of SendEc _ \<Rightarrow> 1 | _ \<Rightarrow> 0) + n_ec p"

fun sc_ids :: "action list \<Rightarrow> uuid list" where
  "sc_ids [] = []"
| "sc_ids (a # p) = (case a of SendSc u \<Rightarrow> [u] | _ \<Rightarrow> []) @ sc_ids p"

definition shaped :: "action list \<Rightarrow> bool" where
  "shaped p \<longleftrightarrow> p = [] \<or> p = [Done] \<or> (\<exists>errs u. p = report errs u \<or> p = Done # report errs u)"

lemma n_append [simp]: "n_done (p @ q) = n_done p + n_done q" "n_ec (p @ q) = n_ec p + n_ec q"
  "sc_ids (p @ q) = sc_ids p @ sc_ids q"
  by (induction p) auto

lemma report_counts [simp]: "n_done (report errs u) = Suc (length errs)" "n_ec (report errs u) = length errs"
  "sc_ids (report errs u) = [u]"
  by (induction errs) (auto simp: report_def)

lemma report_Nil: "report [] u = [SendSc u, Done]" and report_Cons: "report (e # errs) u = SendEc e # Done # report errs u"
  by (simp_all add: report_def)

lemma report_hd: "report errs u = a # p \<Longrightarrow>
    (errs = [] \<and> a = SendSc u \<and> p = [Done]) \<or> (\<exists>e es. errs = e # es \<and> a = SendEc e \<and> p = Done # report es u)"
  by (cases errs) (auto simp: report_Nil report_Cons)

lemma shaped_tl: "shaped (a # p) \<Longrightarrow> shaped p"
  unfolding shaped_def by (auto dest!: sym [THEN report_hd] report_hd)

lemma shaped_balance: "shaped p \<Longrightarrow> (p = [] \<or> hd p \<noteq> Done) \<Longrightarrow> n_done p = n_ec p + length (sc_ids p)"
  by (auto simp: shaped_def)

lemma shaped_done: "shaped p \<Longrightarrow> p \<noteq> [] \<Longrightarrow> 0 < n_done p"
  by (auto simp: shaped_def)

text \<open>The sums over all goroutines.\<close>

definition total :: "(action list \<Rightarrow> nat) \<Rightarrow> action list list \<Rightarrow> nat" where
  "total f ps = sum_list (map f ps)"

lemma total_simps [simp]: "total f [] = 0" "total f (p # ps) = f p + total f ps" "total f (ps @ qs) = total f ps + total f qs"
  by (simp_all add: total_def)

lemma total_zero: "total f ps = 0 \<longleftrightarrow> (\<forall>p\<in>set ps. f p = 0)"
  by (induction ps) auto

definition mail_inv :: "action list list \<Rightarrow> mail_state \<Rightarrow> bool" where
  "mail_inv ws s \<longleftrightarrow>
     (\<forall>p\<in>set (ws_pending s). shaped p) \<and>
     (ws_phase s = Closed \<longrightarrow> ws_count s = 0) \<and>
     (ws_phase s \<noteq> Crashed \<longrightarrow>
        total n_ec (ws_pending s) + length (ws_ec s) = total n_ec ws \<and>
        total n_done (ws_pending s) = ws_count s + total n_ec ws \<and>
        mset (ws_sc s) + mset (concat (map sc_ids (ws_pending s))) = mset (concat (map sc_ids ws))) \<and>
     (total n_ec ws = 0 \<longrightarrow> ws_phase s \<noteq> Crashed)"

lemma mail_inv_start:
  assumes "ws = map (\<lambda>(errs, u). report errs u) jobs"
  shows "mail_inv ws (mail_start ws)"
proof -
  have "total n_done (map (\<lambda>(errs, u). report errs u) js) = length js + total n_ec (map (\<lambda>(errs, u). report errs u) js)" for js
    by (induction js) auto
  then show ?thesis using assms by (auto simp: mail_inv_def mail_start_def shaped_def)
qed

lemma mail_inv_step: "mail_step cap s s' \<Longrightarrow> mail_inv ws s \<Longrightarrow> mail_inv ws s'"
proof (induction rule: mail_step.induct)
  case (send_error s as e p bs)
  then show ?case by (auto simp: mail_inv_def intro: shaped_tl)
next
  case (send_ok s as u p bs)
  then show ?case by (auto simp: mail_inv_def intro: shaped_tl)
next
  case (count_down s as p bs n)
  then show ?case by (auto simp: mail_inv_def intro: shaped_tl)
next
  case (negative s as p bs)
  then show ?case by (auto simp: mail_inv_def intro: shaped_tl)
next
  case (send_closed s as a p bs)
  then have "0 < n_done (a # p)" by (intro shaped_done) (auto simp: mail_inv_def)
  with send_closed show ?case by (auto simp: mail_inv_def intro: shaped_tl split: if_splits)
next
  case (release s)
  then show ?case by (auto simp: mail_inv_def)
qed

lemma mail_reach_inv:
  assumes "mail_reach ws s" "ws = map (\<lambda>(errs, u). report errs u) jobs"
  shows "mail_inv ws s"
  using assms by (induction rule: mail_reach.induct) (auto intro: mail_inv_start mail_inv_step)

lemma total_balance:
  "\<forall>p\<in>set ps. shaped p \<and> (p = [] \<or> hd p \<noteq> Done) \<Longrightarrow>
   total n_done ps = total n_ec ps + length (concat (map sc_ids ps))"
  by (induction ps) (auto simp: shaped_balance)

text \<open>A state in which no goroutine can move is the end: the channels are closed and all goroutines are done.\<close>

lemma mail_stuck:
  assumes inv: "mail_inv ws s" and "ws_phase s \<noteq> Crashed" and len: "length (concat (map sc_ids ws)) = length ws"
    and stuck: "\<And>s'. \<not> mail_step (length ws) s s'"
  shows "ws_phase s = Closed \<and> (\<forall>p\<in>set (ws_pending s). p = [])"
proof (cases "ws_phase s")
  case Closed
  have "a # q \<notin> set (ws_pending s)" for a q
  proof
    assume that: "a # q \<in> set (ws_pending s)"
    from that obtain as bs where "ws_pending s = as @ (a # q) # bs" by (auto dest: split_list)
    moreover have "ws_count s = 0" using inv Closed by (simp add: mail_inv_def)
    ultimately show False
      using stuck mail_step.negative [of s as q bs "length ws"] mail_step.send_closed [of s as a q bs "length ws"] Closed
      by (cases "a = Done") auto
  qed
  then show ?thesis using Closed by (metis list.exhaust)
next
  case Waiting
  let ?S = "length (concat (map sc_ids (ws_pending s)))"
  have pos: "0 < ws_count s" using stuck mail_step.release [of s "length ws"] Waiting by auto
  have nodone: "p = [] \<or> hd p \<noteq> Done" if pin: "p \<in> set (ws_pending s)" for p
  proof (rule ccontr)
    assume "\<not> (p = [] \<or> hd p \<noteq> Done)"
    then obtain q where "p = Done # q" by (cases p) auto
    then obtain as bs where "ws_pending s = as @ (Done # q) # bs" using pin by (auto dest: split_list)
    then show False
      using stuck mail_step.count_down [of s as q bs "ws_count s - 1" "length ws"] Waiting pos by auto
  qed
  have "mset (ws_sc s) + mset (concat (map sc_ids (ws_pending s))) = mset (concat (map sc_ids ws))"
    using inv Waiting by (simp add: mail_inv_def)
  then have S: "length (ws_sc s) + ?S = length ws"
    unfolding len [symmetric] by (metis size_mset size_union)
  have "total n_done (ws_pending s) = total n_ec (ws_pending s) + ?S"
    using inv nodone by (intro total_balance) (auto simp: mail_inv_def)
  then have count: "ws_count s + length (ws_ec s) = ?S" using inv Waiting by (auto simp: mail_inv_def)
  have sc: "hd p \<noteq> SendSc u" if pin: "p \<in> set (ws_pending s)" "p \<noteq> []" for p u
  proof
    assume "hd p = SendSc u"
    then obtain q where "p = SendSc u # q" using pin(2) by (cases p) auto
    then obtain as bs where as: "ws_pending s = as @ (SendSc u # q) # bs" using pin(1) by (auto dest: split_list)
    then have "length (ws_sc s) < length ws" using S by simp
    then show False using stuck mail_step.send_ok [OF Waiting as] by auto
  qed
  have ec: "hd p \<noteq> SendEc e" if pin: "p \<in> set (ws_pending s)" "p \<noteq> []" for p e
  proof
    assume "hd p = SendEc e"
    then obtain q where "p = SendEc e # q" using pin(2) by (cases p) auto
    then obtain as bs where as: "ws_pending s = as @ (SendEc e # q) # bs" using pin(1) by (auto dest: split_list)
    then have "length ws \<le> length (ws_ec s)" using stuck mail_step.send_error [OF Waiting as, of "length ws"] by force
    then show False using count S pos by simp
  qed
  have "p = []" if "p \<in> set (ws_pending s)" for p
    using nodone [OF that] sc [OF that] ec [OF that] by (metis action.exhaust)
  then have "?S = 0" by fastforce
  then show ?thesis using count pos by linarith
next
  case Crashed
  then show ?thesis using assms(2) by simp
qed

definition mail_measure :: "mail_state \<Rightarrow> nat" where
  "mail_measure s = total length (ws_pending s) + (if ws_phase s = Waiting then 1 else 0)"

lemma mail_step_measure: "mail_step cap s s' \<Longrightarrow> mail_measure s' < mail_measure s"
  by (induction rule: mail_step.induct) (auto simp: mail_measure_def)

section \<open>The contents of a mail\<close>

lemma validation_fill:
  "\<exists>body subject. fill ''text template'' ValidationTextTemplate (validation_data member entity link) = Inr body \<and>
     fill ''mail subject'' ValidationSubject (validation_data member entity link) = Inr subject \<and>
     occurs link body \<and> occurs (mi_FirstName (mb_Info member)) body \<and> occurs (ei_Name (en_Info entity)) body \<and>
     occurs (ei_Name (en_Info entity)) subject"
  using fill_ok [OF templates_ok(3), of "validation_data member entity link" "''text template''"]
    fill_ok [OF templates_ok(1), of "validation_data member entity link" "''mail subject''"]
  by (auto simp: validation_data_def)

lemma voting_fill:
  "\<exists>body subject. fill ''text template'' VotingTextTemplate (voting_data member entity link) = Inr body \<and>
     fill ''mail subject'' ValidationSubject (voting_data member entity link) = Inr subject \<and>
     occurs link body \<and> occurs (em_FirstName member) body \<and> occurs (ei_Name (en_Info entity)) body"
  using fill_ok [OF templates_ok(2), of "voting_data member entity link" "''text template''"]
    fill_ok [OF templates_ok(1), of "voting_data member entity link" "''mail subject''"]
  by (auto simp: voting_data_def)

lemma SendValidationLink_mail:
  assumes "mi_Email (mb_Info member) \<noteq> []"
  shows "\<exists>mail. SendValidationLink x s member entity = SendMail s mail \<and> ml_Email mail = mi_Email (mb_Info member) \<and>
    ml_FirstName mail = mi_FirstName (mb_Info member) \<and> ml_OrgName mail = ei_Name (en_Info entity) \<and>
    ml_Link mail = sm_ValidationURL s @ ''/'' @ hex_EncodeToString (bts (en_ID entity)) @ ''/'' @ uuid_String x (mb_ID member) \<and>
    occurs (ml_Link mail) (ml_Text mail) \<and> occurs (mi_FirstName (mb_Info member)) (ml_Text mail) \<and>
    occurs (ei_Name (en_Info entity)) (ml_Text mail) \<and> occurs (ei_Name (en_Info entity)) (ml_Subject mail)"
proof -
  let ?l = "sm_ValidationURL s @ ''/'' @ hex_EncodeToString (bts (en_ID entity)) @ ''/'' @ uuid_String x (mb_ID member)"
  obtain body subject where f: "fill ''text template'' ValidationTextTemplate (validation_data member entity ?l) = Inr body"
    "fill ''mail subject'' ValidationSubject (validation_data member entity ?l) = Inr subject" "occurs ?l body"
    "occurs (mi_FirstName (mb_Info member)) body" "occurs (ei_Name (en_Info entity)) body" "occurs (ei_Name (en_Info entity)) subject"
    using validation_fill by blast
  let ?m = "\<lparr>ml_SenderName = sm_SenderName s, ml_Sender = sm_Sender s, ml_FirstName = mi_FirstName (mb_Info member),
    ml_LastName = mi_LastName (mb_Info member), ml_Email = mi_Email (mb_Info member), ml_OrgName = ei_Name (en_Info entity),
    ml_OrgEmail = ei_Email (en_Info entity), ml_Link = ?l, ml_Subject = subject, ml_Text = body\<rparr>"
  have "SendValidationLink x s member entity = SendMail s ?m"
    using assms by (simp only: SendValidationLink_def Let_def f sum.case if_False)
  then show ?thesis using f by (intro exI [of _ ?m]) simp
qed

lemma SendVotingLink_mail:
  assumes "em_Email member \<noteq> []" "slen (em_PrivKey member) \<noteq> 0"
  shows "\<exists>mail. SendVotingLink s member entity p = SendMail s mail \<and> ml_Email mail = em_Email member \<and>
    ml_Link mail = sm_WebpollURL s @ ''/'' @ hex_EncodeToString (bts (en_ID entity)) @ ''/'' @ hex_EncodeToString (bts p) @ ''/'' @
      hex_EncodeToString (bts (em_PrivKey member)) \<and>
    occurs (ml_Link mail) (ml_Text mail) \<and>
    fill ''text template'' VotingTextTemplate (voting_data member entity (ml_Link mail)) = Inr (ml_Text mail)"
proof -
  let ?l = "sm_WebpollURL s @ ''/'' @ hex_EncodeToString (bts (en_ID entity)) @ ''/'' @ hex_EncodeToString (bts p) @ ''/'' @
      hex_EncodeToString (bts (em_PrivKey member))"
  obtain body subject where f: "fill ''text template'' VotingTextTemplate (voting_data member entity ?l) = Inr body"
    "fill ''mail subject'' ValidationSubject (voting_data member entity ?l) = Inr subject" "occurs ?l body"
    using voting_fill by blast
  let ?m = "\<lparr>ml_SenderName = sm_SenderName s, ml_Sender = sm_Sender s, ml_FirstName = em_FirstName member,
    ml_LastName = em_LastName member, ml_Email = em_Email member, ml_OrgName = ei_Name (en_Info entity),
    ml_OrgEmail = ei_Email (en_Info entity), ml_Link = ?l, ml_Subject = subject, ml_Text = body\<rparr>"
  have "SendVotingLink s member entity p = SendMail s ?m"
    using assms by (simp only: SendVotingLink_def Let_def f sum.case if_False)
  then show ?thesis using f by (intro exI [of _ ?m]) simp
qed

section \<open>Properties\<close>


definition demo_smtp :: SMTP where
  "demo_smtp = \<lparr>sm_ValidationURL = ''https://v'', sm_WebpollURL = ''https://w'', sm_SenderName = ''s'', sm_Sender = ''s@x.org'',
     sm_pool = Some (\<lambda>_. None)\<rparr>"

definition demo_voter :: EphemeralMemberInfo where
  "demo_voter = \<lparr>em_ID = 4, em_FirstName = ''Bob'', em_LastName = [], em_Email = ''b@x.org'', em_PrivKey = Some [5],
     em_DigestedPubKey = None\<rparr>"

definition demo_organisation :: Entity where
  "demo_organisation = \<lparr>en_CreatedAt = zero_time, en_UpdatedAt = zero_time, en_ID = Some [7], en_IsAuthorized = True,
     en_Info = zero_EntityInfo\<lparr>ei_Name := ''Org'', ei_Email := ''o@x.org''\<rparr>\<rparr>"


text \<open>
  C13: every run of the mailing goroutines ends (no goroutine can block for ever, although the
  channels are bounded), and how it ends does not depend on the scheduling. When every mail could be
  sent, the channels are closed with exactly the identifiers of all members and no error. When at
  least one goroutine meets an error, the process crashes, because that goroutine goes on to report
  success and counts down twice.
\<close>

theorem mail_workers_outcome:
  assumes "mail_reach (map (\<lambda>(errs, u). report errs u) jobs) s"
  shows "wf {(s2, s1). mail_step (length jobs) s1 s2} \<and>
    ((\<exists>s'. mail_step (length jobs) s s') \<or>
     (if \<forall>(errs, u)\<in>set jobs. errs = []
      then ws_phase s = Closed \<and> ws_ec s = [] \<and> mset (ws_sc s) = mset (map snd jobs)
      else ws_phase s = Crashed))"
proof (intro conjI disjCI)
  show "wf {(s2, s1). mail_step (length jobs) s1 s2}"
    by (rule wf_subset [OF wf_measure [of mail_measure]]) (auto dest: mail_step_measure)
next
  assume "\<not> (if \<forall>(errs, u)\<in>set jobs. errs = []
      then ws_phase s = Closed \<and> ws_ec s = [] \<and> mset (ws_sc s) = mset (map snd jobs)
      else ws_phase s = Crashed)"
  moreover
  let ?ws = "map (\<lambda>(errs, u). report errs u) jobs"
  have inv: "mail_inv ?ws s" using assms by (rule mail_reach_inv) simp
  have E: "total n_ec ?ws = 0 \<longleftrightarrow> (\<forall>(errs, u)\<in>set jobs. errs = [])" by (auto simp: total_zero)
  have ids: "concat (map sc_ids ?ws) = map snd jobs" by (induction jobs) auto
  have "if \<forall>(errs, u)\<in>set jobs. errs = [] then ws_phase s = Closed \<and> ws_ec s = [] \<and> mset (ws_sc s) = mset (map snd jobs)
      else ws_phase s = Crashed" if stuck: "\<nexists>s'. mail_step (length jobs) s s'"
  proof (cases "ws_phase s = Crashed")
    case True
    then show ?thesis using inv E by (simp add: mail_inv_def)
  next
    case False
    have len: "length (concat (map sc_ids ?ws)) = length ?ws" unfolding ids by simp
    have fin: "ws_phase s = Closed \<and> (\<forall>p\<in>set (ws_pending s). p = [])"
      using stuck by (intro mail_stuck [OF inv False len]) simp
    have none: "concat (map sc_ids (ws_pending s)) = []" using fin by auto
    have "total n_ec (ws_pending s) = 0" "total n_done (ws_pending s) = 0" using fin by (auto simp: total_zero)
    then show ?thesis using inv fin E unfolding mail_inv_def ids none by auto
  qed
  ultimately show "\<exists>s'. mail_step (length jobs) s s'" by blast
qed

theorem mail_workers_outcome_witness:
  "(\<exists>s'. mail_step 1 (mail_start [report [''e''] 5]) s') \<or> ws_phase (mail_start [report [''e''] 5]) = Crashed"
proof -
  have "mail_reach (map (\<lambda>(errs, u). report errs u) [([''e''], 5)]) (mail_start [report [''e''] 5])"
    using mail_reach.start [of "[report [''e''] 5]"] by simp
  from mail_workers_outcome [OF this] show ?thesis by auto
qed

end
