(* ===== verification/ManagerApi.thy ===== *)
theory ManagerApi
  imports Mailing
begin

text \<open>
  \<^verbatim>\<open>manager/api.go\<close>: the table of methods of the manager API, and what the whole of it, behind
  \<^verbatim>\<open>rpcapi\<close> and in front of the database, guarantees to the organisations that share it.
\<close>

section \<open>The table of methods\<close>

record Manager =
  mn_eth :: faucet
  mn_smtp :: "SMTP option"

text \<open>
  What the handlers meet outside: the surroundings of their database calls, the random order of a
  census, the printing of a time, what the mailing goroutines leave in the channels, and the health
  of the machine.
\<close>

record outside =
  ou_envs :: envs
  ou_Perm :: "nat \<Rightarrow> nat list"
  ou_time :: "gotime \<Rightarrow> string"
  ou_collect :: "action list list \<Rightarrow> (uuid list \<times> string list) option"
  ou_health :: "string + int"

definition manager_table :: "ext \<Rightarrow> outside \<Rightarrow> Manager \<Rightarrow> (string \<times> pgdb Handler) list" where
  "manager_table x ou m =
      [(''signUp'', signUp x (ou_envs ou) (mn_eth m)),
       (''getEntity'', getEntity x (ou_envs ou)),
       (''updateEntity'', updateEntity x (ou_envs ou)),
       (''adminEntityList'', adminEntityList x (ou_envs ou)),
       (''countMembers'', countMembers x (ou_envs ou)),
       (''listMembers'', listMembers x (ou_envs ou)),
       (''getMember'', getMember x (ou_envs ou)),
       (''updateMember'', updateMember x (ou_envs ou)),
       (''deleteMembers'', deleteMembers x (ou_envs ou)),
       (''generateTokens'', generateTokens x (ou_envs ou)),
       (''exportTokens'', exportTokens x (ou_envs ou)),
       (''importMembers'', importMembers x (ou_envs ou)),
       (''countTargets'', countTargets x (ou_envs ou)),
       (''listTargets'', listTargets x (ou_envs ou)),
       (''getTarget'', getTarget x (ou_envs ou)),
       (''dumpTarget'', dumpTarget x (ou_envs ou)),
       (''dumpCensus'', dumpCensus x (ou_envs ou) (ou_Perm ou)),
       (''addCensus'', addCensus x (ou_envs ou)),
       (''updateCensus'', updateCensus x (ou_envs ou)),
       (''getCensus'', getCensus x (ou_envs ou)),
       (''countCensus'', countCensus x (ou_envs ou)),
       (''listCensus'', listCensus x (ou_envs ou)),
       (''deleteCensus'', deleteCensus x (ou_envs ou)),
       (''createTag'', createTag x (ou_envs ou)),
       (''listTags'', listTags x (ou_envs ou)),
       (''deleteTag'', deleteTag x (ou_envs ou)),
       (''addTag'', addTag x (ou_envs ou)),
       (''removeTag'', removeTag x (ou_envs ou))]"

text \<open>
  \<^verbatim>\<open>NewManager\<close> with the address of the signer (\<open>None\<close> for nil) and whether the database is nil: the
  API it creates, under the name of another API, and what the handlers use.
\<close>

definition NewManager :: "string + int \<Rightarrow> bytes list \<Rightarrow> bytes option \<Rightarrow> string \<Rightarrow> bool \<Rightarrow> SMTP option \<Rightarrow> faucet \<Rightarrow>
    string + pgdb RPCAPI \<times> Manager" where
  "NewManager getHealth authorized owner rt db_nil smtp eth =
     (case owner of
        None \<Rightarrow> Inl ''invalid arguments for manager API''
      | Some addr \<Rightarrow>
          if db_nil then Inl ''invalid arguments for manager API''
          else Inr (NewAPI getHealth authorized addr ''registry'' (rt @ ''/manager'') False,
                    \<lparr>mn_eth = eth, mn_smtp = smtp\<rparr>))"

definition Manager_EnableAPI :: "ext \<Rightarrow> outside \<Rightarrow> Manager \<Rightarrow> pgdb RPCAPI \<Rightarrow> pgdb RPCAPI" where
  "Manager_EnableAPI x ou m a0 =
     (let ev = ou_envs ou;
          a1 = fold (\<lambda>(meth, h) a. RegisterPublic meth True h a)
            (manager_table x ou m) a0;
          a2 = (if mn_eth m \<noteq> None then RegisterPublic ''requestGas'' True (requestGas x ev (mn_eth m)) a1 else a1)
      in case mn_smtp m of
           None \<Rightarrow> a2
         | Some smtp \<Rightarrow>
             RegisterPublic ''sendVotingLinks'' True (sendVotingLinks x ev smtp (ou_collect ou))
              (RegisterPublic ''sendValidationLinks'' True
                 (sendValidationLinks x ev (ou_time ou) smtp (ou_collect ou)) a2))"

section \<open>Every handler works for the caller\<close>

text \<open>The address of the key that signed a request.\<close>

definition caller_id :: "ext \<Rightarrow> APIrequest \<Rightarrow> bytes" where
  "caller_id x request = bts (AddrFromPublicKey x (rq_SignaturePublicKey request))"

lemma caller_entity_id: "caller_entity x request = Inr e \<Longrightarrow> caller_id x request = e"
  by (auto simp: caller_entity_def caller_id_def PubKeyToEntityID_def bts_def split: if_splits option.splits)

lemma with_caller_acts:
  assumes "\<And>e. acts_for x e db (fst (k e))"
  shows "acts_for x (caller_id x request) db (fst (with_caller x request db k))"
  using assms by (auto simp: with_caller_def split: sum.splits dest: caller_entity_id)

lemma with_caller_unchanged: "(\<And>e. fst (k e) = db) \<Longrightarrow> fst (with_caller x request db k) = db"
  by (auto simp: with_caller_def split: sum.splits)

lemma bts_Some: "bts (Some e) = e"
  by (simp add: bts_def)

lemmas acts_caller = acts_intros [OF _ _ bts_Some]

named_theorems handler_acts \<open>a handler works for its caller\<close>

lemma signUp_acts [handler_acts]: "acts_for x (caller_id x request) db (fst (signUp x envs eth request db))"
  unfolding signUp_def
proof (rule with_caller_acts)
  fix e
  obtain db1 err where 1: "AddEntity (envs 0) (Some e) (signUp_info e (rq_Entity request)) db = (db1, err)" by fastforce
  obtain db2 r where 2: "AddTarget (envs 1) x (Some e) (all_target e) db1 = (db2, r)" by fastforce
  have a1: "acts_for x e db db1" using acts_caller(1) [OF 1] by simp
  have a2: "acts_for x e db db2" by (rule acts_AddTarget [OF 2 a1]) simp
  show "acts_for x e db (fst (case AddEntity (envs 0) (Some e) (signUp_info e (rq_Entity request)) db of
         (db1, err) \<Rightarrow>
           if (case err of None \<Rightarrow> False | Some e \<Rightarrow> \<not> strings_Contains (err_text e) ''entities_pkey'')
           then (db1, Fail ''cannot add entity to the DB'')
           else
             (case AddTarget (envs 1) x (Some e) (all_target e) db1 of
                (db2, r) \<Rightarrow>
                  if (case r of Inr _ \<Rightarrow> False | Inl e \<Rightarrow> \<not> strings_Contains (err_text e) ''result has no rows'')
                  then (db2, Fail ''cannot create entity generic target'')
                  else (db2, signUp_tokens x eth e))))"
    unfolding 1 2 prod.case using a1 a2 by (simp add: 2 split: option.splits sum.splits)
qed

lemma updateEntity_acts [handler_acts]: "acts_for x (caller_id x request) db (fst (updateEntity x envs request db))"
  by (auto simp: updateEntity_def Let_def split: option.splits sum.splits prod.splits dberror.splits
      intro!: with_caller_acts intro: acts_caller)

lemma updateMember_acts [handler_acts]: "acts_for x (caller_id x request) db (fst (updateMember x envs request db))"
  by (auto simp: updateMember_def Let_def split: option.splits sum.splits prod.splits dberror.splits
      intro!: with_caller_acts intro: acts_caller)

lemma deleteMembers_acts [handler_acts]: "acts_for x (caller_id x request) db (fst (deleteMembers x envs request db))"
  by (auto simp: deleteMembers_def Let_def split: option.splits sum.splits prod.splits dberror.splits
      intro!: with_caller_acts intro: acts_caller)

lemma generateTokens_acts [handler_acts]: "acts_for x (caller_id x request) db (fst (generateTokens x envs request db))"
  by (auto simp: generateTokens_def Let_def split: option.splits sum.splits prod.splits dberror.splits
      intro!: with_caller_acts intro: acts_caller)

lemma importMembers_acts [handler_acts]: "acts_for x (caller_id x request) db (fst (importMembers x envs request db))"
  by (auto simp: importMembers_def Let_def split: option.splits sum.splits prod.splits dberror.splits
      intro!: with_caller_acts intro: acts_caller)

lemma dumpCensus_acts [handler_acts]: "acts_for x (caller_id x request) db (fst (dumpCensus x envs perm request db))"
  by (auto simp: dumpCensus_def Let_def split: option.splits sum.splits prod.splits dberror.splits
      intro!: with_caller_acts intro: acts_caller)

lemma addCensus_acts [handler_acts]: "acts_for x (caller_id x request) db (fst (addCensus x envs request db))"
  by (auto simp: addCensus_def Let_def split: option.splits sum.splits prod.splits dberror.splits
      intro!: with_caller_acts intro: acts_caller)

lemma updateCensus_acts [handler_acts]: "acts_for x (caller_id x request) db (fst (updateCensus x envs request db))"
  by (auto simp: updateCensus_def Let_def split: option.splits sum.splits prod.splits dberror.splits
      intro!: with_caller_acts intro: acts_caller)

lemma deleteCensus_acts [handler_acts]: "acts_for x (caller_id x request) db (fst (deleteCensus x envs request db))"
  by (auto simp: deleteCensus_def Let_def split: option.splits sum.splits prod.splits dberror.splits
      intro!: with_caller_acts intro: acts_caller)

lemma createTag_acts [handler_acts]: "acts_for x (caller_id x request) db (fst (createTag x envs request db))"
  by (auto simp: createTag_def Let_def split: option.splits sum.splits prod.splits dberror.splits
      intro!: with_caller_acts intro: acts_caller)

lemma deleteTag_acts [handler_acts]: "acts_for x (caller_id x request) db (fst (deleteTag x envs request db))"
  by (auto simp: deleteTag_def Let_def split: option.splits sum.splits prod.splits dberror.splits
      intro!: with_caller_acts intro: acts_caller)

lemma addTag_acts [handler_acts]: "acts_for x (caller_id x request) db (fst (addTag x envs request db))"
  by (auto simp: addTag_def Let_def split: option.splits sum.splits prod.splits dberror.splits
      intro!: with_caller_acts intro: acts_caller)

lemma removeTag_acts [handler_acts]: "acts_for x (caller_id x request) db (fst (removeTag x envs request db))"
  by (auto simp: removeTag_def Let_def split: option.splits sum.splits prod.splits dberror.splits
      intro!: with_caller_acts intro: acts_caller)

lemma getEntity_unchanged [simp]: "fst (getEntity x envs request db) = db"
  by (auto simp: getEntity_def Let_def split: option.splits sum.splits dberror.splits list.splits intro!: with_caller_unchanged)

lemma adminEntityList_unchanged [simp]: "fst (adminEntityList x envs request db) = db"
  by (auto simp: adminEntityList_def Let_def split: option.splits sum.splits dberror.splits list.splits intro!: with_caller_unchanged)

lemma requestGas_unchanged [simp]: "fst (requestGas x envs eth request db) = db"
  by (auto simp: requestGas_def Let_def split: option.splits sum.splits dberror.splits list.splits intro!: with_caller_unchanged)

lemma listMembers_unchanged [simp]: "fst (listMembers x envs request db) = db"
  by (auto simp: listMembers_def Let_def split: option.splits sum.splits dberror.splits list.splits intro!: with_caller_unchanged)

lemma getMember_unchanged [simp]: "fst (getMember x envs request db) = db"
  by (auto simp: getMember_def Let_def split: option.splits sum.splits dberror.splits list.splits intro!: with_caller_unchanged)

lemma countMembers_unchanged [simp]: "fst (countMembers x envs request db) = db"
  by (auto simp: countMembers_def Let_def split: option.splits sum.splits dberror.splits list.splits intro!: with_caller_unchanged)

lemma exportTokens_unchanged [simp]: "fst (exportTokens x envs request db) = db"
  by (auto simp: exportTokens_def Let_def split: option.splits sum.splits dberror.splits list.splits intro!: with_caller_unchanged)

lemma countTargets_unchanged [simp]: "fst (countTargets x envs request db) = db"
  by (auto simp: countTargets_def Let_def split: option.splits sum.splits dberror.splits list.splits intro!: with_caller_unchanged)

lemma listTargets_unchanged [simp]: "fst (listTargets x envs request db) = db"
  by (auto simp: listTargets_def Let_def split: option.splits sum.splits dberror.splits list.splits intro!: with_caller_unchanged)

lemma getTarget_unchanged [simp]: "fst (getTarget x envs request db) = db"
  by (auto simp: getTarget_def Let_def split: option.splits sum.splits dberror.splits list.splits intro!: with_caller_unchanged)

lemma dumpTarget_unchanged [simp]: "fst (dumpTarget x envs request db) = db"
  by (auto simp: dumpTarget_def Let_def split: option.splits sum.splits dberror.splits list.splits intro!: with_caller_unchanged)

lemma getCensus_unchanged [simp]: "fst (getCensus x envs request db) = db"
  by (auto simp: getCensus_def Let_def split: option.splits sum.splits dberror.splits list.splits intro!: with_caller_unchanged)

lemma countCensus_unchanged [simp]: "fst (countCensus x envs request db) = db"
  by (auto simp: countCensus_def Let_def split: option.splits sum.splits dberror.splits list.splits intro!: with_caller_unchanged)

lemma listCensus_unchanged [simp]: "fst (listCensus x envs request db) = db"
  by (auto simp: listCensus_def Let_def split: option.splits sum.splits dberror.splits list.splits intro!: with_caller_unchanged)

lemma listTags_unchanged [simp]: "fst (listTags x envs request db) = db"
  by (auto simp: listTags_def Let_def split: option.splits sum.splits dberror.splits list.splits intro!: with_caller_unchanged)

lemma ensure_tag_acts: "ensure_tag envs e tag db = (db', r) \<Longrightarrow> acts_for x e db db'"
  by (auto simp: ensure_tag_def split: sum.splits dberror.splits prod.splits intro: acts_caller)

lemma finish_mails_acts [handler_acts]: "acts_for x e db (fst (finish_mails envs e tag n invalid c db))"
  by (auto simp: finish_mails_def Let_def split: prod.splits sum.splits option.splits
      intro: acts_caller ensure_tag_acts)

lemma sendValidationLinks_acts [handler_acts]:
  "acts_for x (caller_id x request) db (fst (sendValidationLinks x envs ts smtp collect request db))"
  by (auto simp: sendValidationLinks_def caller_id_def PubKeyToEntityID_def bts_def
      split: sum.splits option.splits intro!: finish_mails_acts)

lemma sendVotingLinks_acts [handler_acts]:
  "acts_for x (caller_id x request) db (fst (sendVotingLinks x envs smtp collect request db))"
  by (auto simp: sendVotingLinks_def caller_id_def PubKeyToEntityID_def bts_def
      split: sum.splits option.splits intro!: finish_mails_acts)

section \<open>The API as a store shared by tenants\<close>

text \<open>
  One request: the key that signed it, as \<^verbatim>\<open>rpcapi\<close> hands it over, the message, and what the handler
  meets. \<open>serve\<close> routes it to the handler of its method; a method that has none, and a panic, leave
  the database to the next request.
\<close>

record api_call =
  ac_outside :: outside
  ac_key :: gobytes
  ac_request :: APIrequest

definition manager_api :: "ext \<Rightarrow> outside \<Rightarrow> bytes \<Rightarrow> string \<Rightarrow> Manager \<Rightarrow> pgdb RPCAPI" where
  "manager_api x ou addr rt m =
     Manager_EnableAPI x ou m (NewAPI (ou_health ou) [] addr ''registry'' (rt @ ''/manager'') False)"

definition serve :: "ext \<Rightarrow> bytes \<Rightarrow> string \<Rightarrow> Manager \<Rightarrow> api_call \<Rightarrow> pgdb \<Rightarrow> pgdb option" where
  "serve x addr rt m c db =
     Some (fst (route (manager_api x (ac_outside c) addr rt m) True [] (ac_key c) (ac_request c) db))"

definition signer :: "ext \<Rightarrow> api_call \<Rightarrow> bytes" where
  "signer x c = bts (AddrFromPublicKey x (ac_key c))"

lemma RegisterPublic_method:
  "ra_methods (RegisterPublic m s h a) = (ra_methods a)(m := Some h)"
  by (simp add: RegisterPublic_def)

lemma fold_RegisterPublic:
  "ra_methods (fold (\<lambda>(m, h) a. RegisterPublic m s h a) hs a) meth = Some h \<Longrightarrow>
   ra_methods a meth = Some h \<or> h \<in> snd ` set hs"
  by (induction hs arbitrary: a) (force simp: RegisterPublic_method split: if_splits)+

lemma manager_method_acts:
  assumes "ra_methods (manager_api x ou addr rt m) meth = Some h"
  shows "acts_for x (caller_id x request) db (fst (h request db))"
proof -
  have "h \<in> snd ` set (manager_table x ou m) \<or> h = api_info (ou_health ou) [''registry''] \<or> h = requestGas x (ou_envs ou) (mn_eth m) \<or>
    (\<exists>smtp. h = sendVotingLinks x (ou_envs ou) smtp (ou_collect ou) \<or>
       h = sendValidationLinks x (ou_envs ou) (ou_time ou) smtp (ou_collect ou))"
    using assms fold_RegisterPublic [of True "manager_table x ou m"
        "NewAPI (ou_health ou) [] addr ''registry'' (rt @ ''/manager'') False" meth h]
    by (auto simp: manager_api_def Manager_EnableAPI_def Let_def RegisterPublic_method split: option.splits if_splits)
  moreover have "\<forall>mh\<in>set (manager_table x ou m). acts_for x (caller_id x request) db (fst (snd mh request db))"
    by (simp add: manager_table_def handler_acts)
  ultimately show ?thesis by (auto simp: handler_acts)
qed

lemma serve_acts: "serve x addr rt m c db = Some db' \<Longrightarrow> acts_for x (signer x c) db db'"
  using manager_method_acts [of x "ac_outside c" addr rt m _ _ "ac_request c\<lparr>rq_SignaturePublicKey := ac_key c\<rparr>" db]
  by (auto simp: serve_def route_def Let_def signer_def caller_id_def split: option.splits prod.splits outcome.splits)
    (metis fst_conv)+

interpretation api: tenant_store "serve x addr rt m" db_inv "signer x" tenant_view
proof
  fix s op s'
  assume "db_inv s" "serve x addr rt m op s = Some s'"
  then show "db_inv s'" using acts_for_inv [OF serve_acts] by simp
next
  fix s op s' t
  assume s: "db_inv s" "serve x addr rt m op s = Some s'" "signer x op \<noteq> t"
  show "tenant_view t s' = tenant_view t s"
    by (rule acts_for_isolated [OF serve_acts [OF s(2)] s(1)]) (use s(3) in simp)
qed

section \<open>The claims of a census\<close>

lemma length_shuffle_loop [simp]:
  "length (fold (\<lambda>(i, v) claims. claims[v := cm_DigestedPubKey (cms ! i)]) ps claims) = length claims"
  by (induction ps arbitrary: claims) auto

lemma shuffle_loop:
  assumes "distinct perm" "set perm \<subseteq> {..<length claims}" "i < length perm"
  shows "fold (\<lambda>(i, v) claims. claims[v := cm_DigestedPubKey (cms ! i)]) (enumerate 0 perm) claims ! (perm ! i) =
    cm_DigestedPubKey (cms ! i)"
  using assms
proof (induction perm arbitrary: i rule: rev_induct)
  case Nil
  then show ?case by simp
next
  case (snoc v perm)
  show ?case
  proof (cases "i = length perm")
    case True
    then show ?thesis using snoc.prems by (simp add: enumerate_append_eq)
  next
    case False
    then have i: "i < length perm" using snoc.prems(3) by simp
    then have "perm ! i \<noteq> v" using snoc.prems(1) nth_mem by fastforce
    then show ?thesis using snoc.IH [OF _ _ i] snoc.prems i by (simp add: enumerate_append_eq nth_append)
  qed
qed

lemma shuffle_length: "length (shuffle perm cms) = length cms"
  by (simp add: shuffle_def)

lemma shuffle_mset:
  assumes "mset perm = mset [0..<length cms]"
  shows "mset (shuffle perm cms) = mset (map cm_DigestedPubKey cms)"
proof -
  have s: "set perm = {..<length cms}" "length perm = length cms" "distinct perm"
    using assms by (metis atLeast_upt set_mset_mset, metis length_upt minus_nat.diff_0 size_mset,
        metis distinct_upt mset_eq_imp_distinct_iff)
  have nth: "shuffle perm cms ! (perm ! i) = cm_DigestedPubKey (cms ! i)" if "i < length cms" for i
    using shuffle_loop [of perm "replicate (length cms) None" i cms] s that by (simp add: shuffle_def)
  have "map (\<lambda>v. shuffle perm cms ! v) perm = map cm_DigestedPubKey cms"
    using nth s(2) by (intro nth_equalityI) simp_all
  then have "mset (map cm_DigestedPubKey cms) = image_mset (\<lambda>v. shuffle perm cms ! v) (mset perm)"
    by (metis mset_map)
  also have "\<dots> = mset (map (\<lambda>v. shuffle perm cms ! v) [0..<length (shuffle perm cms)])"
    unfolding assms shuffle_length by simp
  also have "\<dots> = mset (shuffle perm cms)" by (simp only: map_nth)
  finally show ?thesis ..
qed

section \<open>Unreachable branches\<close>

text \<open>\<^verbatim>\<open>listTargets\<close> refuses every list option.\<close>

lemma listTargets_options_refused:
  "rq_Method request = ''listTargets'' \<Longrightarrow> rq_ListOptions request = Some f \<Longrightarrow>
   \<exists>msg. listTargets x envs request db = (db, Fail msg)"
  by (auto simp: listTargets_def with_caller_def checkOptions_def split: sum.splits)

text \<open>A failure to read the targets does not show in the answer of \<^verbatim>\<open>getMember\<close>.\<close>

lemma getMember_target_error_hidden:
  "rq_MemberID request = Some u \<Longrightarrow> caller_entity x request = Inr e \<Longrightarrow> Member (envs 0) (Some e) (Some u) db = Inr m \<Longrightarrow>
   ListTargets (envs 1) (Some e) db = Inl err \<Longrightarrow>
   getMember x envs request db = (db, Reply (zero_APIresponse\<lparr>rs_Member := Some m, rs_Target := Some zero_Target\<rparr>))"
  by (simp add: getMember_def with_caller_def)

section \<open>Properties\<close>

text \<open>
  C2: the organisations that share the manager API are isolated from each other: no sequence of
  requests signed by other keys, with any methods, arguments, failures and panics, changes anything
  that is stored for an organisation; and after any sequence of requests the constraints of the
  schema hold.
\<close>

theorem manager_tenants_isolated:
  assumes "wf_db db" "census_owned db" and "history (serve x addr rt m) calls db = Some db'"
  shows "wf_db db' \<and> census_owned db' \<and>
    (\<forall>j. (\<forall>c\<in>set calls. signer x c \<noteq> j) \<longrightarrow> tenant_view j db' = tenant_view j db)"
  using api.history_inv [of db x addr rt m calls db'] api.history_isolated [of db x addr rt m calls db'] assms
  by (simp add: db_inv_def)

definition demo_outside :: outside where
  "demo_outside = \<lparr>ou_envs = (\<lambda>k. quiet 1), ou_Perm = (\<lambda>n. rev [0..<n]), ou_time = (\<lambda>_. []), ou_collect = (\<lambda>_. None), ou_health = Inr 99\<rparr>"

definition demo_call :: "string \<Rightarrow> api_call" where
  "demo_call meth = \<lparr>ac_outside = demo_outside, ac_key = Some [9, 7],
     ac_request = (demo_request [] [])\<lparr>rq_Method := meth, rq_MemberIDs := [1, 2, 3], rq_TagID := 1\<rparr>\<rparr>"

theorem manager_tenants_isolated_witness:
  "\<exists>db'. history (serve demo_ext [7] ''/api'' \<lparr>mn_eth = None, mn_smtp = None\<rparr>) [demo_call ''deleteMembers'', demo_call ''deleteTag''] demo_db =
     Some db' \<and> tenant_view [8] db' = tenant_view [8] demo_db"
proof -
  obtain db' where h: "history (serve demo_ext [7] ''/api'' \<lparr>mn_eth = None, mn_smtp = None\<rparr>)
      [demo_call ''deleteMembers'', demo_call ''deleteTag''] demo_db = Some db'" by (simp add: serve_def)
  have "census_owned demo_db"
    by (auto simp: census_owned_def member_owners_def census_owners_def demo_db_def demo_member_def)
  from manager_tenants_isolated [OF wf_demo_db this h] show ?thesis
    using h by (auto simp: signer_def demo_call_def demo_ext_def)
qed

text \<open>
  C16: a successful \<^verbatim>\<open>dumpCensus\<close> of a census without entries answers, in the random order, exactly
  the claims that are from then on stored for the census, each as often as it is stored: no member
  is lost or counted twice by the shuffle.
\<close>

theorem dumpCensus_claims:
  assumes "wf_db db" and "dumpCensus x envs rand_Perm request db = (db', Reply resp)"
    and "\<And>n. mset (rand_Perm n) = mset [0..<n]"
    and "DecodeCensusID x (rq_CensusID request) (rq_SignaturePublicKey request) = Inr c"
    and "\<forall>y\<in>set (census_members db). x_census_id y \<noteq> c" and "no_faults ev"
  shows "\<exists>claims. DumpCensusClaims ev (Some (caller_id x request)) (Some c) db' = Inr claims \<and>
    mset (rs_Claims resp) = mset claims"
proof -
  from assms(2,4) obtain cms where e: "ExpandCensusMembers (envs 0) x (Some (caller_id x request)) (Some c) db = Some (db', Inr cms)"
    and r: "rs_Claims resp = shuffle (rand_Perm (length cms)) cms"
    by (auto simp: dumpCensus_def with_caller_def split: sum.splits option.splits prod.splits dest!: caller_entity_id)
  have "DumpCensusClaims ev (Some (caller_id x request)) (Some c) db' = Inr (map cm_DigestedPubKey cms)"
    by (rule expand_then_dump_claims [OF assms(1) e assms(5,6)])
  then show ?thesis using shuffle_mset [OF assms(3)] by (simp add: r)
qed

theorem dumpCensus_claims_witness:
  "\<exists>db' resp. dumpCensus demo_ext (\<lambda>k. quiet 1) (\<lambda>n. rev [0..<n]) ((demo_request [] [9, 7])\<lparr>rq_CensusID := ''0101''\<rparr>) demo_keyed_db =
     (db', Reply resp) \<and> (\<exists>claims. DumpCensusClaims (quiet 2) (Some [7]) (Some [1, 1]) db' = Inr claims \<and>
       mset (rs_Claims resp) = mset claims)"
proof -
  let ?q = "(demo_request [] [9, 7])\<lparr>rq_CensusID := ''0101''\<rparr>"
  obtain db' cms where ex: "ExpandCensusMembers (quiet 1) demo_ext (Some [7]) (Some [1, 1]) demo_keyed_db = Some (db', Inr cms)"
    using demo_expand by blast
  have d: "DecodeCensusID demo_ext (rq_CensusID ?q) (rq_SignaturePublicKey ?q) = Inr [1, 1]" by code_simp
  have c: "caller_entity demo_ext ?q = Inr [7]" by code_simp
  have n: "\<forall>y\<in>set (census_members demo_keyed_db). x_census_id y \<noteq> [1, 1]" by code_simp
  have r: "dumpCensus demo_ext (\<lambda>k. quiet 1) (\<lambda>n. rev [0..<n]) ?q demo_keyed_db =
      (db', Reply (zero_APIresponse\<lparr>rs_Claims := shuffle (rev [0..<length cms]) cms\<rparr>))"
    using d c ex by (simp add: dumpCensus_def with_caller_def)
  have "\<exists>claims. DumpCensusClaims (quiet 2) (Some (caller_id demo_ext ?q)) (Some [1, 1]) db' = Inr claims \<and>
      mset (rs_Claims (zero_APIresponse\<lparr>rs_Claims := shuffle (rev [0..<length cms]) cms\<rparr>)) = mset claims"
    by (rule dumpCensus_claims [OF wf_demo_keyed_db r _ d n no_faults_quiet]) simp
  then show ?thesis using r caller_entity_id [OF c] by auto
qed

end
