(* ===== verification/ManagerFlows.thy ===== *)
theory ManagerFlows
  imports ManagerApi
begin

text \<open>
  What sequences of requests to the manager API achieve: signing up and reading the entity back,
  signing up again, creating or importing members and exporting their tokens; and which requests
  can crash the process.
\<close>

section \<open>Signing up\<close>

lemma AddEntity_succeeds:
  assumes "no_faults ev" "wf_db db" "e \<notin> set (entity_ids db)" "ei_CensusManagersAddresses info \<noteq> None"
    "in_int32 (ei_Size info)" "ei_Origins info = [Token]"
  shows "AddEntity ev (Some e) info db =
    (db\<lparr>entities := entities db @ [entity_row_of e (now ev) info], entities_origins := entities_origins db @ [(PgToken, e)]\<rparr>, None)"
proof -
  let ?tx = "db\<lparr>entities := entities db @ [entity_row_of e (now ev) info]\<rparr>"
  have 1: "insert_entity_query ev (Some e) info db = Inr ?tx"
    using assms(1,3,5) by (auto simp: insert_entity_query_def insert_entities_def ins_entity.insert_stmt_one entity_uq_def
        entity_add_def viol_def clash_def e_key_def list_ex_iff)
  have "(PgToken, e) \<notin> set (entities_origins db)"
    using assms(2,3) by (fastforce simp: wf_db_def wf_entities_def refs_iff o_entity_def)
  then have "insert_origins_query ev (Some e) [''Token''] ?tx =
      Inr (?tx\<lparr>entities_origins := entities_origins db @ [(PgToken, e)]\<rparr>)"
    using assms(1) by (auto simp: insert_origins_query_def insert_origins_def ins_origin.insert_stmt_one origin_uq_def
        origin_fk_def origin_add_def viol_def clash_def o_key_def list_ex_iff bts_def origins_in_def)
  then show ?thesis
    using assms(1,4,6) 1 by (simp add: AddEntity_def Let_def ToPGEntity_def ToPGOriginArray_def Origin_String_named)
qed

lemma signUp_info_simps [simp]:
  "ei_CensusManagersAddresses (signUp_info e en) = Some [e]" "ei_Origins (signUp_info e en) = [Token]"
  "ei_Size (signUp_info e en) = (case en of None \<Rightarrow> 0 | Some i \<Rightarrow> ei_Size i)"
  by (simp_all add: signUp_info_def Let_def zero_EntityInfo_def split: option.splits)

lemma AddTarget_all:
  assumes "no_faults ev" "e \<noteq> []" "json_valid x [123, 125]" "e \<in> set (entity_ids db)"
    "fresh ev 0 \<notin> set (target_ids db)" "\<forall>r\<in>set (targets db). t_entity_id r \<noteq> e"
  shows "AddTarget ev x (Some e) (all_target e) db =
    (leak (db\<lparr>targets := targets db @ [\<lparr>t_updated_at = now ev, t_created_at = now ev, t_id = fresh ev 0, t_entity_id = e,
       t_name = ''all'', t_filters = [123, 125]\<rparr>]\<rparr>), Inr (fresh ev 0))"
  using assms
  by (auto simp: AddTarget_def all_target_def zero_Target_def Let_def slen_def bts_def insert_targets_def
      ins_target.insert_stmt_one target_uq_def target_fk_def target_add_def viol_def clash_def t_key_def t_entity_name_def list_ex_iff)
    (metis image_eqI)

lemma Entity_tables:
  assumes "entities d' = entities d" "entities_origins d' = entities_origins d"
  shows "Entity ev i d' = Entity ev i d"
  unfolding Entity_def EntityOrigins_def assms by (rule refl)

text \<open>A second target of the same name is refused with the error that \<^verbatim>\<open>signUp\<close> expects.\<close>

lemma AddTarget_exists:
  assumes "no_faults ev" "e \<noteq> []" "\<exists>r\<in>set (targets db). t_entity_id r = e \<and> t_name r = ''all''"
  shows "AddTarget ev x (Some e) (all_target e) db =
    (db, Inl (Errorf ''result has no rows, posible violation of db constraints'' None))"
  using assms
  by (auto simp: AddTarget_def all_target_def zero_Target_def Let_def slen_def bts_def insert_targets_def
      ins_target.insert_stmt_one target_uq_def viol_def clash_def t_key_def t_entity_name_def list_ex_iff split: option.splits sum.splits)

section \<open>Members and their tokens\<close>

lemma pg_members_emails:
  "pg_members x i infos = Inr ps \<Longrightarrow>
   map pm_Email ps = map (\<lambda>info. if mi_Email info \<noteq> [] then Some (mi_Email info) else None) infos \<and>
   (\<forall>p\<in>set ps. mb_PubKey (pm_Member p) = None \<and> mb_EntityID (pm_Member p) = i)"
  by (induction infos arbitrary: ps) (auto simp: ToPGMember_def zero_Member_def split: sum.splits)

lemma member_value_Inr:
  "member_value x t u p = Inr r \<Longrightarrow> m_id r = u \<and> Some (m_entity_id r) = mb_EntityID (pm_Member p) \<and>
     m_public_key r = mb_PubKey (pm_Member p) \<and> m_email r = pm_Email p"
  by (auto simp: member_value_def Let_def split: option.splits if_splits)

lemma member_values_Inr:
  assumes "member_values ev x ps = map Inr rows"
  shows "length rows = length ps" "\<And>k. k < length ps \<Longrightarrow> m_id (rows ! k) = fresh ev k \<and>
    Some (m_entity_id (rows ! k)) = mb_EntityID (pm_Member (ps ! k)) \<and>
    m_public_key (rows ! k) = mb_PubKey (pm_Member (ps ! k)) \<and> m_email (rows ! k) = pm_Email (ps ! k)"
proof -
  show len: "length rows = length ps" using arg_cong [OF assms, of length] by (simp add: member_values_def)
  fix k assume k: "k < length ps"
  then have "member_values ev x ps ! k = Inr (rows ! k)" using assms len by simp
  then have "member_value x (now ev) (fresh ev k) (ps ! k) = Inr (rows ! k)"
    using k by (simp add: member_values_def nth_enumerate_eq)
  then show "m_id (rows ! k) = fresh ev k \<and> Some (m_entity_id (rows ! k)) = mb_EntityID (pm_Member (ps ! k)) \<and>
      m_public_key (rows ! k) = mb_PubKey (pm_Member (ps ! k)) \<and> m_email (rows ! k) = pm_Email (ps ! k)"
    by (rule member_value_Inr)
qed

lemma ImportMembers_None:
  assumes "ImportMembers ev x i infos db = (db', None)"
  obtains ps where "pg_members x i infos = Inr ps" "insert_member_values (member_values ev x ps) db = Inr db'"
  using assms that bulk_members_sound [of 12 ev 2 _ db db']
  by (auto simp: ImportMembers_def split: sum.splits option.splits if_splits dberror.splits)

lemma ImportMembers_rows:
  assumes "ImportMembers ev x (Some e) infos db = (db', None)"
  obtains rows where "db' = db\<lparr>members := members db @ rows\<rparr>" "map m_id rows = map (fresh ev) [0..<length infos]"
    "map m_email rows = map (\<lambda>info. if mi_Email info \<noteq> [] then Some (mi_Email info) else None) infos"
    "\<forall>r\<in>set rows. m_entity_id r = e \<and> m_public_key r = None"
proof -
  obtain ps where ps: "pg_members x (Some e) infos = Inr ps" "insert_member_values (member_values ev x ps) db = Inr db'"
    using assms by (rule ImportMembers_None)
  obtain rows where rows: "member_values ev x ps = map Inr rows" "db' = db\<lparr>members := members db @ rows\<rparr>"
    using ps(2) by (rule insert_member_values_Inr)
  note em = pg_members_emails [OF ps(1)] and v = member_values_Inr [OF rows(1)]
  have len: "length ps = length infos" using em map_eq_imp_length_eq by blast
  show ?thesis
  proof (rule that [OF rows(2)])
    show "map m_id rows = map (fresh ev) [0..<length infos]"
      using v len by (intro nth_equalityI) simp_all
    have "map m_email rows = map pm_Email ps" using v by (intro nth_equalityI) simp_all
    then show "map m_email rows = map (\<lambda>info. if mi_Email info \<noteq> [] then Some (mi_Email info) else None) infos"
      using em by simp
    show "\<forall>r\<in>set rows. m_entity_id r = e \<and> m_public_key r = None"
      using v em by (metis in_set_conv_nth nth_mem option.inject)
  qed
qed

text \<open>What \<^verbatim>\<open>exportTokens\<close> answers: the members without a key, with their addresses.\<close>

definition token_email :: "member_row \<Rightarrow> TokenEmail" where
  "token_email r = \<lparr>te_Token = m_id r, te_Email = (case m_email r of None \<Rightarrow> [] | Some s \<Rightarrow> s)\<rparr>"

definition unregistered :: "bytes \<Rightarrow> pgdb \<Rightarrow> TokenEmail list" where
  "unregistered e db = map token_email (filter (\<lambda>r. m_entity_id r = e \<and> m_public_key r = None) (members db))"

lemma exportTokens_calm:
  assumes "calm envs" "caller_entity x request = Inr e"
  shows "exportTokens x envs request db = (db, Reply (zero_APIresponse\<lparr>rs_MembersTokens := unregistered e db\<rparr>))"
proof -
  have "(\<lambda>r. sql_eq (Some e) (m_entity r) \<and> m_public_key r = None) = (\<lambda>r. m_entity_id r = e \<and> m_public_key r = None)"
    by (auto simp: sql_eq_def m_entity_def)
  then show ?thesis
    using assms by (simp add: exportTokens_def with_caller_def MembersTokensEmails_def unregistered_def token_email_def
        ToMember_def zero_Member_def comp_def)
qed

lemma unregistered_append:
  "\<forall>r\<in>set rows. m_entity_id r = e \<and> m_public_key r = None \<Longrightarrow>
   unregistered e (db\<lparr>members := members db @ rows\<rparr>) = unregistered e db @ map token_email rows"
  by (auto simp: unregistered_def)

section \<open>Crashes\<close>

lemma with_caller_no_panic: "(\<And>e. snd (k e) \<noteq> Panic) \<Longrightarrow> snd (with_caller x request db k) \<noteq> Panic"
  by (auto simp: with_caller_def split: sum.split)

lemma signUp_no_panic: "snd (signUp x envs eth request db) \<noteq> Panic"
  unfolding signUp_def
  by (rule with_caller_no_panic) (auto simp: signUp_tokens_def split: prod.split option.split sum.split)

lemma handlers_no_panic:
  "snd (getEntity x envs request db) \<noteq> Panic" "snd (updateEntity x envs request db) \<noteq> Panic"
  "snd (adminEntityList x envs request db) \<noteq> Panic" "snd (countMembers x envs request db) \<noteq> Panic"
  "snd (listMembers x envs request db) \<noteq> Panic" "snd (generateTokens x envs request db) \<noteq> Panic"
  "snd (exportTokens x envs request db) \<noteq> Panic" "snd (importMembers x envs request db) \<noteq> Panic"
  "snd (countTargets x envs request db) \<noteq> Panic" "snd (listTargets x envs request db) \<noteq> Panic"
  "snd (getTarget x envs request db) \<noteq> Panic" "snd (dumpTarget x envs request db) \<noteq> Panic"
  "snd (countCensus x envs request db) \<noteq> Panic" "snd (listTags x envs request db) \<noteq> Panic"
  unfolding getEntity_def updateEntity_def adminEntityList_def countMembers_def listMembers_def generateTokens_def
    exportTokens_def importMembers_def countTargets_def listTargets_def getTarget_def dumpTarget_def countCensus_def listTags_def
  by (rule with_caller_no_panic,
      simp add: Let_def split: sum.split dberror.split option.split prod.split)+

lemma guarded_no_panic:
  "snd (getMember x envs request db) \<noteq> Panic" "snd (updateMember x envs request db) \<noteq> Panic"
  "snd (deleteMembers x envs request db) \<noteq> Panic" "snd (addCensus x envs request db) \<noteq> Panic"
  "snd (updateCensus x envs request db) \<noteq> Panic" "snd (getCensus x envs request db) \<noteq> Panic"
  "snd (listCensus x envs request db) \<noteq> Panic" "snd (deleteCensus x envs request db) \<noteq> Panic"
  "snd (createTag x envs request db) \<noteq> Panic" "snd (deleteTag x envs request db) \<noteq> Panic"
  "snd (addTag x envs request db) \<noteq> Panic" "snd (removeTag x envs request db) \<noteq> Panic"
  "snd (requestGas x envs eth request db) \<noteq> Panic"
  by (auto simp: getMember_def updateMember_def deleteMembers_def addCensus_def updateCensus_def getCensus_def listCensus_def
      deleteCensus_def createTag_def deleteTag_def addTag_def removeTag_def requestGas_def Let_def
      intro!: with_caller_no_panic split: sum.splits dberror.splits option.splits prod.splits if_splits)

text \<open>Which handler a method of the API has.\<close>

lemma fold_RegisterPublic_pair:
  "ra_methods (fold (\<lambda>(m, h) a. RegisterPublic m s h a) hs a) meth = Some h \<Longrightarrow>
   ra_methods a meth = Some h \<or> (meth, h) \<in> set hs"
  by (induction hs arbitrary: a) (force split: if_splits)+

lemma manager_api_handler:
  assumes "ra_methods (manager_api x ou addr rt m) meth = Some h"
  obtains "(meth, h) \<in> set (manager_table x ou m)" | "h = api_info (ou_health ou) [''registry'']"
    | "h = requestGas x (ou_envs ou) (mn_eth m)"
    | smtp where "meth = ''sendVotingLinks''" "h = sendVotingLinks x (ou_envs ou) smtp (ou_collect ou)"
    | smtp where "meth = ''sendValidationLinks''" "h = sendValidationLinks x (ou_envs ou) (ou_time ou) smtp (ou_collect ou)"
  using assms
  by (auto simp: manager_api_def Manager_EnableAPI_def Let_def split: option.splits if_splits dest!: fold_RegisterPublic_pair)

lemma expand_loop_None: "expand_loop ev x eph c k ms = None \<Longrightarrow> \<exists>j. keygen ev j = None"
  by (induction ms arbitrary: k) (auto split: if_splits option.splits)

lemma dumpCensus_Panic: "snd (dumpCensus x envs perm request db) = Panic \<Longrightarrow> \<exists>k. keygen (envs 0) k = None"
  by (auto simp: dumpCensus_def with_caller_def ExpandCensusMembers_def split: sum.splits option.splits prod.splits
      dest!: expand_loop_None)

lemma finish_mails_no_panic: "snd (finish_mails envs e tag n invalid c db) \<noteq> Panic"
  by (auto simp: finish_mails_def Let_def split: prod.split option.split sum.split)

lemma sendValidationLinks_Panic: "snd (sendValidationLinks x envs ts smtp collect request db) = Panic \<Longrightarrow> \<exists>ws. collect ws = None"
  by (auto simp: sendValidationLinks_def finish_mails_no_panic split: if_splits sum.splits option.splits prod.splits)

lemma sendVotingLinks_Panic:
  "snd (sendVotingLinks x envs smtp collect request db) = Panic \<Longrightarrow> rq_Email request \<noteq> [] \<or> (\<exists>ws. collect ws = None)"
  by (auto simp: sendVotingLinks_def finish_mails_no_panic split: if_splits sum.splits option.splits prod.splits)

section \<open>Properties\<close>

text \<open>
  C11: the sign-up of a new organisation: when nothing fails, \<^verbatim>\<open>signUp\<close> stores the entity and its target
  \<^verbatim>\<open>all\<close> and ends as the faucet does; from then on \<^verbatim>\<open>getEntity\<close> answers the name, e-mail, size, type and
  consent of the request, with the organisation itself as the manager of its censuses and the one
  origin that its members will have, and \<^verbatim>\<open>listTargets\<close> answers exactly that target.
\<close>

theorem signUp_effect:
  assumes "wf_db db" "calm envs" "calm envs'" and "caller_entity x request = Inr e" "e \<noteq> []" "e \<notin> set (entity_ids db)"
    and "in_int32 (case rq_Entity request of None \<Rightarrow> 0 | Some i \<Rightarrow> ei_Size i)" "json_valid x [123, 125]"
    and "fresh (envs 1) 0 \<notin> set (target_ids db)" and "caller_entity x request' = Inr e" "rq_ListOptions request' = None"
  shows "\<exists>db'. signUp x envs eth request db = (db', signUp_tokens x eth e) \<and>
    getEntity x envs' request' db' = (db', Reply (zero_APIresponse\<lparr>rs_Entity := Some
      \<lparr>en_CreatedAt = zero_time, en_UpdatedAt = zero_time, en_ID = Some e, en_IsAuthorized = False,
       en_Info = signUp_info e (rq_Entity request)\<rparr>\<rparr>)) \<and>
    (\<exists>t. listTargets x envs' request' db' = (db', Reply (zero_APIresponse\<lparr>rs_Targets := [t]\<rparr>)) \<and>
       tg_Name t = ''all'' \<and> tg_EntityID t = Some e)"
proof -
  let ?info = "signUp_info e (rq_Entity request)"
  let ?db1 = "db\<lparr>entities := entities db @ [entity_row_of e (now (envs 0)) ?info],
    entities_origins := entities_origins db @ [(PgToken, e)]\<rparr>"
  let ?row = "\<lparr>t_updated_at = now (envs 1), t_created_at = now (envs 1), t_id = fresh (envs 1) 0, t_entity_id = e,
    t_name = ''all'', t_filters = [123, 125]\<rparr>"
  let ?db2 = "leak (?db1\<lparr>targets := targets db @ [?row]\<rparr>)"
  have a: "AddEntity (envs 0) (Some e) ?info db = (?db1, None)" using assms by (intro AddEntity_succeeds) simp_all
  have none: "\<forall>r\<in>set (targets db). t_entity_id r \<noteq> e"
    using assms(1,6) by (fastforce simp: wf_db_def wf_targets_def refs_iff t_entity_def)
  have t: "AddTarget (envs 1) x (Some e) (all_target e) ?db1 = (?db2, Inr (fresh (envs 1) 0))"
    using AddTarget_all [of "envs 1" e x ?db1] assms none by simp
  have s: "signUp x envs eth request db = (?db2, signUp_tokens x eth e)"
    using assms(4) by (simp add: signUp_def with_caller_def a t del: One_nat_def)
  have "Entity (envs' 0) (Some e) ?db2 = Entity (envs' 0) (Some e) ?db1" by (rule Entity_tables) simp_all
  then have g: "Entity (envs' 0) (Some e) ?db2 = Inr \<lparr>en_CreatedAt = zero_time, en_UpdatedAt = zero_time, en_ID = Some e,
      en_IsAuthorized = False, en_Info = ?info\<rparr>"
    using AddEntity_then_Entity [OF assms(1) a, of "envs' 0"] assms(3) by simp
  then have en: "getEntity x envs' request' ?db2 = (?db2, Reply (zero_APIresponse\<lparr>rs_Entity := Some
      \<lparr>en_CreatedAt = zero_time, en_UpdatedAt = zero_time, en_ID = Some e, en_IsAuthorized = False, en_Info = ?info\<rparr>\<rparr>))"
    using assms(10) by (simp add: getEntity_def with_caller_def)
  have "ListTargets (envs' 0) (Some e) ?db2 = Inr [scan_target ?row]"
    using assms(3,5) none by (auto simp: ListTargets_def slen_def bts_def t_entity_def sql_eq_def filter_empty_conv)
  then have "listTargets x envs' request' ?db2 = (?db2, Reply (zero_APIresponse\<lparr>rs_Targets := [scan_target ?row]\<rparr>))"
    using assms(10,11) by (simp add: listTargets_def with_caller_def checkOptions_def)
  moreover have "tg_Name (scan_target ?row) = ''all''" "tg_EntityID (scan_target ?row) = Some e"
    by (simp_all add: scan_target_def)
  ultimately show ?thesis using s en by blast
qed

theorem signUp_effect_witness:
  "\<exists>db' ent. signUp demo_ext (\<lambda>k. quiet 2) None (demo_request [] [9, 9]) demo_db = (db', Reply zero_APIresponse) \<and>
     getEntity demo_ext (\<lambda>k. quiet 3) (demo_request [] [9, 9]) db' = (db', Reply (zero_APIresponse\<lparr>rs_Entity := Some ent\<rparr>))"
proof -
  have c: "caller_entity demo_ext (demo_request [] [9, 9]) = Inr [9]" by code_simp
  have i: "[9] \<notin> set (entity_ids demo_db)" "json_valid demo_ext [123, 125]"
    "fresh (quiet 2) 0 \<notin> set (target_ids demo_db)" "rq_ListOptions (demo_request [] [9, 9]) = None"
    "in_int32 (case rq_Entity (demo_request [] [9, 9]) of None \<Rightarrow> 0 | Some i \<Rightarrow> ei_Size i)" by code_simp+
  show ?thesis
    using signUp_effect [OF wf_demo_db calm_quiet [of "\<lambda>_. 2"] calm_quiet [of "\<lambda>_. 3"] c _ i(1) i(5) i(2) i(3) c i(4), of None]
    by (auto simp: signUp_tokens_def)
qed

text \<open>
  C38: signing up again is not an error and changes nothing that is stored, whatever the request says
  about the entity: the organisation can only ask for tokens again. But every such request leaves a
  database transaction open.
\<close>

definition demo_signed_db :: pgdb where
  "demo_signed_db = demo_db\<lparr>targets := [(demo_target 13 [7])\<lparr>t_name := ''all''\<rparr>]\<rparr>"

theorem signUp_again:
  assumes "calm envs" and "caller_entity x request = Inr e" "e \<noteq> []" "e \<in> set (entity_ids db)"
    and "in_int32 (case rq_Entity request of None \<Rightarrow> 0 | Some i \<Rightarrow> ei_Size i)"
    and "\<exists>r\<in>set (targets db). t_entity_id r = e \<and> t_name r = ''all''"
  shows "signUp x envs eth request db = (leak db, signUp_tokens x eth e)"
proof -
  obtain err where "AddEntity (envs 0) (Some e) (signUp_info e (rq_Entity request)) db = (leak db, Some err)"
    "strings_Contains (err_text err) ''entities_pkey''"
    using AddEntity_existing [of "envs 0" e db "signUp_info e (rq_Entity request)"] assms by auto
  moreover have "AddTarget (envs 1) x (Some e) (all_target e) (leak db) =
      (leak db, Inl (Errorf ''result has no rows, posible violation of db constraints'' None))"
    using assms by (intro AddTarget_exists) simp_all
  moreover have "strings_Contains (err_text (Errorf ''result has no rows, posible violation of db constraints'' None))
      ''result has no rows''" by code_simp
  ultimately show ?thesis using assms(2) by (simp add: signUp_def with_caller_def del: One_nat_def)
qed

theorem signUp_again_witness:
  "signUp demo_ext (\<lambda>k. quiet 2) None (demo_request [] [9, 7]) demo_signed_db = (leak demo_signed_db, Reply zero_APIresponse)"
proof -
  have c: "caller_entity demo_ext (demo_request [] [9, 7]) = Inr [7]" by code_simp
  have i: "[7] \<in> set (entity_ids demo_signed_db)" "in_int32 (case rq_Entity (demo_request [] [9, 7]) of None \<Rightarrow> 0 | Some i \<Rightarrow> ei_Size i)"
    by code_simp+
  have t: "\<exists>r\<in>set (targets demo_signed_db). t_entity_id r = [7] \<and> t_name r = ''all''"
    by (simp add: demo_signed_db_def demo_target_def)
  show ?thesis using signUp_again [OF calm_quiet [of "\<lambda>_. 2"] c _ i t, of None] by (simp add: signUp_tokens_def)
qed




definition keyless_outside :: outside where
  "keyless_outside = demo_outside\<lparr>ou_envs := (\<lambda>k. (quiet 1)\<lparr>keygen := (\<lambda>_. None)\<rparr>)\<rparr>"

definition ephemeral_db :: pgdb where
  "ephemeral_db = demo_keyed_db\<lparr>censuses := map (\<lambda>c. c\<lparr>c_ephemeral := True\<rparr>) (censuses demo_keyed_db)\<rparr>"


end
