(* ===== verification/Confinement.thy ===== *)
theory Confinement
  imports ManagerFlows
begin

text \<open>
  What an organisation can read of the others through the manager API. The answers of the methods
  that only read depend on what the tables hold of the caller; with the isolation of what is stored,
  nothing the other organisations do shows in them. And the one place where a request reaches the
  data of another organisation.
\<close>

section \<open>Queries that read one entity\<close>

lemma filter_through: "(\<And>r. P r \<Longrightarrow> Q r) \<Longrightarrow> filter Q xs = filter Q ys \<Longrightarrow> filter P xs = filter P ys"
proof -
  assume PQ: "\<And>r. P r \<Longrightarrow> Q r" and eq: "filter Q xs = filter Q ys"
  have "filter P zs = filter P (filter Q zs)" for zs using PQ by (induction zs) auto
  then show ?thesis using eq by metis
qed

lemma find_through: "(\<And>r. P r \<Longrightarrow> Q r) \<Longrightarrow> filter Q xs = filter Q ys \<Longrightarrow> find P xs = find P ys"
proof -
  assume PQ: "\<And>r. P r \<Longrightarrow> Q r" and eq: "filter Q xs = filter Q ys"
  have "find P zs = find P (filter Q zs)" for zs using PQ by (induction zs) auto
  then show ?thesis using eq by metis
qed

lemma tenant_view_tables:
  assumes "tenant_view e db' = tenant_view e db"
  shows "filter (\<lambda>r. e_id r = e) (entities db') = filter (\<lambda>r. e_id r = e) (entities db)"
    and "filter (\<lambda>r. snd r = e) (entities_origins db') = filter (\<lambda>r. snd r = e) (entities_origins db)"
    and "filter (\<lambda>r. m_entity_id r = e) (members db') = filter (\<lambda>r. m_entity_id r = e) (members db)"
    and "filter (\<lambda>r. t_entity_id r = e) (targets db') = filter (\<lambda>r. t_entity_id r = e) (targets db)"
    and "filter (\<lambda>r. c_entity_id r = e) (censuses db') = filter (\<lambda>r. c_entity_id r = e) (censuses db)"
    and "filter (\<lambda>r. g_entity_id r = e) (tags db') = filter (\<lambda>r. g_entity_id r = e) (tags db)"
  using assms by (simp_all add: tenant_view_def)

named_theorems view_queries \<open>a query that depends on one entity only\<close>

lemma view_Entity [view_queries]: "tenant_view e db' = tenant_view e db \<Longrightarrow> Entity ev (Some e) db' = Entity ev (Some e) db"
proof -
  assume v: "tenant_view e db' = tenant_view e db"
  have "find (\<lambda>r. sql_eq (Some e) (e_key r)) (entities db') = find (\<lambda>r. sql_eq (Some e) (e_key r)) (entities db)"
    by (rule find_through [OF _ tenant_view_tables(1) [OF v]]) (simp add: sql_eq_def key_defs)
  moreover have "filter (\<lambda>r. sql_eq (Some e) (o_entity r)) (entities_origins db') =
      filter (\<lambda>r. sql_eq (Some e) (o_entity r)) (entities_origins db)"
    by (rule filter_through [OF _ tenant_view_tables(2) [OF v]]) (simp add: sql_eq_def key_defs)
  ultimately show ?thesis by (simp only: Entity_def EntityOrigins_def)
qed

lemma view_members:
  assumes "tenant_view e db' = tenant_view e db"
  shows "filter (\<lambda>r. sql_eq (Some e) (m_entity r)) (members db') = filter (\<lambda>r. sql_eq (Some e) (m_entity r)) (members db)"
    and "filter (\<lambda>r. sql_eq (Some e) (m_entity r) \<and> P r) (members db') =
      filter (\<lambda>r. sql_eq (Some e) (m_entity r) \<and> P r) (members db)"
    and "find (\<lambda>r. P r \<and> sql_eq (Some e) (m_entity r)) (members db') =
      find (\<lambda>r. P r \<and> sql_eq (Some e) (m_entity r)) (members db)"
  by (rule filter_through [OF _ tenant_view_tables(3) [OF assms]], simp add: sql_eq_def key_defs)+
    (rule find_through [OF _ tenant_view_tables(3) [OF assms]], simp add: sql_eq_def key_defs)

lemma view_Member [view_queries]:
  assumes v: "tenant_view e db' = tenant_view e db"
  shows "Member ev (Some e) u db' = Member ev (Some e) u db"
  unfolding Member_def view_members(3) [OF v] by (rule refl)

lemma view_CountMembers [view_queries]:
  assumes v: "tenant_view e db' = tenant_view e db"
  shows "CountMembers ev (Some e) db' = CountMembers ev (Some e) db"
  unfolding CountMembers_def view_members(1) [OF v] by (rule refl)

lemma view_ListMembers [view_queries]:
  assumes v: "tenant_view e db' = tenant_view e db"
  shows "ListMembers ev (Some e) f db' = ListMembers ev (Some e) f db"
  unfolding ListMembers_def view_members(1) [OF v] by (rule refl)

lemma view_MembersTokensEmails [view_queries]:
  assumes v: "tenant_view e db' = tenant_view e db"
  shows "MembersTokensEmails ev (Some e) db' = MembersTokensEmails ev (Some e) db"
  unfolding MembersTokensEmails_def view_members(2) [OF v] by (rule refl)

lemma view_TargetMembers [view_queries]:
  assumes v: "tenant_view e db' = tenant_view e db"
  shows "TargetMembers ev (Some e) t db' = TargetMembers ev (Some e) t db"
  unfolding TargetMembers_def view_ListMembers [OF v] by (rule refl)

lemma view_targets:
  assumes "tenant_view e db' = tenant_view e db"
  shows "filter (\<lambda>r. sql_eq (Some e) (t_entity r)) (targets db') = filter (\<lambda>r. sql_eq (Some e) (t_entity r)) (targets db)"
    and "find (\<lambda>r. sql_eq (Some e) (t_entity r) \<and> P r) (targets db') =
      find (\<lambda>r. sql_eq (Some e) (t_entity r) \<and> P r) (targets db)"
  by (rule filter_through [OF _ tenant_view_tables(4) [OF assms]], simp add: sql_eq_def key_defs)
    (rule find_through [OF _ tenant_view_tables(4) [OF assms]], simp add: sql_eq_def key_defs)

lemma view_Target [view_queries]:
  assumes v: "tenant_view e db' = tenant_view e db"
  shows "Target ev (Some e) t db' = Target ev (Some e) t db"
    and "CountTargets ev (Some e) db' = CountTargets ev (Some e) db"
    and "ListTargets ev (Some e) db' = ListTargets ev (Some e) db"
  unfolding Target_def CountTargets_def ListTargets_def view_targets [OF v] by (rule refl)+

lemma view_censuses:
  assumes "tenant_view e db' = tenant_view e db"
  shows "filter (\<lambda>r. sql_eq (Some e) (c_entity r)) (censuses db') = filter (\<lambda>r. sql_eq (Some e) (c_entity r)) (censuses db)"
    and "find (\<lambda>r. sql_eq (Some e) (c_entity r) \<and> P r) (censuses db') =
      find (\<lambda>r. sql_eq (Some e) (c_entity r) \<and> P r) (censuses db)"
  by (rule filter_through [OF _ tenant_view_tables(5) [OF assms]], simp add: sql_eq_def key_defs)
    (rule find_through [OF _ tenant_view_tables(5) [OF assms]], simp add: sql_eq_def key_defs)

lemma view_Census [view_queries]:
  assumes v: "tenant_view e db' = tenant_view e db"
  shows "Census ev (Some e) c db' = Census ev (Some e) c db"
    and "CountCensus ev (Some e) db' = CountCensus ev (Some e) db"
    and "ListCensus ev (Some e) f db' = ListCensus ev (Some e) f db"
  unfolding Census_def CountCensus_def ListCensus_def view_censuses [OF v] by (rule refl)+

lemma view_ListTags [view_queries]:
  assumes "tenant_view e db' = tenant_view e db"
  shows "ListTags ev (Some e) db' = ListTags ev (Some e) db"
proof -
  have "filter (\<lambda>r. sql_eq (Some e) (g_entity r)) (tags db') = filter (\<lambda>r. sql_eq (Some e) (g_entity r)) (tags db)"
    by (rule filter_through [OF _ tenant_view_tables(6) [OF assms]]) (simp add: sql_eq_def key_defs)
  then show ?thesis by (simp only: ListTags_def)
qed

section \<open>Handlers that read\<close>

definition read_methods :: "string list" where
  "read_methods = [''getEntity'', ''countMembers'', ''listMembers'', ''getMember'', ''exportTokens'', ''countTargets'',
     ''listTargets'', ''getTarget'', ''getCensus'', ''countCensus'', ''listCensus'', ''listTags'']"

lemma with_caller_view:
  assumes "\<And>e. caller_entity x request = Inr e \<Longrightarrow> snd (k' e) = snd (k e)"
  shows "snd (with_caller x request db' k') = snd (with_caller x request db k)"
  using assms by (auto simp: with_caller_def split: sum.split)

lemma caller_view:
  "tenant_view (caller_id x request) db' = tenant_view (caller_id x request) db \<Longrightarrow>
   caller_entity x request = Inr e \<Longrightarrow> tenant_view e db' = tenant_view e db"
  by (auto dest: caller_entity_id)

lemma reads_handler:
  assumes v: "tenant_view (caller_id x request) db' = tenant_view (caller_id x request) db"
  shows "snd (getEntity x envs request db') = snd (getEntity x envs request db)"
    and "snd (countMembers x envs request db') = snd (countMembers x envs request db)"
    and "snd (listMembers x envs request db') = snd (listMembers x envs request db)"
    and "snd (exportTokens x envs request db') = snd (exportTokens x envs request db)"
    and "snd (countTargets x envs request db') = snd (countTargets x envs request db)"
    and "snd (listTargets x envs request db') = snd (listTargets x envs request db)"
    and "snd (getTarget x envs request db') = snd (getTarget x envs request db)"
    and "snd (countCensus x envs request db') = snd (countCensus x envs request db)"
    and "snd (listTags x envs request db') = snd (listTags x envs request db)"
  unfolding getEntity_def countMembers_def listMembers_def exportTokens_def countTargets_def listTargets_def getTarget_def
    countCensus_def listTags_def
  by (rule with_caller_view, simp add: view_queries [OF caller_view [OF v]] split: sum.split dberror.split option.split)+

lemma reads_guarded:
  assumes v: "tenant_view (caller_id x request) db' = tenant_view (caller_id x request) db"
  shows "snd (listCensus x envs request db') = snd (listCensus x envs request db)"
    and "snd (getMember x envs request db') = snd (getMember x envs request db)"
    and "snd (getCensus x envs request db') = snd (getCensus x envs request db)"
proof -
  note q = view_queries [OF caller_view [OF v]]
  show "snd (listCensus x envs request db') = snd (listCensus x envs request db)"
    by (simp add: listCensus_def q split: sum.split dberror.split)
  show "snd (getMember x envs request db') = snd (getMember x envs request db)"
  proof (cases "rq_MemberID request")
    case (Some u)
    show ?thesis unfolding getMember_def Some option.case
      by (rule with_caller_view) (simp add: q Let_def split: sum.split dberror.split)
  qed (simp add: getMember_def)
  show "snd (getCensus x envs request db') = snd (getCensus x envs request db)"
  proof (cases "length (rq_CensusID request) = 0")
    case False
    show ?thesis unfolding getCensus_def if_not_P [OF False]
      by (rule with_caller_view) (simp add: q split: sum.split dberror.split)
  qed (simp add: getCensus_def)
qed

lemma read_table:
  assumes "tenant_view (caller_id x request) db' = tenant_view (caller_id x request) db"
    and "(meth, h) \<in> set (manager_table x ou m)" "meth \<in> set read_methods"
  shows "snd (h request db') = snd (h request db)"
proof -
  have "\<forall>mh\<in>set (manager_table x ou m). fst mh \<in> set read_methods \<longrightarrow> snd (snd mh request db') = snd (snd mh request db)"
    by (simp add: manager_table_def read_methods_def reads_handler [OF assms(1)] reads_guarded [OF assms(1)])
  then show ?thesis using assms(2,3) by fastforce
qed

lemma manager_api_read:
  assumes "ra_methods (manager_api x ou addr rt m) meth = Some h" "meth \<in> set read_methods"
  shows "(meth, h) \<in> set (manager_table x ou m)"
proof -
  have "meth \<notin> {''getInfo'', ''requestGas'', ''sendValidationLinks'', ''sendVotingLinks''}"
    using assms(2) by (auto simp: read_methods_def)
  then show ?thesis using assms(1) by (auto simp: manager_api_def Manager_EnableAPI_def Let_def split: option.splits if_splits
        dest!: fold_RegisterPublic_pair)
qed

lemma route_read:
  assumes "tenant_view (bts (AddrFromPublicKey x pk)) db' = tenant_view (bts (AddrFromPublicKey x pk)) db"
    and "rq_Method request \<in> set read_methods"
  shows "snd (route (manager_api x ou addr rt m) ok rid pk request db') =
    snd (route (manager_api x ou addr rt m) ok rid pk request db)"
proof (cases "ra_methods (manager_api x ou addr rt m) (rq_Method request)")
  case (Some h)
  have "snd (h (request\<lparr>rq_SignaturePublicKey := pk\<rparr>) db') = snd (h (request\<lparr>rq_SignaturePublicKey := pk\<rparr>) db)"
    by (rule read_table [OF _ manager_api_read [OF Some assms(2)] assms(2)]) (use assms(1) in \<open>simp add: caller_id_def\<close>)
  then show ?thesis by (auto simp: route_def Some split: prod.split outcome.split)
qed (simp add: route_def)

lemma filter_distinct_key: "distinct (map f xs) \<Longrightarrow> x \<in> set xs \<Longrightarrow> filter (\<lambda>y. f y = f x) xs = [x]"
proof (induction xs)
  case (Cons a xs)
  show ?case
  proof (cases "x = a")
    case True
    then have "filter (\<lambda>y. f y = f a) xs = []" using Cons.prems(1) by (auto simp: filter_empty_conv) (metis image_eqI)
    then show ?thesis using True by simp
  next
    case False
    then have "f a \<noteq> f x" using Cons.prems by auto
    then show ?thesis using Cons False by simp
  qed
qed simp

section \<open>Properties\<close>

text \<open>
  C3: nothing that other organisations do shows in what an organisation reads: whatever requests
  signed by other keys came in between, a request for the entity, its members, tokens, targets,
  censuses or tags is answered, or refused, in the same words as before.
\<close>

theorem manager_noninterference:
  assumes "wf_db db" "census_owned db" and "history (serve x addr rt m) calls db = Some db'"
    and "\<forall>c\<in>set calls. signer x c \<noteq> signer x c0" and "rq_Method (ac_request c0) \<in> set read_methods"
  shows "snd (route (manager_api x (ac_outside c0) addr rt m) ok rid (ac_key c0) (ac_request c0) db') =
    snd (route (manager_api x (ac_outside c0) addr rt m) ok rid (ac_key c0) (ac_request c0) db)"
proof (rule route_read [OF _ assms(5)])
  have "tenant_view (signer x c0) db' = tenant_view (signer x c0) db"
    using api.history_isolated [of db x addr rt m calls db'] assms by (simp add: db_inv_def)
  then show "tenant_view (bts (AddrFromPublicKey x (ac_key c0))) db' = tenant_view (bts (AddrFromPublicKey x (ac_key c0))) db"
    by (simp add: signer_def)
qed

theorem manager_noninterference_witness:
  "\<exists>db'. history (serve demo_ext [7] ''/api'' \<lparr>mn_eth = None, mn_smtp = None\<rparr>) [demo_call ''deleteMembers''] demo_db = Some db' \<and>
     snd (route (manager_api demo_ext demo_outside [7] ''/api'' \<lparr>mn_eth = None, mn_smtp = None\<rparr>) True ''1'' (Some [9, 8])
       ((demo_request [] [])\<lparr>rq_Method := ''listMembers''\<rparr>) db') =
     snd (route (manager_api demo_ext demo_outside [7] ''/api'' \<lparr>mn_eth = None, mn_smtp = None\<rparr>) True ''1'' (Some [9, 8])
       ((demo_request [] [])\<lparr>rq_Method := ''listMembers''\<rparr>) demo_db)"
proof -
  let ?c0 = "\<lparr>ac_outside = demo_outside, ac_key = Some [9, 8], ac_request = (demo_request [] [])\<lparr>rq_Method := ''listMembers''\<rparr>\<rparr>"
  obtain db' where h: "history (serve demo_ext [7] ''/api'' \<lparr>mn_eth = None, mn_smtp = None\<rparr>) [demo_call ''deleteMembers''] demo_db = Some db'"
    by (simp add: serve_def)
  have "census_owned demo_db"
    by (auto simp: census_owned_def member_owners_def census_owners_def demo_db_def demo_member_def)
  moreover have "\<forall>c\<in>set [demo_call ''deleteMembers'']. signer demo_ext c \<noteq> signer demo_ext ?c0"
    by (simp add: signer_def demo_call_def demo_ext_def)
  moreover have "rq_Method (ac_request ?c0) \<in> set read_methods" by (simp add: read_methods_def)
  ultimately have "snd (route (manager_api demo_ext (ac_outside ?c0) [7] ''/api'' \<lparr>mn_eth = None, mn_smtp = None\<rparr>) True ''1''
      (ac_key ?c0) (ac_request ?c0) db') = snd (route (manager_api demo_ext (ac_outside ?c0) [7] ''/api''
      \<lparr>mn_eth = None, mn_smtp = None\<rparr>) True ''1'' (ac_key ?c0) (ac_request ?c0) demo_db)"
    by (rule manager_noninterference [OF wf_demo_db _ h])
  then show ?thesis using h by auto
qed

text \<open>
  C37: a mail is the exception: \<^verbatim>\<open>sendValidationLinks\<close> mails any member whose identifier the request
  lists, of whatever organisation, at the address and under the first name that are stored for it,
  in the name of the caller.
\<close>

theorem validation_mail_any_member:
  assumes "wf_db db" "calm envs" "caller_entity x request = Inr e" "e \<noteq> []"
    and "Entity (envs 0) (Some e) db = Inr entity" and "r \<in> set (members db)"
    and "m_email r = Some email" "email \<noteq> []" and "rq_MemberIDs request = [m_id r]"
  shows "(\<exists>mail. SendValidationLink x smtp (member_of r) entity = SendMail smtp mail \<and> ml_Email mail = email \<and>
      ml_FirstName mail = m_first_name r \<and> ml_OrgName mail = ei_Name (en_Info entity)) \<and>
    sendValidationLinks x envs ts smtp collect request db =
      (case collect [validation_worker x ts smtp entity (member_of r)] of
         None \<Rightarrow> (db, Panic)
       | Some c \<Rightarrow> finish_mails envs e ''PendingValidation'' 1 [] c db)"
proof
  have mem: "mi_Email (mb_Info (member_of r)) = email" "mi_FirstName (mb_Info (member_of r)) = m_first_name r"
    using assms(7) by (simp_all add: member_of_def ToMember_def with_consented_def with_tags_def scan_member_def)
  then show "\<exists>mail. SendValidationLink x smtp (member_of r) entity = SendMail smtp mail \<and> ml_Email mail = email \<and>
      ml_FirstName mail = m_first_name r \<and> ml_OrgName mail = ei_Name (en_Info entity)"
    using assms(8) SendValidationLink_mail [of "member_of r" x smtp entity] by auto
  have "distinct (member_ids db)" using assms(1) by (simp add: wf_db_def wf_members_def uniq_map_m_id)
  then have "filter (\<lambda>q. m_id q = m_id r) (members db) = [r]" using filter_distinct_key [of m_id "members db" r] assms(6) by simp
  then have "Members (envs 1) (Some e) (rq_MemberIDs request) db = Inr ([member_of r], [])"
    using assms(2,4,9) by (simp add: Members_def values_err_def slen_def bts_def)
  moreover have "slen (rq_SignaturePublicKey request) = PubKeyLengthBytes x" "PubKeyToEntityID x (rq_SignaturePublicKey request) = Inr e"
    using assms(3) by (auto simp: caller_entity_def split: if_splits sum.splits)
  ultimately show "sendValidationLinks x envs ts smtp collect request db =
      (case collect [validation_worker x ts smtp entity (member_of r)] of
         None \<Rightarrow> (db, Panic)
       | Some c \<Rightarrow> finish_mails envs e ''PendingValidation'' 1 [] c db)"
    using assms(5) by (simp add: sendValidationLinks_def split: option.split)
qed

theorem validation_mail_any_member_witness:
  "\<exists>r\<in>set (members demo_db). m_entity_id r = [8] \<and> (\<exists>mail entity.
     Entity (quiet 1) (Some [7]) demo_db = Inr entity \<and>
     SendValidationLink demo_ext demo_smtp (member_of r) entity = SendMail demo_smtp mail \<and> ml_Email mail = ''a@x.org'' \<and>
     sendValidationLinks demo_ext (\<lambda>k. quiet 1) (\<lambda>_. []) demo_smtp (\<lambda>_. Some ([3], [])) ((demo_request [] [9, 7])\<lparr>rq_MemberIDs := [3]\<rparr>) demo_db =
       finish_mails (\<lambda>k. quiet 1) [7] ''PendingValidation'' 1 [] ([3], []) demo_db)"
proof -
  let ?r = "demo_member 3 [8] (Some [6]) (Some ''a@x.org'') []"
  let ?q = "(demo_request [] [9, 7])\<lparr>rq_MemberIDs := [3]\<rparr>"
  have r: "?r \<in> set (members demo_db)" "m_entity_id ?r = [8]" "m_email ?r = Some ''a@x.org''" "m_id ?r = 3"
    by (simp_all add: demo_db_def demo_member_def)
  have "\<not> isl (Entity (quiet 1) (Some [7]) demo_db)" by code_simp
  then obtain entity where e: "Entity (quiet 1) (Some [7]) demo_db = Inr entity" by (metis isl_def obj_sumE)
  have c: "caller_entity demo_ext ?q = Inr [7]" by code_simp
  have m: "rq_MemberIDs ?q = [m_id ?r]" by (simp add: r(4))
  show ?thesis
    using validation_mail_any_member [OF wf_demo_db calm_quiet c _ e r(1,3) _ m, of demo_smtp "\<lambda>_. []" "\<lambda>_. Some ([3], [])"] r(1,2) e by auto
qed

end
