(* ===== verification/EthClient.thy ===== *)
theory EthClient
  imports Manager
begin

text \<open>
  \<^verbatim>\<open>ethclient/ethclient.go\<close>: the faucet that sends tokens to new entities from a pool of signers. The
  answers of the Ethereum node are arguments. A signer is taken while a transaction of it is
  pending; its \<^verbatim>\<open>Taken\<close> channel has room for one value, so it is a flag.
\<close>

section \<open>Signers\<close>

record tx =
  tx_nonce :: nat
  tx_to :: bytes
  tx_amount :: int
  tx_gasLimit :: nat
  tx_gasPrice :: "int option"

text \<open>What the node answers to the calls made for one signer; \<open>None\<close> and \<open>Inl\<close> are errors.\<close>

record node =
  nd_BalanceAt :: "int option"
  nd_SuggestGasPrice :: "int option"
  nd_PendingNonceAt :: "string + nat"
  nd_NetworkID :: "string + int"
  nd_SignTx :: "tx \<Rightarrow> int \<Rightarrow> string + bytes"
  nd_SendTransaction :: "bytes \<Rightarrow> string option"

text \<open>
  \<^verbatim>\<open>sendTokens\<close>: the hash and the nonce of the transaction. When the price of gas cannot be estimated
  the variable holds the nil that the failed call returned, not the 60 gwei of the log message.
\<close>

definition sendTokens :: "node \<Rightarrow> string \<Rightarrow> nat \<Rightarrow> bytes \<Rightarrow> int \<Rightarrow> string + (bytes \<times> nat)" where
  "sendTokens nd networkName gasLimit to amount =
     (let gasPrice = (if networkName = ''sokol'' then Some 1000000000 else nd_SuggestGasPrice nd) in
      case nd_PendingNonceAt nd of
        Inl e \<Rightarrow> Inl (''cannot get signer account nonce: '' @ e)
      | Inr nonce \<Rightarrow>
          (let t = \<lparr>tx_nonce = nonce, tx_to = to, tx_amount = amount, tx_gasLimit = gasLimit, tx_gasPrice = gasPrice\<rparr> in
           case nd_NetworkID nd of
             Inl e \<Rightarrow> Inl (''cannot get networkId: '' @ e)
           | Inr networkId \<Rightarrow>
               (case nd_SignTx nd t networkId of
                  Inl e \<Rightarrow> Inl (''cannot sign transaction: '' @ e)
                | Inr hash \<Rightarrow>
                    (case nd_SendTransaction nd hash of
                       Some e \<Rightarrow> Inl (''cannot send signed tx: '' @ e)
                     | None \<Rightarrow> Inr (hash, nonce)))))"

text \<open>\<^verbatim>\<open>checkEnoughBalance\<close> declares its own \<^verbatim>\<open>amount\<close>, which is zero, so it compares with the default.\<close>

definition checkEnoughBalance :: "node \<Rightarrow> int \<Rightarrow> string + bool" where
  "checkEnoughBalance nd defaultAmount =
     (case nd_BalanceAt nd of
        None \<Rightarrow> Inl ''cannot check manager balance''
      | Some fromBalance \<Rightarrow>
          (let amount = (0::int); wei = (if amount = 0 then defaultAmount else amount) in
           if \<bar>fromBalance\<bar> < \<bar>wei\<bar>
           then Inl (''wallet does not have enough balance: '' @ FormatInt (to_int64 fromBalance))
           else Inr True))"

section \<open>The client\<close>

record Eth =
  et_networkName :: string
  et_networkID :: int
  et_provider :: string
  et_gasLimit :: nat
  et_DefaultFaucetAmount :: int

record EthNetwork =
  ec_Name :: string
  ec_Provider :: string
  ec_GasLimit :: nat
  ec_FaucetAmount :: int
  ec_Timeout :: int

text \<open>
  \<^verbatim>\<open>New\<close>: \<open>specs\<close> is the network number that the chain library knows for a name, \<open>dial\<close> the result of
  connecting to a provider and asking for its network number. The configured amount is multiplied
  in 64 bits.
\<close>

definition Eth_New :: "(string \<Rightarrow> string + int) \<Rightarrow> (string \<Rightarrow> string + (string + int)) \<Rightarrow> EthNetwork \<Rightarrow> string + Eth" where
  "Eth_New specs dial c =
     (case specs (ec_Name c) of
        Inl e \<Rightarrow> Inl e
      | Inr networkId \<Rightarrow>
          if length (ec_Provider c) = 0 then Inl ''invalid ethereum provider''
          else
            (let gasLimit = (if ec_GasLimit c = 0 then 1000000 else ec_GasLimit c) in
             case (if ec_FaucetAmount c > 0 then Inr (to_int64 (ec_FaucetAmount c * Finney))
                   else DefaultFaucetAmount (ec_Name c)) of
               Inl e \<Rightarrow> Inl e
             | Inr faucetAmount \<Rightarrow>
                 (case dial (ec_Provider c) of
                    Inl e \<Rightarrow> Inl (''cannot connect to ethereum endpoint: '' @ e)
                  | Inr (Inl e) \<Rightarrow> Inl (''cannot get network id: '' @ e)
                  | Inr (Inr chainID) \<Rightarrow>
                      if to_int64 chainID \<noteq> networkId
                      then Inl ''mismatch between Ethereum network name and ethereum network ID''
                      else Inr \<lparr>et_networkName = ec_Name c, et_networkID = chainID, et_provider = ec_Provider c,
                                 et_gasLimit = gasLimit, et_DefaultFaucetAmount = faucetAmount\<rparr>)))"

section \<open>Sending\<close>

text \<open>
  One pass over the pool: the first signer that is free, has the balance and whose transaction is
  accepted stays taken; every other signer that was taken on the way is released again.
\<close>

fun try_signers :: "Eth \<Rightarrow> bytes \<Rightarrow> int \<Rightarrow> (bool \<times> node) list \<Rightarrow> bool list \<times> (nat \<times> bytes) option" where
  "try_signers eth to wei [] = ([], None)"
| "try_signers eth to wei ((taken, nd) # pool) =
     (let next = (\<lambda>flag. case try_signers eth to wei pool of (flags, r) \<Rightarrow>
            (flag # flags, map_option (\<lambda>(i, h). (Suc i, h)) r))
      in if taken then next True
         else case checkEnoughBalance nd (et_DefaultFaucetAmount eth) of
           Inl _ \<Rightarrow> next False
         | Inr False \<Rightarrow> next False
         | Inr True \<Rightarrow>
             (case sendTokens nd (et_networkName eth) (et_gasLimit eth) to wei of
                Inl _ \<Rightarrow> next False
              | Inr (hash, nonce) \<Rightarrow> (True # map fst pool, Some (0, hash))))"

text \<open>
  The endless loop over the pool, with five seconds between the passes. \<open>rounds k\<close> is the pool as
  the \<open>k\<close>-th pass finds it: other requests and finished transactions change the flags in between.
  The result is the number of the pass, the flags after it, the signer and the hash; \<open>None\<close> when the
  loop does not end.
\<close>

partial_function (option) send_loop :: "Eth \<Rightarrow> bytes \<Rightarrow> int \<Rightarrow> (nat \<Rightarrow> (bool \<times> node) list) \<Rightarrow> nat \<Rightarrow>
    (nat \<times> bool list \<times> nat \<times> bytes) option" where
  "send_loop eth to wei rounds k =
     (case try_signers eth to wei (rounds k) of
        (flags, Some (i, hash)) \<Rightarrow> Some (k, flags, i, hash)
      | (flags, None) \<Rightarrow> send_loop eth to wei rounds (Suc k))"

text \<open>\<^verbatim>\<open>SendTokens\<close>: \<open>balance\<close> is the balance of the receiver, \<open>None\<close> when it cannot be read.\<close>

definition SendTokens :: "ext \<Rightarrow> Eth \<Rightarrow> bool \<Rightarrow> int option \<Rightarrow> (nat \<Rightarrow> (bool \<times> node) list) \<Rightarrow> bytes \<Rightarrow> int \<Rightarrow> int \<Rightarrow>
    (string + int) option" where
  "SendTokens x eth client_nil balance rounds to maxAcceptedBalance amount =
     (if client_nil then Some (Inl ''cannot send tokens, ethereum client is nil'')
      else case balance of
        None \<Rightarrow> Some (Inl ''cannot check entity balance'')
      | Some toBalance \<Rightarrow>
          if \<bar>toBalance\<bar> > \<bar>maxAcceptedBalance\<bar>
          then Some (Inl (''entity '' @ AddressString x to @ '' has already a balance of : '' @
                 FormatInt (to_int64 toBalance) @ '', greater than the maxAcceptedBalance''))
          else
            (let wei = (if amount = 0 then et_DefaultFaucetAmount eth else amount) in
             case send_loop eth to wei rounds 0 of
               None \<Rightarrow> None
             | Some _ \<Rightarrow> Some (Inr (et_DefaultFaucetAmount eth))))"

text \<open>
  \<^verbatim>\<open>waitForTx\<close>: the receipt is polled until it is found or cannot be asked for; then the signer is
  released. The result is the number of polls.
\<close>

datatype receipt = NotFound | ReceiptError string | Status nat

partial_function (option) waitForTx :: "(nat \<Rightarrow> receipt) \<Rightarrow> nat \<Rightarrow> nat option" where
  "waitForTx receipts k =
     (case receipts k of
        NotFound \<Rightarrow> waitForTx receipts (Suc k)
      | ReceiptError _ \<Rightarrow> Some (Suc k)
      | Status _ \<Rightarrow> Some (Suc k))"

section \<open>Facts\<close>

text \<open>A signer that can pay: free, with the default amount, and the node takes its transaction.\<close>

definition able :: "Eth \<Rightarrow> bytes \<Rightarrow> int \<Rightarrow> bool \<times> node \<Rightarrow> bool" where
  "able eth to wei s =
     (\<not> fst s \<and> checkEnoughBalance (snd s) (et_DefaultFaucetAmount eth) = Inr True \<and>
      \<not> isl (sendTokens (snd s) (et_networkName eth) (et_gasLimit eth) to wei))"

lemma try_signers_None:
  "snd (try_signers eth to wei pool) = None \<longleftrightarrow> (\<forall>s\<in>set pool. \<not> able eth to wei s)"
  "snd (try_signers eth to wei pool) = None \<Longrightarrow> fst (try_signers eth to wei pool) = map fst pool"
  by (induction pool) (auto simp: able_def Let_def split: sum.splits prod.splits bool.splits if_splits)

lemma try_signers_Some:
  "try_signers eth to wei pool = (flags, Some (i, h)) \<Longrightarrow>
   i < length pool \<and> able eth to wei (pool ! i) \<and> (\<forall>j<i. \<not> able eth to wei (pool ! j)) \<and>
   flags = (map fst pool)[i := True]"
proof (induction pool arbitrary: flags i)
  case Nil
  then show ?case by simp
next
  case (Cons s pool)
  show ?case
  proof (cases "able eth to wei s")
    case True
    then show ?thesis using Cons.prems
      by (cases s) (auto simp: able_def Let_def split: sum.splits prod.splits bool.splits if_splits)
  next
    case False
    then obtain flags' i' where "try_signers eth to wei pool = (flags', Some (i', h))" "i = Suc i'" "flags = fst s # flags'"
      using Cons.prems by (cases s) (auto simp: able_def Let_def split: sum.splits prod.splits bool.splits if_splits)
    then show ?thesis using Cons.IH [of flags' i'] False by (auto simp: less_Suc_eq_0_disj)
  qed
qed

lemma send_loop_here:
  "\<exists>s\<in>set (rounds k). able eth to wei s \<Longrightarrow> \<exists>flags i h. send_loop eth to wei rounds k = Some (k, flags, i, h)"
  using try_signers_None(1) [of eth to wei "rounds k"]
  by (subst send_loop.simps) (auto split: prod.splits option.splits)

lemma send_loop_later:
  assumes "\<exists>s\<in>set (rounds (k + d)). able eth to wei s"
  shows "\<exists>r. send_loop eth to wei rounds k = Some r"
  using assms
proof (induction d arbitrary: k)
  case 0
  then have "\<exists>flags i h. send_loop eth to wei rounds k = Some (k, flags, i, h)" by (intro send_loop_here) simp
  then show ?case by blast
next
  case (Suc d)
  then have "\<exists>r. send_loop eth to wei rounds (Suc k) = Some r" using Suc.IH [of "Suc k"] by simp
  then show ?case by (subst send_loop.simps) (auto split: prod.splits option.splits)
qed

lemma send_loop_Some:
  assumes "send_loop eth to wei rounds k = Some r"
  shows "case r of (k', flags, i, h) \<Rightarrow> k \<le> k' \<and> try_signers eth to wei (rounds k') = (flags, Some (i, h))"
  by (rule send_loop.raw_induct [where P = "\<lambda>eth to wei rounds k r. case r of (k', flags, i, h) \<Rightarrow>
      k \<le> k' \<and> try_signers eth to wei (rounds k') = (flags, Some (i, h))", OF _ assms])
    (fastforce split: prod.splits option.splits)

text \<open>The polling for a receipt ends exactly when some poll is answered with something else than "not found".\<close>

lemma waitForTx_later: "receipts (k + d) \<noteq> NotFound \<Longrightarrow> \<exists>n. waitForTx receipts k = Some n"
proof (induction d arbitrary: k)
  case 0
  then show ?case by (subst waitForTx.simps) (auto split: receipt.splits)
next
  case (Suc d)
  then have "\<exists>n. waitForTx receipts (Suc k) = Some n" using Suc.IH [of "Suc k"] by simp
  then show ?case by (subst waitForTx.simps) (auto split: receipt.splits)
qed

lemma waitForTx_Some:
  assumes "waitForTx receipts k = Some n"
  shows "k < n \<and> receipts (n - 1) \<noteq> NotFound"
  by (rule waitForTx.raw_induct [where P = "\<lambda>receipts k n. k < n \<and> receipts (n - 1) \<noteq> NotFound", OF _ assms])
    (fastforce split: receipt.splits)

text \<open>An amount of 9224 finney or more, configured in the units of the configuration, wraps around.\<close>

lemma Eth_New_overflow:
  "\<exists>eth. Eth_New (\<lambda>_. Inr 100) (\<lambda>_. Inr (Inr 100)) \<lparr>ec_Name = ''xdai'', ec_Provider = ''p'', ec_GasLimit = 0, ec_FaucetAmount = 9224, ec_Timeout = 0\<rparr> =
     Inr eth \<and> et_DefaultFaucetAmount eth < 0"
  by (simp add: Eth_New_def Let_def to_int64_def Finney_def)

section \<open>Properties\<close>

text \<open>
  C19: when the receiver's balance is read and low enough, \<^verbatim>\<open>SendTokens\<close> returns exactly when in some
  pass over the pool there is a signer that is free, owns the default amount and whose transaction
  the node accepts; it loops for ever otherwise, in particular on an empty pool. When it returns, the
  first such signer of the pass, and no other, was taken for it, and the amount it reports is the
  default one.
\<close>

theorem SendTokens_returns:
  assumes "\<bar>balance\<bar> \<le> \<bar>maxAccepted\<bar>"
    and "wei = (if amount = 0 then et_DefaultFaucetAmount eth else amount)"
  shows "((\<exists>r. SendTokens x eth False (Some balance) rounds to maxAccepted amount = Some r) \<longleftrightarrow>
      (\<exists>k. \<exists>s\<in>set (rounds k). able eth to wei s)) \<and>
    (\<forall>r. SendTokens x eth False (Some balance) rounds to maxAccepted amount = Some r \<longrightarrow>
      r = Inr (et_DefaultFaucetAmount eth) \<and>
      (\<exists>k i h. send_loop eth to wei rounds 0 = Some (k, (map fst (rounds k))[i := True], i, h) \<and>
        i < length (rounds k) \<and> \<not> fst (rounds k ! i) \<and> (\<forall>j<i. \<not> able eth to wei (rounds k ! j))))"
proof -
  have S: "SendTokens x eth False (Some balance) rounds to maxAccepted amount =
      map_option (\<lambda>_. Inr (et_DefaultFaucetAmount eth)) (send_loop eth to wei rounds 0)"
    using assms by (auto simp: SendTokens_def Let_def split: option.splits)
  have loop: "\<exists>k i h. send_loop eth to wei rounds 0 = Some (k, (map fst (rounds k))[i := True], i, h) \<and>
      i < length (rounds k) \<and> able eth to wei (rounds k ! i) \<and> (\<forall>j<i. \<not> able eth to wei (rounds k ! j))"
    if some: "send_loop eth to wei rounds 0 = Some r" for r
  proof -
    obtain k flags i h where r: "r = (k, flags, i, h)" by (cases r)
    with send_loop_Some [OF some] have "try_signers eth to wei (rounds k) = (flags, Some (i, h))" by simp
    from try_signers_Some [OF this] show ?thesis using some r by blast
  qed
  have "(\<exists>r. send_loop eth to wei rounds 0 = Some r) \<longleftrightarrow> (\<exists>k. \<exists>s\<in>set (rounds k). able eth to wei s)"
    using send_loop_later [of rounds 0 _ eth to wei] loop nth_mem by (metis add_0)
  then show ?thesis using loop by (auto simp: S able_def)
qed

text \<open>A node that accepts everything, and a pool whose first signer is taken.\<close>

definition demo_node :: node where
  "demo_node = \<lparr>nd_BalanceAt = Some 1000, nd_SuggestGasPrice = None, nd_PendingNonceAt = Inr 4, nd_NetworkID = Inr 100,
     nd_SignTx = (\<lambda>_ _. Inr [1]), nd_SendTransaction = (\<lambda>_. None)\<rparr>"

definition demo_eth :: Eth where
  "demo_eth = \<lparr>et_networkName = ''xdai'', et_networkID = 100, et_provider = ''p'', et_gasLimit = 1, et_DefaultFaucetAmount = 500\<rparr>"

theorem SendTokens_returns_witness:
  "\<exists>r. SendTokens demo_ext demo_eth False (Some 0) (\<lambda>_. [(True, demo_node), (False, demo_node)]) [7] 0 0 = Some r"
proof -
  have "able demo_eth [7] 500 (False, demo_node)"
    by (simp add: able_def checkEnoughBalance_def sendTokens_def demo_node_def demo_eth_def Let_def)
  then show ?thesis
    using SendTokens_returns [of 0 0 500 0 demo_eth demo_ext "\<lambda>_. [(True, demo_node), (False, demo_node)]" "[7]"]
    by (auto simp: demo_eth_def)
qed

end
