(* ===== verification/Config.thy ===== *)
theory Config
  imports EthClient
begin

text \<open>
  The configuration of the service: the structs of \<^verbatim>\<open>config/config.go\<close> and \<^verbatim>\<open>config/manager.go\<close>, and
  \<^verbatim>\<open>newConfig\<close> of \<^verbatim>\<open>cmd/dvotemanager/dvotemanager.go\<close>, which puts a configuration together from the
  command line, the environment and a file. The flag and the configuration library are arguments:
  what the parsing of the command line found, and what unmarshalling into the struct leaves there.
\<close>

section \<open>Structs\<close>

record API_config =
  ap_Route :: string
  ap_ListenPort :: int
  ap_ListenHost :: string
  ap_Domain :: string
  ap_DirCert :: string

record DB_config =
  dc_Host :: string
  dc_Port :: int
  dc_User :: string
  dc_Password :: string
  dc_Dbname :: string
  dc_Sslmode :: string

record SMTP_config =
  sc_Host :: string
  sc_Port :: int
  sc_User :: string
  sc_Password :: string
  sc_PoolSize :: int
  sc_Timeout :: int
  sc_ValidationURL :: string
  sc_Sender :: string
  sc_SenderName :: string
  sc_Contact :: string
  sc_WebpollURL :: string

record MetricsCfg =
  mt_Enabled :: bool
  mt_RefreshInterval :: int

record Manager_config =
  cf_API :: API_config
  cf_DB :: DB_config
  cf_SMTP :: SMTP_config
  cf_LogLevel :: string
  cf_LogOutput :: string
  cf_LogErrorFile :: string
  cf_Metrics :: MetricsCfg
  cf_Mode :: string
  cf_DataDir :: string
  cf_SaveConfig :: bool
  cf_SigningKeys :: "string list"
  cf_MigrateAction :: string
  cf_EthNetwork :: EthNetwork

record config_error =
  ce_Critical :: bool
  ce_Message :: string

definition no_error :: config_error where
  "no_error = \<lparr>ce_Critical = False, ce_Message = []\<rparr>"

definition config_warning :: "string \<Rightarrow> config_error" where
  "config_warning msg = \<lparr>ce_Critical = False, ce_Message = msg\<rparr>"

definition NewManagerConfig :: Manager_config where
  "NewManagerConfig =
     \<lparr>cf_API = \<lparr>ap_Route = [], ap_ListenPort = 0, ap_ListenHost = [], ap_Domain = [], ap_DirCert = []\<rparr>,
      cf_DB = \<lparr>dc_Host = [], dc_Port = 0, dc_User = [], dc_Password = [], dc_Dbname = [], dc_Sslmode = []\<rparr>,
      cf_SMTP = \<lparr>sc_Host = [], sc_Port = 0, sc_User = [], sc_Password = [], sc_PoolSize = 0, sc_Timeout = 0,
        sc_ValidationURL = [], sc_Sender = [], sc_SenderName = [], sc_Contact = [], sc_WebpollURL = []\<rparr>,
      cf_LogLevel = [], cf_LogOutput = [], cf_LogErrorFile = [],
      cf_Metrics = \<lparr>mt_Enabled = False, mt_RefreshInterval = 0\<rparr>, cf_Mode = [], cf_DataDir = [],
      cf_SaveConfig = False, cf_SigningKeys = [], cf_MigrateAction = [],
      cf_EthNetwork = \<lparr>ec_Name = [], ec_Provider = [], ec_GasLimit = 0, ec_FaucetAmount = 0, ec_Timeout = 0\<rparr>\<rparr>"

definition Modes :: "string \<Rightarrow> bool option" where
  "Modes = [''registry'' \<mapsto> True, ''manager'' \<mapsto> True, ''token'' \<mapsto> True, ''notifications'' \<mapsto> True, ''all'' \<mapsto> True]"

text \<open>A key that is not in the map reads as false.\<close>

definition ValidMode :: "Manager_config \<Rightarrow> bool" where
  "ValidMode m = (case Modes (cf_Mode m) of None \<Rightarrow> False | Some b \<Rightarrow> b)"

section \<open>Flags\<close>

datatype flag_value = FString string | FInt int | FBool bool | FStrings "string list"

text \<open>The flags in the order of their definition, with their defaults; durations are nanoseconds.\<close>

definition flags :: "string \<Rightarrow> (string \<times> flag_value) list" where
  "flags home =
     [(''dataDir'', FString (home @ ''/.dvotemanager'')),
      (''mode'', FString ''all''),
      (''logLevel'', FString ''info''),
      (''logOutput'', FString ''stdout''),
      (''logErrorFile'', FString ''''),
      (''saveConfig'', FBool False),
      (''signingKeys'', FStrings []),
      (''apiRoute'', FString ''/api''),
      (''listenHost'', FString ''0.0.0.0''),
      (''listenPort'', FInt 8000),
      (''sslDomain'', FString ''''),
      (''dbHost'', FString ''127.0.0.1''),
      (''dbPort'', FInt 5432),
      (''dbUser'', FString ''user''),
      (''dbPassword'', FString ''password''),
      (''dbName'', FString ''database''),
      (''dbSslmode'', FString ''prefer''),
      (''migrateAction'', FString ''''),
      (''smtpHost'', FString ''127.0.0.1''),
      (''smtpPort'', FInt 587),
      (''smtpUser'', FString ''user''),
      (''smtpPassword'', FString ''password''),
      (''smtpPoolSize'', FInt 4),
      (''smtpTimeout'', FInt 30),
      (''smtpValidationURL'', FString ''https://vocdoni.link/validation''),
      (''smtpWebpollURL'', FString ''https://manager.vocdoni.net/processes/vote/#''),
      (''smtpSender'', FString ''validation@bender.vocdoni.io''),
      (''smtpSenderName'', FString ''Vocdoni''),
      (''smtpContact'', FString ''contact@vocdoni.io''),
      (''ethNetworkName'', FString ''goerli''),
      (''ethNetworkProvider'', FString ''''),
      (''ethNetworkGasLimit'', FInt 0),
      (''ethNetworkFaucetAmount'', FInt (0 * Finney)),
      (''ethNetworkTimeout'', FInt (60 * 1000000000)),
      (''metricsEnabled'', FBool True),
      (''metricsRefreshInterval'', FInt 10)]"

definition string_flag :: "(string \<times> flag_value) list \<Rightarrow> string \<Rightarrow> string" where
  "string_flag fs name = (case map_of fs name of Some (FString s) \<Rightarrow> s | _ \<Rightarrow> [])"

definition int_flag :: "(string \<times> flag_value) list \<Rightarrow> string \<Rightarrow> int" where
  "int_flag fs name = (case map_of fs name of Some (FInt i) \<Rightarrow> i | _ \<Rightarrow> 0)"

definition bool_flag :: "(string \<times> flag_value) list \<Rightarrow> string \<Rightarrow> bool" where
  "bool_flag fs name = (case map_of fs name of Some (FBool b) \<Rightarrow> b | _ \<Rightarrow> False)"

definition strings_flag :: "(string \<times> flag_value) list \<Rightarrow> string \<Rightarrow> string list" where
  "strings_flag fs name = (case map_of fs name of Some (FStrings ss) \<Rightarrow> ss | _ \<Rightarrow> [])"

text \<open>
  Every field but the data directory is assigned by reading through the pointer that the definition
  of its flag returns, before the command line is parsed: it holds the default.
\<close>

definition flag_config :: "(string \<times> flag_value) list \<Rightarrow> Manager_config" where
  "flag_config fs =
     NewManagerConfig\<lparr>
       cf_Mode := string_flag fs ''mode'',
       cf_LogLevel := string_flag fs ''logLevel'',
       cf_LogOutput := string_flag fs ''logOutput'',
       cf_LogErrorFile := string_flag fs ''logErrorFile'',
       cf_SaveConfig := bool_flag fs ''saveConfig'',
       cf_SigningKeys := strings_flag fs ''signingKeys'',
       cf_API := \<lparr>ap_Route = string_flag fs ''apiRoute'', ap_ListenPort = int_flag fs ''listenPort'',
         ap_ListenHost = string_flag fs ''listenHost'', ap_Domain = string_flag fs ''sslDomain'', ap_DirCert = []\<rparr>,
       cf_DB := \<lparr>dc_Host = string_flag fs ''dbHost'', dc_Port = int_flag fs ''dbPort'', dc_User = string_flag fs ''dbUser'',
         dc_Password = string_flag fs ''dbPassword'', dc_Dbname = string_flag fs ''dbName'',
         dc_Sslmode = string_flag fs ''dbSslmode''\<rparr>,
       cf_MigrateAction := string_flag fs ''migrateAction'',
       cf_SMTP := \<lparr>sc_Host = string_flag fs ''smtpHost'', sc_Port = int_flag fs ''smtpPort'',
         sc_User = string_flag fs ''smtpUser'', sc_Password = string_flag fs ''smtpPassword'',
         sc_PoolSize = int_flag fs ''smtpPoolSize'', sc_Timeout = int_flag fs ''smtpTimeout'',
         sc_ValidationURL = string_flag fs ''smtpValidationURL'', sc_Sender = string_flag fs ''smtpSender'',
         sc_SenderName = string_flag fs ''smtpSenderName'', sc_Contact = string_flag fs ''smtpContact'',
         sc_WebpollURL = string_flag fs ''smtpWebpollURL''\<rparr>,
       cf_EthNetwork := \<lparr>ec_Name = string_flag fs ''ethNetworkName'', ec_Provider = string_flag fs ''ethNetworkProvider'',
         ec_GasLimit = nat (int_flag fs ''ethNetworkGasLimit''), ec_FaucetAmount = int_flag fs ''ethNetworkFaucetAmount'',
         ec_Timeout = int_flag fs ''ethNetworkTimeout''\<rparr>,
       cf_Metrics := \<lparr>mt_Enabled = bool_flag fs ''metricsEnabled'',
         mt_RefreshInterval = int_flag fs ''metricsRefreshInterval''\<rparr>\<rparr>"

section \<open>The configuration library\<close>

text \<open>What the program tells the library: where the file is, which keys follow which flags, and the values it sets.\<close>

record viper =
  vp_ConfigPath :: string
  vp_ConfigName :: string
  vp_ConfigType :: string
  vp_EnvPrefix :: string
  vp_bound :: "(string \<times> string) list"
  vp_set :: "(string \<times> string) list"

definition bindings :: "(string \<times> string) list" where
  "bindings =
     [(''dataDir'', ''dataDir''), (''logLevel'', ''logLevel''), (''logErrorFile'', ''logErrorFile''),
      (''logOutput'', ''logOutput''), (''signingKeys'', ''signingKeys''), (''api.route'', ''apiRoute''),
      (''api.listenHost'', ''listenHost''), (''api.listenPort'', ''listenPort''), (''api.ssl.domain'', ''sslDomain''),
      (''db.host'', ''dbHost''), (''db.port'', ''dbPort''), (''db.user'', ''dbUser''), (''db.password'', ''dbPassword''),
      (''db.dbName'', ''dbName''), (''db.sslMode'', ''dbSslmode''), (''migrate.action'', ''migrateAction''),
      (''smtp.host'', ''smtpHost''), (''smtp.port'', ''smtpPort''), (''smtp.user'', ''smtpUser''),
      (''smtp.password'', ''smtpPassword''), (''smtp.poolSize'', ''smtpPoolSize''), (''smtp.timeOut'', ''smtpTimeout''),
      (''smtp.validationURL'', ''smtpValidationURL''), (''smtp.webpollURL'', ''smtpWebpollURL''),
      (''smtp.sender'', ''smtpSender''), (''smtp.senderName'', ''smtpSenderName''), (''smtp.contact'', ''smtpContact''),
      (''ethnetwork.name'', ''ethNetworkName''), (''ethnetwork.provider'', ''ethNetworkProvider''),
      (''ethnetwork.gasLimit'', ''ethNetworkGasLimit''), (''ethnetwork.faucetAmount'', ''ethNetworkFaucetAmount''),
      (''ethnetwork.timeout'', ''ethNetworkTimeout''), (''metrics.enabled'', ''metricsEnabled''),
      (''metrics.refreshInterval'', ''metricsRefreshInterval'')]"

definition viper_setup :: "string \<Rightarrow> viper" where
  "viper_setup dataDir = \<lparr>vp_ConfigPath = dataDir, vp_ConfigName = ''dvotemanager'', vp_ConfigType = ''yml'',
     vp_EnvPrefix = ''DVOTE'', vp_bound = bindings, vp_set = [(''api.ssl.dirCert'', dataDir @ ''/tls'')]\<rparr>"

text \<open>
  What the program meets: \<open>Parsed\<close> is the value the command line gives a flag, if it does; \<open>Unmarshal\<close>
  is what the library makes of its settings, the flags bound to it and the struct.
\<close>

record machine =
  mc_UserHomeDir :: "string + string"
  mc_Parsed :: "string \<Rightarrow> flag_value option"
  mc_IsNotExist :: "string \<Rightarrow> bool"
  mc_MkdirAll :: "string \<Rightarrow> string option"
  mc_SafeWriteConfig :: "viper \<Rightarrow> string option"
  mc_ReadInConfig :: "viper \<Rightarrow> string option"
  mc_Unmarshal :: "viper \<Rightarrow> (string \<Rightarrow> flag_value option) \<Rightarrow> Manager_config \<Rightarrow> Manager_config \<times> string option"
  mc_WriteConfig :: "viper \<Rightarrow> string option"

section \<open>newConfig\<close>

text \<open>The file is written when there is none, else read; the last message stays.\<close>

definition config_file :: "machine \<Rightarrow> string \<Rightarrow> viper \<Rightarrow> config_error" where
  "config_file mc dir v =
     (if mc_IsNotExist mc (dir @ ''/dvotemanager.yml'') then
        (let e0 = config_warning (''creating new config file in '' @ dir);
             e1 = (case mc_MkdirAll mc dir of None \<Rightarrow> e0 | Some e \<Rightarrow> config_warning (''cannot create data directory: '' @ e))
         in case mc_SafeWriteConfig mc v of
              None \<Rightarrow> e1
            | Some e \<Rightarrow> config_warning (''cannot write config file into config dir: '' @ e))
      else case mc_ReadInConfig mc v of
        None \<Rightarrow> no_error
      | Some e \<Rightarrow> config_warning (''cannot read loaded config file in '' @ dir @ '': '' @ e))"

text \<open>
  \<^verbatim>\<open>newConfig\<close>; \<open>None\<close> is a panic: without signing keys the generated one is assigned to the first
  element of an empty slice. The error that is tested after the generation is still the one of the
  unmarshalling.
\<close>

definition newConfig :: "machine \<Rightarrow> (Manager_config option \<times> config_error) option" where
  "newConfig mc =
     (case mc_UserHomeDir mc of
        Inl e \<Rightarrow> Some (None, \<lparr>ce_Critical = True, ce_Message = ''cannot get user home directory with error: '' @ e\<rparr>)
      | Inr home \<Rightarrow>
          (let fs = flags home;
               dir = (case mc_Parsed mc ''dataDir'' of Some (FString d) \<Rightarrow> d | _ \<Rightarrow> string_flag fs ''dataDir'');
               cfg0 = (flag_config fs)\<lparr>cf_DataDir := dir\<rparr>;
               v = viper_setup dir;
               e1 = config_file mc dir v
           in case mc_Unmarshal mc v (mc_Parsed mc) cfg0 of
                (cfg, err) \<Rightarrow>
                  (let e2 = (case err of None \<Rightarrow> e1 | Some e \<Rightarrow> config_warning (''cannot unmarshal loaded config file: '' @ e))
                   in if length (cf_SigningKeys cfg) = 0 then
                        (case err of
                           Some e \<Rightarrow> Some (Some cfg, config_warning (''cannot generate signing key: '' @ e))
                         | None \<Rightarrow> None)
                      else if cf_SaveConfig cfg then
                        (case mc_WriteConfig mc (v\<lparr>vp_set := vp_set v @ [(''saveConfig'', ''false'')]\<rparr>) of
                           None \<Rightarrow> Some (Some cfg, e2)
                         | Some e \<Rightarrow> Some (Some cfg, config_warning (''cannot overwrite config file into config dir: '' @ e)))
                      else Some (Some cfg, e2))))"

section \<open>Facts\<close>

text \<open>Every bound flag exists, and the flags that no key follows are exactly two.\<close>

lemma unbound_flags:
  "set (map snd bindings) \<subseteq> set (map fst (flags home))"
  "filter (\<lambda>f. f \<notin> set (map snd bindings)) (map fst (flags home)) = [''mode'', ''saveConfig'']"
  by (simp_all add: bindings_def flags_def)

lemma Modes_valid:
  "ValidMode m \<longleftrightarrow> cf_Mode m \<in> {''registry'', ''manager'', ''token'', ''notifications'', ''all''}"
  by (auto simp: ValidMode_def Modes_def)

text \<open>What the configuration library documents: of the flags it reads those that were bound to it.\<close>

definition reads_bound_flags :: "machine \<Rightarrow> bool" where
  "reads_bound_flags mc = (\<forall>v p p' c. (\<forall>f\<in>set (map snd (vp_bound v)). p f = p' f) \<longrightarrow>
     mc_Unmarshal mc v p c = mc_Unmarshal mc v p' c)"

lemma newConfig_unbound:
  assumes lib: "reads_bound_flags mc" and p: "\<And>f. f \<noteq> ''mode'' \<Longrightarrow> f \<noteq> ''saveConfig'' \<Longrightarrow> p f = mc_Parsed mc f"
  shows "newConfig (mc\<lparr>mc_Parsed := p\<rparr>) = newConfig mc"
proof -
  have b: "vp_bound (viper_setup d) = bindings" for d by (simp add: viper_setup_def)
  have "\<forall>f\<in>set (map snd bindings). p f = mc_Parsed mc f" using p by (simp add: bindings_def)
  then have "mc_Unmarshal mc (viper_setup d) p c = mc_Unmarshal mc (viper_setup d) (mc_Parsed mc) c" for d c
    using lib b unfolding reads_bound_flags_def by metis
  moreover have "p ''dataDir'' = mc_Parsed mc ''dataDir''" using p by simp
  moreover have "config_file (mc\<lparr>mc_Parsed := p\<rparr>) d v = config_file mc d v" for d v by (simp add: config_file_def)
  ultimately show ?thesis by (cases "mc_UserHomeDir mc") (simp_all add: newConfig_def Let_def split: prod.split)
qed

section \<open>Properties\<close>

text \<open>
  The signing key that the flag promises to create when none is given is never created: whatever
  the machine answers, \<^verbatim>\<open>newConfig\<close> panics exactly when the configuration was unmarshalled without an
  error and has no signing key, and the configuration it returns otherwise is the unmarshalled one.
\<close>

lemma newConfig_signing_keys:
  "(newConfig mc = None \<longleftrightarrow>
      (\<exists>home dir cfg. mc_UserHomeDir mc = Inr home \<and>
         mc_Unmarshal mc (viper_setup dir) (mc_Parsed mc) ((flag_config (flags home))\<lparr>cf_DataDir := dir\<rparr>) = (cfg, None) \<and>
         dir = (case mc_Parsed mc ''dataDir'' of Some (FString d) \<Rightarrow> d | _ \<Rightarrow> home @ ''/.dvotemanager'') \<and>
         cf_SigningKeys cfg = [])) \<and>
   (\<forall>cfg e. newConfig mc = Some (Some cfg, e) \<longrightarrow>
      (\<exists>home dir. cfg = fst (mc_Unmarshal mc (viper_setup dir) (mc_Parsed mc) ((flag_config (flags home))\<lparr>cf_DataDir := dir\<rparr>))))"
proof -
  have d: "string_flag (flags home) ''dataDir'' = home @ ''/.dvotemanager''" for home
    by (simp add: string_flag_def flags_def)
  show ?thesis
    by (auto simp: newConfig_def Let_def d split: sum.splits prod.splits option.splits if_splits flag_value.splits)
      (metis fst_conv)+
qed

end
