(* ===== verification/Migrations.thy ===== *)
theory Migrations
  imports Prelude
begin

text \<open>
  The start of the service: \<^verbatim>\<open>Migrator\<close> of \<^verbatim>\<open>database/pgsql/migrations.go\<close> and the three methods of
  \<^verbatim>\<open>database/pgsql/pgsql.go\<close> it calls. The third-party migration library is an argument: it applies
  migrations to a state \<open>'s\<close> of the server and counts the applied ones.
\<close>

section \<open>Methods\<close>

datatype direction = Up | Down

text \<open>
  \<^verbatim>\<open>ExecMax\<close> applies at most so many migrations in a direction, 0 meaning all, and returns their
  number; \<^verbatim>\<open>GetMigrationRecords\<close> returns the applied ones, of which only the number and the printed
  form (\<open>None\<close> when it cannot be printed) are used.
\<close>

record 's migration_library =
  ExecMax :: "nat \<Rightarrow> direction \<Rightarrow> nat \<Rightarrow> 's \<Rightarrow> 's \<times> (string + nat)"
  GetMigrationRecords :: "'s \<Rightarrow> string + nat \<times> string option"

text \<open>The source \<^verbatim>\<open>Migrations\<close> has seven migrations and is kept in memory, so it is always found.\<close>

definition Migrations :: "string list" where
  "Migrations = [''1'', ''2'', ''3'', ''4'', ''5'', ''6'', ''7'']"

definition Migrate :: "'s migration_library \<Rightarrow> direction \<Rightarrow> 's \<Rightarrow> 's \<times> (string + nat)" where
  "Migrate lib dir s =
     (case ExecMax lib (length Migrations) dir 1 s of
        (s', Inl e) \<Rightarrow> (s', Inl (''failed migration: '' @ e))
      | (s', Inr n) \<Rightarrow> (s', Inr n))"

definition MigrateStatus :: "'s migration_library \<Rightarrow> 's \<Rightarrow> string + nat \<times> nat \<times> string" where
  "MigrateStatus lib s =
     (case GetMigrationRecords lib s of
        Inl e \<Rightarrow> Inl (''cannot  retrieve applied migrations status: '' @ e)
      | Inr (n, None) \<Rightarrow> Inl ''failed to parse migration status''
      | Inr (n, Some record) \<Rightarrow> Inr (length Migrations, n, record))"

definition MigrationUpSync :: "'s migration_library \<Rightarrow> 's \<Rightarrow> 's \<times> (string + nat)" where
  "MigrationUpSync lib s =
     (case ExecMax lib (length Migrations) Up 0 s of
        (s', Inl e) \<Rightarrow> (s', Inl (''cannot  perform missing migrations: '' @ e))
      | (s', Inr n) \<Rightarrow> (s', Inr n))"

section \<open>Migrator\<close>

text \<open>The part of \<^verbatim>\<open>Migrator\<close> that depends on the action; an error, or nothing.\<close>

definition migrate_action :: "'s migration_library \<Rightarrow> string \<Rightarrow> 's \<Rightarrow> 's \<times> string option" where
  "migrate_action lib action s =
     (if action = ''upSync'' then
        (case MigrateStatus lib s of
           Inl e \<Rightarrow> (s, Some (''could not retrieve migrations status: ('' @ e @ '')''))
         | Inr (mTotal, mApplied, _) \<Rightarrow>
             if mTotal > mApplied then
               (case MigrationUpSync lib s of
                  (s', Inl e) \<Rightarrow> (s', Some (''could not apply necessary migrations ('' @ e @ '')''))
                | (s', Inr n) \<Rightarrow>
                    (s', if n \<noteq> mTotal - mApplied then Some ''could not apply all necessary migrations (<nil>)'' else None))
             else if mTotal < mApplied then (s, Some ''someting goes terribly wrong with the DB migrations'')
             else (s, None))
      else if action = ''up'' \<or> action = ''down'' then
        (case Migrate lib (if action = ''down'' then Down else Up) s of
           (s', Inl e) \<Rightarrow> (s', Some (''error applying migration: ('' @ e @ '')''))
         | (s', Inr n) \<Rightarrow> (s', if n \<noteq> 1 then Some ''reported applied migrations !=1'' else None))
      else if action = ''status'' then (s, None)
      else (s, Some ''unknown migrate command''))"

definition Migrator :: "'s migration_library \<Rightarrow> string \<Rightarrow> 's \<Rightarrow> 's \<times> string option" where
  "Migrator lib action s =
     (case migrate_action lib action s of
        (s', Some e) \<Rightarrow> (s', Some e)
      | (s', None) \<Rightarrow>
          (case MigrateStatus lib s' of
             Inl e \<Rightarrow> (s', Some (''could not retrieve migrations status: ('' @ e @ '')''))
           | Inr _ \<Rightarrow> (s', None)))"

section \<open>Properties\<close>

text \<open>
  What the library documents: the number that \<^verbatim>\<open>ExecMax\<close> returns is the number of migrations that
  were added to the records, or taken off them.
\<close>

definition counts_applied :: "'s migration_library \<Rightarrow> bool" where
  "counts_applied lib = (\<forall>total dir limit s s' n m m' p p'. ExecMax lib total dir limit s = (s', Inr n) \<longrightarrow>
     GetMigrationRecords lib s = Inr (m, p) \<longrightarrow> GetMigrationRecords lib s' = Inr (m', p') \<longrightarrow>
     (case dir of Up \<Rightarrow> m' = m + n | Down \<Rightarrow> m = m' + n))"

lemma MigrateStatus_Inr:
  "MigrateStatus lib t = Inr r \<Longrightarrow> \<exists>m p. GetMigrationRecords lib t = Inr (m, p) \<and> fst r = 7 \<and> fst (snd r) = m"
  by (auto simp: MigrateStatus_def Migrations_def split: sum.splits option.splits)

lemma counts_applied_exec:
  assumes "counts_applied lib" "ExecMax lib tot dir limit s = (s', Inr n)"
    "GetMigrationRecords lib s = Inr (m, p)" "GetMigrationRecords lib s' = Inr (m', p')"
  shows "case dir of Up \<Rightarrow> m' = m + n | Down \<Rightarrow> m = m' + n"
  using assms unfolding counts_applied_def by blast

text \<open>After a successful \<^verbatim>\<open>upSync\<close> the migrations of the source are applied, whatever was before.\<close>

lemma Migrator_upSync:
  assumes lib: "counts_applied lib" and ok: "Migrator lib ''upSync'' s = (s', None)"
  shows "\<exists>p. GetMigrationRecords lib s' = Inr (7, p)"
proof -
  from ok obtain r where r: "MigrateStatus lib s = Inr r"
    by (auto simp: Migrator_def migrate_action_def split: sum.splits)
  from ok obtain r' where r': "MigrateStatus lib s' = Inr r'"
    by (auto simp: Migrator_def split: sum.splits prod.splits option.splits)
  from MigrateStatus_Inr [OF r] MigrateStatus_Inr [OF r'] obtain m p m' p'
    where m: "GetMigrationRecords lib s = Inr (m, p)" "GetMigrationRecords lib s' = Inr (m', p')" "fst r = 7" "fst (snd r) = m"
    by blast
  show ?thesis
  proof (cases "m = 7")
    case True
    then show ?thesis using ok r m
      by (auto simp: Migrator_def migrate_action_def split: sum.splits prod.splits option.splits)
  next
    case False
    then obtain n where "ExecMax lib (length Migrations) Up 0 s = (s', Inr n)" "n = 7 - m" "m < 7"
      using ok r m by (auto simp: Migrator_def migrate_action_def MigrationUpSync_def
          split: sum.splits prod.splits option.splits if_splits)
    with counts_applied_exec [OF lib this(1) m(1,2)] m(2) show ?thesis by simp
  qed
qed

text \<open>
  When \<^verbatim>\<open>Migrator\<close> succeeds with \<^verbatim>\<open>upSync\<close>, as at every start of the service, exactly the seven
  migrations of the source are applied; and with \<^verbatim>\<open>up\<close> or \<^verbatim>\<open>down\<close> exactly one is added or taken off.
  Nothing is applied by \<^verbatim>\<open>status\<close>, and any other action is an error that changes nothing.
\<close>

lemma Migrator_effect:
  assumes "counts_applied lib" "GetMigrationRecords lib s = Inr (m, p)"
  shows "(Migrator lib ''upSync'' s = (s', None) \<longrightarrow> (\<exists>p'. GetMigrationRecords lib s' = Inr (7, p'))) \<and>
    (Migrator lib ''up'' s = (s', None) \<longrightarrow> (\<exists>p'. GetMigrationRecords lib s' = Inr (m + 1, p'))) \<and>
    (Migrator lib ''down'' s = (s', None) \<longrightarrow> (\<exists>p'. GetMigrationRecords lib s' = Inr (m - 1, p'))) \<and>
    (action \<notin> {''upSync'', ''up'', ''down''} \<longrightarrow> fst (Migrator lib action s) = s)"
proof (intro conjI impI)
  show "\<exists>p'. GetMigrationRecords lib s' = Inr (7, p')" if "Migrator lib ''upSync'' s = (s', None)"
    by (rule Migrator_upSync [OF assms(1) that])
  show "\<exists>p'. GetMigrationRecords lib s' = Inr (m + 1, p')" if "Migrator lib ''up'' s = (s', None)"
    using that assms(2)
    by (fastforce simp: Migrator_def migrate_action_def Migrate_def dest!: MigrateStatus_Inr counts_applied_exec [OF assms(1)]
        split: sum.splits prod.splits option.splits if_splits)
  show "\<exists>p'. GetMigrationRecords lib s' = Inr (m - 1, p')" if "Migrator lib ''down'' s = (s', None)"
    using that assms(2)
    by (fastforce simp: Migrator_def migrate_action_def Migrate_def dest!: MigrateStatus_Inr counts_applied_exec [OF assms(1)]
        split: sum.splits prod.splits option.splits if_splits)
  show "fst (Migrator lib action s) = s" if "action \<notin> {''upSync'', ''up'', ''down''}"
    using that by (auto simp: Migrator_def migrate_action_def split: sum.splits)
qed

text \<open>A library whose state is the number of applied migrations.\<close>

definition demo_library :: "nat migration_library" where
  "demo_library = \<lparr>ExecMax = (\<lambda>total dir limit s.
       case dir of
         Up \<Rightarrow> (let n = (if limit = 0 then total - s else min limit (total - s)) in (s + n, Inr n))
       | Down \<Rightarrow> (let n = (if limit = 0 then s else min limit s) in (s - n, Inr n))),
     GetMigrationRecords = (\<lambda>s. Inr (s, Some []))\<rparr>"

end
