(* ===== verification/Startup.thy ===== *)
theory Startup
  imports Config ManagerApi Migrations
begin

text \<open>
  The start of the service: \<^verbatim>\<open>main\<close> of \<^verbatim>\<open>cmd/dvotemanager/dvotemanager.go\<close> with what it calls to
  connect: \<^verbatim>\<open>New\<close> of \<^verbatim>\<open>database/pgsql/pgsql.go\<close>, \<^verbatim>\<open>New\<close> and \<^verbatim>\<open>StartPool\<close> of \<^verbatim>\<open>smtpclient/smtp.go\<close>. The
  machine, the servers and the libraries are arguments; \<open>'s\<close> is the state of the database server as
  the migration library sees it.
\<close>

section \<open>The database\<close>

definition connectionRetries :: nat where
  "connectionRetries = 5"

text \<open>The attempts from the \<open>i\<close>-th on; \<open>conn i\<close> is the error of an attempt, the last error is returned.\<close>

function connect_loop :: "(nat \<Rightarrow> string option) \<Rightarrow> nat \<Rightarrow> string option \<Rightarrow> string option" where
  "connect_loop conn i err =
     (if i < connectionRetries then
        (case conn i of None \<Rightarrow> None | Some e \<Rightarrow> connect_loop conn (Suc i) (Some e))
      else err)"
  by pat_completeness auto
termination by (relation "measure (\<lambda>(conn, i, err). connectionRetries - i)") auto

declare connect_loop.simps [simp del]

definition connection_string :: "DB_config \<Rightarrow> string" where
  "connection_string dbc =
     ''host='' @ dc_Host dbc @ '' port='' @ FormatInt (dc_Port dbc) @ '' user='' @ dc_User dbc @ '' password='' @
     dc_Password dbc @ '' dbname='' @ dc_Dbname dbc @ '' sslmode='' @ dc_Sslmode dbc @ '' client_encoding='' @ ''UTF8''"

definition pgsql_New :: "(string \<Rightarrow> string option) \<Rightarrow> (nat \<Rightarrow> string option) \<Rightarrow> DB_config \<Rightarrow> string option" where
  "pgsql_New sqlx_Open conn dbc =
     (case sqlx_Open (connection_string dbc) of
        Some e \<Rightarrow> Some (''error initializing postgres connection handler: '' @ e)
      | None \<Rightarrow> connect_loop conn 0 None)"

section \<open>The mail pool\<close>

record pool_opt =
  po_Host :: string
  po_Port :: int
  po_MaxConns :: int
  po_MaxMessageRetries :: int
  po_IdleTimeout :: int
  po_PoolWaitTimeout :: int

text \<open>\<^verbatim>\<open>time.ParseDuration\<close> of a number of seconds, in nanoseconds; it refuses what does not fit 64 bits.\<close>

definition ParseDuration_seconds :: "int \<Rightarrow> string + int" where
  "ParseDuration_seconds t =
     (if \<bar>t\<bar> * 1000000000 < 9223372036854775808 then Inr (t * 1000000000) else Inl ''time: invalid duration'')"

definition smtp_New :: "SMTP_config \<Rightarrow> SMTP" where
  "smtp_New c = \<lparr>sm_ValidationURL = sc_ValidationURL c, sm_WebpollURL = sc_WebpollURL c,
     sm_SenderName = sc_SenderName c, sm_Sender = sc_Sender c, sm_pool = None\<rparr>"

text \<open>
  The parsed duration is multiplied by a second once more, in the 64 bits of a duration. \<open>email_New\<close>
  is the third-party pool: an error, or how it sends.
\<close>

definition pool_wait :: "int \<Rightarrow> int" where
  "pool_wait timeout = to_int64 (1000000000 * timeout)"

definition StartPool :: "(pool_opt \<Rightarrow> string + (Mail \<Rightarrow> string option)) \<Rightarrow> SMTP_config \<Rightarrow> SMTP \<Rightarrow> string + SMTP" where
  "StartPool email_New c s =
     (case ParseDuration_seconds (sc_Timeout c) of
        Inl e \<Rightarrow> Inl (''error calulating timeout: '' @ e)
      | Inr timeout \<Rightarrow>
          (case email_New \<lparr>po_Host = sc_Host c, po_Port = sc_Port c, po_MaxConns = sc_PoolSize c,
                   po_MaxMessageRetries = 3, po_IdleTimeout = 10 * 1000000000, po_PoolWaitTimeout = pool_wait timeout\<rparr> of
             Inl e \<Rightarrow> Inl (''error initializing smtp pool: '' @ e)
           | Inr send \<Rightarrow> Inr (s\<lparr>sm_pool := Some send\<rparr>)))"

section \<open>main\<close>

definition strings_Trim :: "char set \<Rightarrow> string \<Rightarrow> string" where
  "strings_Trim cutset s = rev (dropWhile (\<lambda>c. c \<in> cutset) (rev (dropWhile (\<lambda>c. c \<in> cutset) s)))"

text \<open>The servers and libraries that \<^verbatim>\<open>main\<close> calls.\<close>

record 's servers =
  sv_SetFileErrorLog :: "string \<Rightarrow> string option"
  sv_AddHexKey :: "string \<Rightarrow> string option"
  sv_Address :: "string \<Rightarrow> bytes"
  sv_router_Init :: "string \<Rightarrow> int \<Rightarrow> string option"
  sv_sqlx_Open :: "string \<Rightarrow> string option"
  sv_Conn :: "nat \<Rightarrow> string option"
  sv_migrations :: "'s migration_library"
  sv_email_New :: "pool_opt \<Rightarrow> string + (Mail \<Rightarrow> string option)"
  sv_chain_specs :: "string \<Rightarrow> string + int"
  sv_eth_dial :: "string \<Rightarrow> string + (string + int)"
  sv_SendTokens :: "Eth \<Rightarrow> bytes \<Rightarrow> string + int"

text \<open>
  How \<^verbatim>\<open>main\<close> goes on: a panic, \<^verbatim>\<open>log.Fatal\<close>, a return after a migration, or the service runs with the
  APIs it enabled until it is interrupted.
\<close>

datatype startup = StartPanic | StartFatal string | Migrated | Running "pgdb RPCAPI list"

text \<open>From the connection to the Ethereum node on: only the manager API is ever enabled.\<close>

definition enable_apis :: "ext \<Rightarrow> outside \<Rightarrow> 's servers \<Rightarrow> Manager_config \<Rightarrow> SMTP \<Rightarrow> startup" where
  "enable_apis x ou sv cfg smtp =
     (case (if length (ec_Name (cf_EthNetwork cfg)) \<noteq> 0
            then map_sum id Some (Eth_New (sv_chain_specs sv) (sv_eth_dial sv) (cf_EthNetwork cfg))
            else Inr None) of
        Inl e \<Rightarrow> StartFatal (''cannot connect to ethereum endpoint: '' @ e)
      | Inr ethClient \<Rightarrow>
          if cf_Mode cfg = ''manager'' \<or> cf_Mode cfg = ''all'' then
            (case NewManager (ou_health ou) [] (Some (sv_Address sv (cf_SigningKeys cfg ! 0))) (ap_Route (cf_API cfg)) False
                    (Some smtp) (map_option (sv_SendTokens sv) ethClient) of
               Inl e \<Rightarrow> StartFatal e
             | Inr (api, mg) \<Rightarrow> Running [Manager_EnableAPI x ou mg api])
          else Running [])"

definition start_service :: "ext \<Rightarrow> outside \<Rightarrow> 's servers \<Rightarrow> Manager_config \<Rightarrow> 's \<Rightarrow> 's \<times> startup" where
  "start_service x ou sv cfg s =
     (case sv_router_Init sv (ap_ListenHost (cf_API cfg)) (ap_ListenPort (cf_API cfg)) of
        Some e \<Rightarrow> (s, StartFatal e)
      | None \<Rightarrow>
          (case pgsql_New (sv_sqlx_Open sv) (sv_Conn sv) (cf_DB cfg) of
             Some e \<Rightarrow> (s, StartFatal e)
           | None \<Rightarrow>
               if cf_MigrateAction cfg \<noteq> [] then
                 (case Migrator (sv_migrations sv) (cf_MigrateAction cfg) s of
                    (s', Some e) \<Rightarrow> (s', StartFatal e)
                  | (s', None) \<Rightarrow> (s', Migrated))
               else
                 (case Migrator (sv_migrations sv) ''upSync'' s of
                    (s', Some e) \<Rightarrow> (s', StartFatal e)
                  | (s', None) \<Rightarrow>
                      (case StartPool (sv_email_New sv) (cf_SMTP cfg) (smtp_New (cf_SMTP cfg)) of
                         Inl e \<Rightarrow> (s', StartFatal e)
                       | Inr smtp \<Rightarrow> (s', enable_apis x ou sv cfg smtp)))))"

text \<open>
  \<^verbatim>\<open>main\<close>. Only the error about the home directory is critical; the other messages of \<^verbatim>\<open>newConfig\<close> are
  dropped. The first key is indexed without a check.
\<close>

definition main :: "ext \<Rightarrow> outside \<Rightarrow> machine \<Rightarrow> 's servers \<Rightarrow> 's \<Rightarrow> 's \<times> startup" where
  "main x ou mc sv s =
     (case newConfig mc of
        None \<Rightarrow> (s, StartPanic)
      | Some (cfg_ptr, cfgerr) \<Rightarrow>
          if ce_Critical cfgerr then (s, StartPanic)
          else (case cfg_ptr of
            None \<Rightarrow> (s, StartPanic)
          | Some cfg \<Rightarrow>
              (case (if cf_LogErrorFile cfg \<noteq> [] then sv_SetFileErrorLog sv (cf_LogErrorFile cfg) else None) of
                 Some e \<Rightarrow> (s, StartFatal e)
               | None \<Rightarrow>
                   if \<not> ValidMode cfg then (s, StartFatal (''invalid mode '' @ cf_Mode cfg))
                   else
                     (let cfg1 = cfg\<lparr>cf_SigningKeys := map (strings_Trim (set ''\"[]'')) (cf_SigningKeys cfg)\<rparr> in
                      if length (cf_SigningKeys cfg1) = 0 then (s, StartPanic)
                      else case sv_AddHexKey sv (cf_SigningKeys cfg1 ! 0) of
                        Some e \<Rightarrow> (s, StartFatal e)
                      | None \<Rightarrow> start_service x ou sv cfg1 s))))"

section \<open>Facts\<close>

text \<open>The connection succeeds exactly when one of the attempts does.\<close>

lemma connect_loop_None:
  "err \<noteq> None \<or> i < connectionRetries \<Longrightarrow>
   connect_loop conn i err = None \<longleftrightarrow> (\<exists>k<connectionRetries. i \<le> k \<and> conn k = None)"
proof (induction conn i err rule: connect_loop.induct)
  case (1 conn i err)
  show ?case
  proof (cases "i < connectionRetries")
    case True
    then show ?thesis using 1
      by (subst connect_loop.simps) (auto split: option.splits dest: Suc_leI intro: le_neq_implies_less,
          metis le_antisym not_less_eq_eq option.distinct(1))
  next
    case False
    then show ?thesis using 1 by (subst connect_loop.simps) auto
  qed
qed

lemma pgsql_New_None:
  "pgsql_New sqlx_Open conn dbc = None \<longleftrightarrow>
   sqlx_Open (connection_string dbc) = None \<and> (\<exists>k<connectionRetries. conn k = None)"
  by (auto simp: pgsql_New_def connect_loop_None connectionRetries_def split: option.splits)

lemma RegisterPublic_endpoint [simp]: "ra_endpoint (RegisterPublic m s h a) = ra_endpoint a"
  by (simp add: RegisterPublic_def)

lemma fold_RegisterPublic_registered:
  "ra_registered (fold (\<lambda>(m, h) a. RegisterPublic m s h a) hs a) meth =
     (if meth \<in> fst ` set hs then Some (False, \<not> s) else ra_registered a meth)"
  "ra_methods (fold (\<lambda>(m, h) a. RegisterPublic m s h a) hs a) meth = None \<longleftrightarrow>
     meth \<notin> fst ` set hs \<and> ra_methods a meth = None"
  "ra_endpoint (fold (\<lambda>(m, h) a. RegisterPublic m s h a) hs a) = ra_endpoint a"
  by (induction hs arbitrary: a) (auto split: if_splits)

definition manager_methods :: "string list" where
  "manager_methods =
     [''signUp'', ''getEntity'', ''updateEntity'', ''adminEntityList'', ''countMembers'', ''listMembers'', ''getMember'',
      ''updateMember'', ''deleteMembers'', ''generateTokens'', ''exportTokens'', ''importMembers'', ''countTargets'',
      ''listTargets'', ''getTarget'', ''dumpTarget'', ''dumpCensus'', ''addCensus'', ''updateCensus'', ''getCensus'',
      ''countCensus'', ''listCensus'', ''deleteCensus'', ''createTag'', ''listTags'', ''deleteTag'', ''addTag'', ''removeTag'',
      ''requestGas'', ''sendValidationLinks'', ''sendVotingLinks'']"

lemma manager_table_methods: "fst ` set (manager_table x ou m) = set (take 28 manager_methods)"
  by (simp add: manager_table_def manager_methods_def)

lemma manager_api_table:
  assumes "api = Manager_EnableAPI x ou mg (NewAPI h au ad name ep priv)" "mn_smtp mg \<noteq> None"
  shows "ra_endpoint api = ep"
    and "ra_registered api meth = Some (p, nosig) \<Longrightarrow> \<not> p \<and> (nosig \<longleftrightarrow> meth = ''getInfo'')"
    and "ra_methods api meth \<noteq> None \<longleftrightarrow>
      meth = ''getInfo'' \<or> meth \<in> set manager_methods \<and> (meth = ''requestGas'' \<longrightarrow> mn_eth mg \<noteq> None)"
proof -
  let ?T = "set (take 28 manager_methods)"
  have m: "fst ` set (manager_table x ou mg) = ?T" by (rule manager_table_methods)
  have T: "set manager_methods = insert ''requestGas'' (insert ''sendValidationLinks'' (insert ''sendVotingLinks'' ?T))"
    "''getInfo'' \<notin> ?T" "''requestGas'' \<notin> ?T" by (simp_all add: manager_methods_def insert_commute)
  obtain smtp where smtp: "mn_smtp mg = Some smtp" using assms(2) by blast
  note table = assms(1) smtp Manager_EnableAPI_def Let_def fold_RegisterPublic_registered m
  show "ra_endpoint api = ep" by (simp add: table)
  show "\<not> p \<and> (nosig \<longleftrightarrow> meth = ''getInfo'')" if "ra_registered api meth = Some (p, nosig)"
    using that T(2) by (auto simp: table split: if_splits)
  show "ra_methods api meth \<noteq> None \<longleftrightarrow>
      meth = ''getInfo'' \<or> meth \<in> set manager_methods \<and> (meth = ''requestGas'' \<longrightarrow> mn_eth mg \<noteq> None)"
    unfolding T(1) using T(2,3)
    by (cases "mn_eth mg"; cases "meth \<in> ?T"; cases "meth = ''getInfo''"; cases "meth = ''requestGas''")
      (simp_all add: table del: not_None_eq)
qed

lemma enable_apis_Running:
  assumes "enable_apis x ou sv cfg smtp = Running apis"
  shows "(cf_Mode cfg \<notin> {''manager'', ''all''} \<longrightarrow> apis = []) \<and>
    (cf_Mode cfg \<in> {''manager'', ''all''} \<longrightarrow>
       (\<exists>eth. apis = [manager_api x ou (sv_Address sv (cf_SigningKeys cfg ! 0)) (ap_Route (cf_API cfg))
            \<lparr>mn_eth = eth, mn_smtp = Some smtp\<rparr>] \<and> (eth = None \<longleftrightarrow> ec_Name (cf_EthNetwork cfg) = [])))"
proof -
  from assms obtain ec where ec: "(ec = None \<longleftrightarrow> ec_Name (cf_EthNetwork cfg) = [])"
    and apis: "cf_Mode cfg = ''manager'' \<or> cf_Mode cfg = ''all'' \<Longrightarrow>
      apis = [manager_api x ou (sv_Address sv (cf_SigningKeys cfg ! 0)) (ap_Route (cf_API cfg))
        \<lparr>mn_eth = map_option (sv_SendTokens sv) ec, mn_smtp = Some smtp\<rparr>]"
    and none: "cf_Mode cfg \<noteq> ''manager'' \<Longrightarrow> cf_Mode cfg \<noteq> ''all'' \<Longrightarrow> apis = []"
    by (cases "Eth_New (sv_chain_specs sv) (sv_eth_dial sv) (cf_EthNetwork cfg)")
      (fastforce simp: enable_apis_def NewManager_def manager_api_def split: if_splits)+
  show ?thesis using ec apis none by (metis insert_iff map_option_is_None singletonD)
qed

lemma main_Running:
  assumes "main x ou mc sv s = (s', Running apis)"
  obtains cfg e smtp where "newConfig mc = Some (Some cfg, e)" "ValidMode cfg" "cf_SigningKeys cfg \<noteq> []"
    "cf_MigrateAction cfg = []" "\<exists>k<connectionRetries. sv_Conn sv k = None"
    "Migrator (sv_migrations sv) ''upSync'' s = (s', None)"
    "StartPool (sv_email_New sv) (cf_SMTP cfg) (smtp_New (cf_SMTP cfg)) = Inr smtp"
    "enable_apis x ou sv (cfg\<lparr>cf_SigningKeys := map (strings_Trim (set ''\"[]'')) (cf_SigningKeys cfg)\<rparr>) smtp = Running apis"
  using assms that pgsql_New_None
  by (fastforce simp: main_def start_service_def Let_def
      split: option.splits prod.splits if_splits sum.splits)

text \<open>The wait of the pool is the configured number of seconds only when that is zero.\<close>

lemma pool_wait_seconds:
  assumes "ParseDuration_seconds t = Inr d" "pool_wait d = t * 1000000000"
  shows "t = 0"
proof (rule ccontr)
  assume "t \<noteq> 0"
  have d: "d = t * 1000000000" and t: "\<bar>t\<bar> * 1000000000 < 9223372036854775808"
    using assms(1) by (auto simp: ParseDuration_seconds_def split: if_splits)
  define q where "q = (1000000000 * d + 9223372036854775808) div 18446744073709551616"
  have "1000000000 * d - q * 18446744073709551616 = t * 1000000000"
    using assms(2) minus_div_mult_eq_mod [of "1000000000 * d + 9223372036854775808" 18446744073709551616]
    unfolding pool_wait_def to_int64_def q_def by linarith
  then have eq: "1953124998046875 * t = 36028797018963968 * q" using d by linarith
  have "coprime (36028797018963968 :: int) 1953124998046875" by code_simp
  then have "36028797018963968 dvd t" using eq by (metis coprime_dvd_mult_right_iff dvd_triv_left)
  then have "36028797018963968 \<le> \<bar>t\<bar>" using \<open>t \<noteq> 0\<close> dvd_imp_le_int by fastforce
  then show False using t by linarith
qed

section \<open>Properties\<close>


text \<open>
  A machine whose configuration library takes over the keys from the flag bound to it and finds a
  provider in the file, and servers that answer at the fifth attempt.
\<close>

definition demo_machine :: machine where
  "demo_machine = \<lparr>mc_UserHomeDir = Inr ''/root'',
     mc_Parsed = [''signingKeys'' \<mapsto> FStrings [''[ab]''], ''mode'' \<mapsto> FString ''token''],
     mc_IsNotExist = (\<lambda>_. False), mc_MkdirAll = (\<lambda>_. None), mc_SafeWriteConfig = (\<lambda>_. None), mc_ReadInConfig = (\<lambda>_. None),
     mc_Unmarshal = (\<lambda>v p c. (if ''signingKeys'' \<in> set (map snd (vp_bound v))
       then (case p ''signingKeys'' of Some (FStrings ks) \<Rightarrow> c\<lparr>cf_SigningKeys := ks, cf_EthNetwork := (cf_EthNetwork c)\<lparr>ec_Provider := ''p''\<rparr>\<rparr> | _ \<Rightarrow> c) else c, None)),
     mc_WriteConfig = (\<lambda>_. None)\<rparr>"

definition demo_servers :: "nat servers" where
  "demo_servers = \<lparr>sv_SetFileErrorLog = (\<lambda>_. None), sv_AddHexKey = (\<lambda>k. if k = ''ab'' then None else Some ''hex''),
     sv_Address = (\<lambda>_. [7]), sv_router_Init = (\<lambda>_ _. None), sv_sqlx_Open = (\<lambda>_. None),
     sv_Conn = (\<lambda>i. if i < 4 then Some ''refused'' else None), sv_migrations = demo_library, sv_email_New = (\<lambda>_. Inr (\<lambda>_. None)),
     sv_chain_specs = (\<lambda>_. Inr 5), sv_eth_dial = (\<lambda>_. Inr (Inr 5)), sv_SendTokens = (\<lambda>_ _. Inr 0)\<rparr>"

definition demo_cfg :: Manager_config where
  "demo_cfg = (flag_config (flags ''/root''))\<lparr>cf_DataDir := ''/root/.dvotemanager'', cf_SigningKeys := [''[ab]''],
     cf_EthNetwork := (cf_EthNetwork (flag_config (flags ''/root'')))\<lparr>ec_Provider := ''p''\<rparr>\<rparr>"

lemma demo_newConfig: "newConfig demo_machine = Some (Some demo_cfg, no_error)"
  by code_simp

lemma demo_main: "\<exists>apis. main demo_ext demo_outside demo_machine demo_servers 5 = (7, Running apis)"
proof -
  let ?c = "demo_cfg\<lparr>cf_SigningKeys := [''ab'']\<rparr>"
  have k: "map (strings_Trim (set ''\"[]'')) (cf_SigningKeys demo_cfg) = [''ab'']" by code_simp
  have v: "ValidMode demo_cfg" "cf_LogErrorFile demo_cfg = []" by code_simp+
  have db: "pgsql_New (sv_sqlx_Open demo_servers) (sv_Conn demo_servers) (cf_DB ?c) = None" by code_simp
  have mig: "Migrator (sv_migrations demo_servers) ''upSync'' 5 = (7, None)" by code_simp
  have act: "cf_MigrateAction ?c = []" "cf_Mode ?c = ''all''" by code_simp+
  have t: "sc_Timeout (cf_SMTP demo_cfg) = 30" by code_simp
  obtain smtp where smtp: "StartPool (sv_email_New demo_servers) (cf_SMTP ?c) (smtp_New (cf_SMTP ?c)) = Inr smtp"
    by (simp add: StartPool_def ParseDuration_seconds_def t demo_servers_def)
  have e: "ec_Name (cf_EthNetwork ?c) = ''goerli''" "ec_Provider (cf_EthNetwork ?c) = ''p''"
    "ec_FaucetAmount (cf_EthNetwork ?c) = 0" by code_simp+
  have "\<not> isl (Eth_New (sv_chain_specs demo_servers) (sv_eth_dial demo_servers) (cf_EthNetwork ?c))"
    unfolding Eth_New_def e by (simp add: Let_def demo_servers_def DefaultFaucetAmount_def to_int64_def)
  then obtain eth where eth: "Eth_New (sv_chain_specs demo_servers) (sv_eth_dial demo_servers) (cf_EthNetwork ?c) = Inr eth"
    by (metis isl_def obj_sumE)
  have "\<exists>apis. enable_apis demo_ext demo_outside demo_servers ?c smtp = Running apis"
    using eth act by (simp add: enable_apis_def NewManager_def)
  then show ?thesis
    using v k db mig act smtp demo_newConfig by (simp add: main_def start_service_def Let_def no_error_def demo_servers_def)
qed


text \<open>
  The flags \<^verbatim>\<open>--mode\<close> and \<^verbatim>\<open>--saveConfig\<close> have no effect: whatever values the command line gives
  them, the service starts, or fails to start, in the same way.
\<close>

lemma main_ignores_mode:
  assumes "reads_bound_flags mc"
    and "\<And>f. f \<noteq> ''mode'' \<Longrightarrow> f \<noteq> ''saveConfig'' \<Longrightarrow> p f = mc_Parsed mc f"
  shows "main x ou (mc\<lparr>mc_Parsed := p\<rparr>) sv s = main x ou mc sv s"
proof -
  have "newConfig (mc\<lparr>mc_Parsed := p\<rparr>) = newConfig mc" by (rule newConfig_unbound) (use assms in auto)
  then show ?thesis by (simp only: main_def)
qed

text \<open>
  The wait for a free connection that \<^verbatim>\<open>StartPool\<close> asks for is never the configured number of
  seconds, unless that is zero, since the seconds are multiplied twice; with the default of 30 the
  product wraps around to a negative wait.
\<close>

lemma StartPool_wait:
  "(\<forall>d. ParseDuration_seconds (sc_Timeout c) = Inr d \<longrightarrow>
      (pool_wait d = sc_Timeout c * 1000000000 \<longleftrightarrow> sc_Timeout c = 0)) \<and>
   (sc_Timeout c = 30 \<longrightarrow> (\<exists>opt. po_PoolWaitTimeout opt < 0 \<and> (\<forall>email_New s. StartPool email_New c s =
      (case email_New opt of Inl e \<Rightarrow> Inl (''error initializing smtp pool: '' @ e) | Inr send \<Rightarrow> Inr (s\<lparr>sm_pool := Some send\<rparr>)))))"
proof (intro conjI allI impI)
  fix d
  assume d: "ParseDuration_seconds (sc_Timeout c) = Inr d"
  then show "pool_wait d = sc_Timeout c * 1000000000 \<longleftrightarrow> sc_Timeout c = 0"
    using pool_wait_seconds [OF d] by (auto simp: ParseDuration_seconds_def pool_wait_def to_int64_def)
next
  assume t: "sc_Timeout c = 30"
  show "\<exists>opt. po_PoolWaitTimeout opt < 0 \<and> (\<forall>email_New s. StartPool email_New c s =
      (case email_New opt of Inl e \<Rightarrow> Inl (''error initializing smtp pool: '' @ e) | Inr send \<Rightarrow> Inr (s\<lparr>sm_pool := Some send\<rparr>)))"
    by (rule exI [of _ "\<lparr>po_Host = sc_Host c, po_Port = sc_Port c, po_MaxConns = sc_PoolSize c,
        po_MaxMessageRetries = 3, po_IdleTimeout = 10 * 1000000000, po_PoolWaitTimeout = pool_wait 30000000000\<rparr>"])
      (simp add: t StartPool_def ParseDuration_seconds_def, simp add: pool_wait_def to_int64_def)
qed

definition demo_smtp_config :: SMTP_config where
  "demo_smtp_config = cf_SMTP (flag_config (flags ''/root''))"

end
