(* ===== verification/ManagerTest.thy ===== *)
theory ManagerTest
  imports Registry
begin

text \<open>
  \<^verbatim>\<open>cmd/managertest/managertest.go\<close>, the client that drives a running service: it generates keys and
  tokens, and takes every pair of a token and a key through the registration, as the mobile client
  does. The servers work on a common state \<open>'w\<close>; the machine and the key library are arguments.
\<close>

section \<open>Running the client\<close>

text \<open>How a piece of the client ends: it returns, \<^verbatim>\<open>log.Fatal\<close> ends the process, or it panics.\<close>

datatype 'a run = Finished 'a | LogFatal | RunPanic

text \<open>A server answers the \<open>k\<close>-th request, with its number and the public key of its signature.\<close>

type_synonym 'w server = "nat \<Rightarrow> string \<Rightarrow> gobytes \<Rightarrow> APIrequest \<Rightarrow> 'w \<Rightarrow> 'w \<times> wire"

record 'w client =
  cl_registry :: "'w server"
  cl_manager :: "'w server"
  cl_Dial :: "string \<Rightarrow> string option"
  cl_now :: "nat \<Rightarrow> gotime"
  cl_Intn :: "nat \<Rightarrow> int"
  cl_AddHexKey :: "string \<Rightarrow> string + bytes"
  cl_Generate :: "nat \<Rightarrow> string \<times> bytes"
  cl_Address :: "bytes \<Rightarrow> bytes"
  cl_ReadFile :: "string \<Rightarrow> string + string"
  cl_TempDir :: "string + string"
  cl_WriteFile :: "string \<Rightarrow> string \<Rightarrow> string option"

text \<open>
  The warnings and errors that go to the log, and the state of a run: the requests sent and the keys
  drawn so far are counted, so that the answers of the surroundings can differ.
\<close>

datatype log_entry = BadEntityID | NoEntityID | SignUpError string | ReceivedError string
  | AlreadyRegistered string | NotValidated string string | NoStatus string | NotRegistered string

record 'w session =
  se_world :: 'w
  se_sent :: nat
  se_drawn :: nat
  se_log :: "log_entry list"
  se_files :: "(string \<times> string) list"

type_synonym ('w, 'a) act = "'w session \<Rightarrow> 'w session \<times> 'a run"

definition ret :: "'a \<Rightarrow> ('w, 'a) act" where
  "ret a s = (s, Finished a)"

definition fatal :: "('w, 'a) act" where
  "fatal s = (s, LogFatal)"

definition panic :: "('w, 'a) act" where
  "panic s = (s, RunPanic)"

definition andThen :: "('w, 'a) act \<Rightarrow> ('a \<Rightarrow> ('w, 'b) act) \<Rightarrow> ('w, 'b) act" where
  "andThen m f s =
     (case m s of
        (s', Finished a) \<Rightarrow> f a s'
      | (s', LogFatal) \<Rightarrow> (s', LogFatal)
      | (s', RunPanic) \<Rightarrow> (s', RunPanic))"

definition log_line :: "log_entry \<Rightarrow> ('w, unit) act" where
  "log_line msg s = (s\<lparr>se_log := se_log s @ [msg]\<rparr>, Finished ())"

lemmas act_defs = ret_def fatal_def panic_def andThen_def log_line_def

section \<open>Requests and keys\<close>

definition zero_APIrequest :: APIrequest where
  "zero_APIrequest = \<lparr>rq_Amount = 0, rq_AuthHash = [], rq_Census = None, rq_CensusID = [], rq_Keys = [],
     rq_Email = [], rq_EntityID = None, rq_Entity = None, rq_ListOptions = None, rq_MemberID = None,
     rq_MemberIDs = [], rq_Member = None, rq_MemberInfo = None, rq_MembersInfo = [], rq_Method = [],
     rq_ProcessID = None, rq_TagID = 0, rq_TagName = [], rq_TargetID = None, rq_Timestamp = 0, rq_Token = [],
     rq_SignaturePublicKey = None\<rparr>"

text \<open>
  \<^verbatim>\<open>Request\<close>: a signer without a key cannot sign; an answer must carry the identifier of the request.
  The library sends an error back as a response that is not \<^verbatim>\<open>Ok\<close>.
\<close>

definition Request :: "'w client \<Rightarrow> 'w server \<Rightarrow> APIrequest \<Rightarrow> gobytes \<Rightarrow> ('w, APIresponse) act" where
  "Request c server req signer s =
     (let k = se_sent s;
          rid = FormatInt (cl_Intn c k);
          msg = req\<lparr>rq_Timestamp := to_int32 (Unix (cl_now c k))\<rparr>
      in if signer = None then (s, LogFatal)
         else case server k rid signer msg (se_world s) of
           (w, answer) \<Rightarrow>
             (s\<lparr>se_world := w, se_sent := Suc k\<rparr>,
              case answer of
                WireReply rid' r \<Rightarrow> if rid' \<noteq> rid then LogFatal else Finished r
              | WireError rid' m \<Rightarrow> if rid' \<noteq> rid then LogFatal else Finished (SetError m zero_APIresponse)
              | WireNone \<Rightarrow> LogFatal
              | WireCrash \<Rightarrow> LogFatal))"

text \<open>\<^verbatim>\<open>s.AddHexKey(key)\<close> with its error dropped, and \<^verbatim>\<open>s.Generate()\<close>.\<close>

definition add_key :: "'w client \<Rightarrow> string \<Rightarrow> gobytes \<Rightarrow> gobytes" where
  "add_key c key signer = (case cl_AddHexKey c key of Inl _ \<Rightarrow> signer | Inr pk \<Rightarrow> Some pk)"

definition generate_key :: "'w client \<Rightarrow> ('w, string \<times> bytes) act" where
  "generate_key c s = (s\<lparr>se_drawn := Suc (se_drawn s)\<rparr>, Finished (cl_Generate c (se_drawn s)))"

fun strings_Join :: "string list \<Rightarrow> string \<Rightarrow> string" where
  "strings_Join [] sep = []"
| "strings_Join [a] sep = a"
| "strings_Join (a # as) sep = a @ sep @ strings_Join as sep"

definition newline :: string where
  "newline = [char_of (10 :: nat)]"

definition splitFile :: "'w client \<Rightarrow> string \<Rightarrow> string + string list" where
  "splitFile c path = map_sum id (strings_Split (char_of (10 :: nat))) (cl_ReadFile c path)"

text \<open>The end of \<^verbatim>\<open>generateKeys\<close> and \<^verbatim>\<open>generateTokens\<close>: the lines go into a file of the directory.\<close>

definition save_lines :: "'w client \<Rightarrow> string \<Rightarrow> string \<Rightarrow> string list \<Rightarrow> ('w, unit) act" where
  "save_lines c dir name ls s =
     (case (if length dir = 0 then cl_TempDir c else Inr dir) of
        Inl _ \<Rightarrow> (s, LogFatal)
      | Inr d \<Rightarrow>
          (case cl_WriteFile c (d @ name) (strings_Join ls newline) of
             Some _ \<Rightarrow> (s, LogFatal)
           | None \<Rightarrow> (s\<lparr>se_files := se_files s @ [(d @ name, strings_Join ls newline)]\<rparr>, Finished ())))"

fun draw_keys :: "'w client \<Rightarrow> nat \<Rightarrow> ('w, string list) act" where
  "draw_keys c 0 = ret []"
| "draw_keys c (Suc n) =
     andThen (generate_key c) (\<lambda>(priv, pub). andThen (draw_keys c n) (\<lambda>keys. ret (priv # keys)))"

definition generateKeys :: "'w client \<Rightarrow> int \<Rightarrow> string \<Rightarrow> ('w, string list) act" where
  "generateKeys c n dir =
     andThen (draw_keys c (nat n)) (\<lambda>keys. andThen (save_lines c dir ''/privKeys'' keys) (\<lambda>_. ret keys))"

text \<open>\<^verbatim>\<open>generateEntity\<close> returns the private key and the identifier, unless that cannot be computed.\<close>

definition generateEntity :: "'w client \<Rightarrow> ext \<Rightarrow> string \<Rightarrow> ('w, string \<times> string) act" where
  "generateEntity c x eid =
     andThen (generate_key c) (\<lambda>(priv, pub).
       case PubKeyToEntityID x (Some pub) of
         Inl e \<Rightarrow> andThen (log_line NoEntityID) (\<lambda>_. ret (priv, eid))
       | Inr entityID \<Rightarrow> ret (priv, hex_EncodeToString entityID))"

section \<open>Tokens\<close>

definition client_generateTokens :: "'w client \<Rightarrow> ext \<Rightarrow> int \<Rightarrow> string \<Rightarrow> string \<Rightarrow> ('w, string list) act" where
  "client_generateTokens c x n entityKey dir =
     andThen (if entityKey \<noteq> []
              then (case cl_AddHexKey c entityKey of Inl _ \<Rightarrow> panic | Inr pk \<Rightarrow> ret pk)
              else andThen (generate_key c) (\<lambda>(priv, pub). ret pub)) (\<lambda>pk.
     andThen (Request c (cl_manager c) (zero_APIrequest\<lparr>rq_Method := ''signUp''\<rparr>) (Some pk)) (\<lambda>resp.
     andThen (if \<not> rs_Ok resp then log_line (SignUpError (rs_Message resp)) else ret ()) (\<lambda>_.
     andThen (Request c (cl_manager c) (zero_APIrequest\<lparr>rq_Method := ''generateTokens'', rq_Amount := n\<rparr>) (Some pk)) (\<lambda>resp.
       if \<not> rs_Ok resp \<or> int (length (rs_Tokens resp)) \<noteq> n then fatal
       else
         (let tokens = map (\<lambda>token. ''\"'' @ uuid_String x token @ ''\"'') (rs_Tokens resp)
          in andThen (save_lines c dir ''/tokens'' tokens) (\<lambda>_. ret tokens))))))"

section \<open>Registration\<close>

fun client_registrationStatus :: "'w client \<Rightarrow> gobytes \<Rightarrow> string list \<Rightarrow> gobytes \<Rightarrow> ('w, unit) act" where
  "client_registrationStatus c eid [] signer = ret ()"
| "client_registrationStatus c eid (key # keys) signer =
     (let signer' = add_key c key signer in
      andThen (Request c (cl_registry c) (zero_APIrequest\<lparr>rq_Method := ''registrationStatus'', rq_EntityID := eid\<rparr>) signer') (\<lambda>resp.
      andThen (if \<not> rs_Ok resp then log_line (ReceivedError (rs_Message resp)) else ret ()) (\<lambda>_.
      client_registrationStatus c eid keys signer')))"

text \<open>The key of the \<open>idx\<close>-th token: of the list, where an index beyond it panics, or a new one.\<close>

definition next_key :: "'w client \<Rightarrow> string list \<Rightarrow> nat \<Rightarrow> gobytes \<Rightarrow> ('w, gobytes) act" where
  "next_key c keys idx signer =
     (if length keys > 0 then (if idx < length keys then ret (add_key c (keys ! idx) signer) else panic)
      else andThen (generate_key c) (\<lambda>(priv, pub). ret (Some pub)))"

fun client_validateToken :: "'w client \<Rightarrow> gobytes \<Rightarrow> string list \<Rightarrow> nat \<Rightarrow> string list \<Rightarrow> gobytes \<Rightarrow> ('w, unit) act" where
  "client_validateToken c eid keys idx [] signer = ret ()"
| "client_validateToken c eid keys idx (t # ts) signer =
     andThen (next_key c keys idx signer) (\<lambda>signer'.
     andThen (Request c (cl_registry c) (zero_APIrequest\<lparr>rq_Method := ''validateToken'', rq_EntityID := eid, rq_Token := t\<rparr>) signer') (\<lambda>resp.
     andThen (if \<not> rs_Ok resp then log_line (ReceivedError (rs_Message resp)) else ret ()) (\<lambda>_.
     client_validateToken c eid keys (Suc idx) ts signer')))"

text \<open>A line of the log that names \<^verbatim>\<open>privKeyList[idx]\<close>, which panics when keys are generated.\<close>

definition log_key :: "string list \<Rightarrow> nat \<Rightarrow> (string \<Rightarrow> log_entry) \<Rightarrow> ('w, unit) act" where
  "log_key keys idx line = (if idx < length keys then log_line (line (keys ! idx)) else panic)"

definition flow_request :: "string \<Rightarrow> gobytes \<Rightarrow> string \<Rightarrow> APIrequest" where
  "flow_request meth eid t = zero_APIrequest\<lparr>rq_Method := meth, rq_EntityID := eid, rq_Token := t\<rparr>"

text \<open>
  One round of \<^verbatim>\<open>registerFlow\<close>. The status of the last answer is read without a test for nil, which it
  is in an answer that is an error.
\<close>

definition flow_round :: "'w client \<Rightarrow> gobytes \<Rightarrow> string list \<Rightarrow> nat \<Rightarrow> string \<Rightarrow> gobytes \<Rightarrow> ('w, unit) act" where
  "flow_round c eid keys idx t signer =
     andThen (Request c (cl_registry c) (flow_request ''registrationStatus'' eid []) signer) (\<lambda>resp.
     andThen (if rs_Ok resp \<and> (case rs_Status resp of None \<Rightarrow> False | Some st \<Rightarrow> st_Registered st)
              then log_key keys idx AlreadyRegistered else ret ()) (\<lambda>_.
     andThen (Request c (cl_registry c) (flow_request ''validateToken'' eid t) signer) (\<lambda>resp.
     andThen (if \<not> rs_Ok resp
              then log_key keys idx (NotValidated t)
              else ret ()) (\<lambda>_.
     andThen (Request c (cl_registry c) (flow_request ''registrationStatus'' eid []) signer) (\<lambda>resp.
     andThen (if \<not> rs_Ok resp then log_key keys idx NoStatus else ret ()) (\<lambda>_.
     case rs_Status resp of
       None \<Rightarrow> panic
     | Some st \<Rightarrow> if \<not> st_Registered st then log_key keys idx NotRegistered
                  else ret ()))))))"

fun registerFlow :: "'w client \<Rightarrow> gobytes \<Rightarrow> string list \<Rightarrow> nat \<Rightarrow> string list \<Rightarrow> gobytes \<Rightarrow> ('w, unit) act" where
  "registerFlow c eid keys idx [] signer = ret ()"
| "registerFlow c eid keys idx (t # ts) signer =
     andThen (next_key c keys idx signer) (\<lambda>signer'.
     andThen (flow_round c eid keys idx t signer') (\<lambda>_.
     registerFlow c eid keys (Suc idx) ts signer'))"

section \<open>main\<close>

record mt_flags =
  mf_host :: string
  mf_route :: string
  mf_tls :: bool
  mf_entityKey :: string
  mf_eid :: string
  mf_method :: string
  mf_usersNumber :: int
  mf_tokens :: string
  mf_privKeys :: string

text \<open>\<^verbatim>\<open>hex.DecodeString\<close> returns, beside its error, the bytes it decoded before it.\<close>

fun hex_prefix :: "string \<Rightarrow> bytes" where
  "hex_prefix (c # d # s) =
     (case (fromHexChar c, fromHexChar d) of
        (Some hi, Some lo) \<Rightarrow> of_nat (hi * 16 + lo) # hex_prefix s
      | _ \<Rightarrow> [])"
| "hex_prefix s = []"

definition manager_host :: "mt_flags \<Rightarrow> string" where
  "manager_host f = (if mf_tls f then ''wss://'' else ''ws://'') @ mf_host f @ mf_route f @ ''/manager''"

definition keys_of_flags :: "'w client \<Rightarrow> mt_flags \<Rightarrow> ('w, string list \<times> string) act" where
  "keys_of_flags c f =
     (if length (mf_privKeys f) > 0
      then (case splitFile c (mf_privKeys f) of Inl _ \<Rightarrow> fatal | Inr keys \<Rightarrow> ret (keys, []))
      else if mf_usersNumber f > 0
      then (case cl_TempDir c of
              Inl _ \<Rightarrow> fatal
            | Inr dir \<Rightarrow> andThen (generateKeys c (mf_usersNumber f) dir) (\<lambda>keys. ret (keys, dir)))
      else fatal)"

text \<open>The tokens of \<^verbatim>\<open>validateToken\<close> and \<^verbatim>\<open>registrationFlow\<close>, with the identifier of the entity as text.\<close>

definition tokens_of_flags :: "'w client \<Rightarrow> ext \<Rightarrow> mt_flags \<Rightarrow> string \<Rightarrow> ('w, string list \<times> string) act" where
  "tokens_of_flags c x f dir =
     (if length (mf_tokens f) > 0
      then (case splitFile c (mf_tokens f) of Inl _ \<Rightarrow> fatal | Inr tokens \<Rightarrow> ret (tokens, mf_eid f))
      else if mf_usersNumber f > 0
      then andThen (if mf_entityKey f = [] then generateEntity c x (mf_eid f) else ret (mf_entityKey f, mf_eid f)) (\<lambda>(key, eid).
           andThen (client_generateTokens c x (mf_usersNumber f) key dir) (\<lambda>tokens. ret (tokens, eid)))
      else fatal)"

text \<open>A new entity, as the first two methods make it.\<close>

definition fresh_entity :: "'w client \<Rightarrow> mt_flags \<Rightarrow> ('w, string \<times> string) act" where
  "fresh_entity c f =
     (if mf_entityKey f = [] then andThen (generate_key c) (\<lambda>(priv, pub). ret (priv, hex_EncodeToString (cl_Address c pub)))
      else ret (mf_entityKey f, mf_eid f))"

text \<open>
  \<^verbatim>\<open>main\<close>: the identifier is decoded from the flag before any method replaces the text by that of a
  new entity, whose length alone is tested afterwards.
\<close>

definition managertest :: "'w client \<Rightarrow> ext \<Rightarrow> mt_flags \<Rightarrow> ('w, unit) act" where
  "managertest c x f =
     (let entityID = Some (hex_prefix (mf_eid f)) in
      andThen (if hex_DecodeString (mf_eid f) = None then log_line BadEntityID else ret ()) (\<lambda>_.
      andThen (keys_of_flags c f) (\<lambda>(keys, dir).
      andThen (if cl_Dial c (manager_host f) \<noteq> None then fatal else ret ()) (\<lambda>_.
      if mf_method f = ''generateTokens'' then
        (if mf_usersNumber f \<le> 0 then fatal
         else andThen (fresh_entity c f) (\<lambda>(key, eid).
              andThen (client_generateTokens c x (mf_usersNumber f) key dir) (\<lambda>_. ret ())))
      else if mf_method f = ''registrationStatus'' then
        andThen (if mf_usersNumber f > 0 then fresh_entity c f else ret (mf_entityKey f, mf_eid f)) (\<lambda>(key, eid).
        if length eid < 20 \<or> length keys = 0 then fatal else client_registrationStatus c entityID keys None)
      else if mf_method f = ''validateToken'' then
        andThen (tokens_of_flags c x f dir) (\<lambda>(tokens, eid).
        if length eid < 20 then fatal
        else if length keys > 0 \<and> length keys \<noteq> length tokens then fatal
        else client_validateToken c entityID keys 0 tokens None)
      else if mf_method f = ''registrationFlow'' then
        andThen (tokens_of_flags c x f dir) (\<lambda>(tokens, eid).
        if length eid < 20 then fatal
        else if length keys > 0 \<and> length keys \<noteq> length tokens then fatal
        else registerFlow c entityID keys 0 tokens None)
      else ret ()))))"

section \<open>The test client\<close>

text \<open>
  \<^verbatim>\<open>cmd/testclient/testclient.go\<close> reads requests, one JSON object per line, and sends each to the API at
  its address; its \<^verbatim>\<open>Request\<close> is that of the load generator over HTTP. Lines of less than seven bytes
  and comments are skipped. \<open>unmarshal\<close> is what \<^verbatim>\<open>json.Unmarshal\<close> makes of a line; what cannot be read
  panics. The answers, which are printed, are returned.
\<close>

definition skipped_line :: "string \<Rightarrow> bool" where
  "skipped_line line \<longleftrightarrow> length line < 7 \<or> strings_HasPrefix line ''#''"

fun testclient_loop :: "'w client \<Rightarrow> (string \<Rightarrow> APIrequest option) \<Rightarrow> gobytes \<Rightarrow> string list \<Rightarrow> ('w, APIresponse list) act" where
  "testclient_loop c unmarshal signer [] = ret []"
| "testclient_loop c unmarshal signer (line # ls) =
     (if skipped_line line then testclient_loop c unmarshal signer ls
      else case unmarshal line of
        None \<Rightarrow> panic
      | Some req \<Rightarrow>
          andThen (Request c (cl_manager c) req signer) (\<lambda>resp.
          andThen (testclient_loop c unmarshal signer ls) (\<lambda>resps. ret (resp # resps))))"

definition testclient :: "'w client \<Rightarrow> (string \<Rightarrow> APIrequest option) \<Rightarrow> string \<Rightarrow> string list \<Rightarrow> ('w, APIresponse list) act" where
  "testclient c unmarshal privKey ls =
     andThen (if privKey \<noteq> []
              then (case cl_AddHexKey c privKey of Inl _ \<Rightarrow> panic | Inr pk \<Rightarrow> ret pk)
              else andThen (generate_key c) (\<lambda>(priv, pub). ret pub)) (\<lambda>pk.
     testclient_loop c unmarshal (Some pk) ls)"

section \<open>A registration that succeeds\<close>

text \<open>The service behind the client: the registry API, with its surroundings for every request.\<close>

definition registry_server :: "ext \<Rightarrow> (nat \<Rightarrow> envs) \<Rightarrow> pgdb RPCAPI \<Rightarrow> pgdb server" where
  "registry_server x envs api k rid pk request db = route (Registry_EnableAPI x (envs k) api) True rid pk request db"

text \<open>
  The member \<open>u\<close> of the entity has no key, and the key \<open>pk\<close> has the right length, belongs to no member of
  the entity and is not the digest of another key.
\<close>

definition can_register :: "ext \<Rightarrow> bytes \<Rightarrow> uuid \<Rightarrow> bytes \<Rightarrow> pgdb \<Rightarrow> bool" where
  "can_register x e u pk db \<longleftrightarrow> length pk = PubKeyLengthBytes x \<and>
     (\<exists>r\<in>set (members db). m_id r = u \<and> m_entity_id r = e \<and> m_public_key r = None) \<and>
     (\<forall>y\<in>set (members db). m_entity_id y = e \<longrightarrow> m_public_key y \<noteq> Some pk) \<and>
     (\<forall>v\<in>set (users db). u_digested_public_key v = pk \<longrightarrow> u_public_key v = pk)"

definition registered :: "bytes \<Rightarrow> uuid \<Rightarrow> bytes \<Rightarrow> pgdb \<Rightarrow> bool" where
  "registered e u pk db \<longleftrightarrow> (\<exists>r\<in>set (members db). m_id r = u \<and> m_entity_id r = e \<and> m_public_key r = Some pk)"

lemma RegisterMember_succeeds:
  assumes "no_faults ev" "wf_db db" "length pk = PubKeyLengthBytes x" "JSONB_Set x None = Inr cf"
    and r: "r \<in> set (members db)"
    and new: "\<forall>y\<in>set (members db). m_entity_id y = m_entity_id r \<longrightarrow> m_public_key y \<noteq> Some pk"
    and digest: "\<forall>v\<in>set (users db). u_digested_public_key v = pk \<longrightarrow> u_public_key v = pk"
  shows "\<exists>db'. RegisterMember ev x (Some (m_entity_id r)) (Some pk) (Some (m_id r)) db = (db', None)"
proof -
  let ?p = "\<lambda>y. m_id y = m_id r \<and> sql_eq (Some (m_entity_id r)) (m_entity y)"
  let ?g = "\<lambda>y. y\<lparr>m_public_key := Some pk, m_updated_at := now ev, m_verified := now ev\<rparr>"
  let ?tx = "with_user ev (Some pk) db"
  let ?ms = "map (\<lambda>y. if m_id y = m_id r then ?g r else y) (members db)"
  have one: "filter ?p (members db) = [r]" and ms: "members (update_members ?p ?g db) = ?ms"
    using update_one_member(1) [OF assms(2) r, of "\<lambda>_. True"] update_one_member(2) [OF assms(2) r, of "\<lambda>_. True" ?g]
    by simp_all
  have ms': "members (update_members ?p ?g ?tx) = ?ms" using ms by (simp add: update_members_def)
  have un: "uniq m_key (members db)" "uniq m_entity_pubkey (members db)" "uniq m_entity_email (members db)"
      "refs m_public_key (members db) (user_keys db)"
    using assms(2) by (auto simp: wf_db_def wf_members_def)
  have same: "y = r" if "y \<in> set (members db)" "m_id y = m_id r" for y
    using uniq_sameD [OF un(1) that(1) r] that(2) by (simp add: m_key_def)
  have "uniq m_entity_pubkey ?ms"
    by (rule uniq_map_upd [OF un(2) _ un(1), where p = "\<lambda>y. m_id y = m_id r" and k = "m_id r"])
      (use new in \<open>auto simp: m_key_def m_entity_pubkey_def\<close>)
  moreover have "uniq m_entity_email ?ms"
    using un(3) same by (subst uniq_map_same) (auto simp: m_entity_email_def)
  moreover have "refs m_public_key ?ms (user_keys ?tx)"
    using un(4) by (auto simp: refs_iff with_user_def user_row_of_def)
  ultimately have "update_members_checked ?p ?g ?tx = Inr (update_members ?p ?g ?tx)"
    using ms' by (simp add: update_members_checked_def Let_def frame_simps)
  then have "tx_register_member ev (Some (m_entity_id r)) (Some pk) (m_id r) ?tx = Inr (update_members ?p ?g ?tx)"
    using assms(1) one by (simp add: tx_register_member_def Let_def no_faults_io)
  moreover have "User ev 1 (Some pk) db = Inl ErrNoRows \<Longrightarrow> tx_add_user ev 2 (Some pk) db = Inr ?tx"
    using assms(1) digest User_cases(1) [of ev 1 "Some pk" db]
    by (auto simp: tx_add_user_def insert_users_def ins_user.insert_stmt_one user_add_def with_user_def user_uq_def
        viol_def clash_def list_ex_iff key_defs user_row_of_def image_iff) (metis+)?
  moreover have "User ev 1 (Some pk) db = Inr v \<Longrightarrow> ?tx = db" for v
    using User_cases(2) [of ev 1 "Some pk" db v] by (auto simp: with_user_def)
  moreover have "User ev 1 (Some pk) db = Inl e \<Longrightarrow> e = ErrNoRows" for e
    using assms(1) by (auto simp: User_def split: option.splits)
  ultimately show ?thesis
    using assms(1,3,4)
    by (auto simp: RegisterMember_def ValidPubKey_def slen_def bts_def ToPGMember_def zero_Member_def zero_MemberInfo_def split: sum.split dberror.split)
qed

lemma Entity_finds: "no_faults ev \<Longrightarrow> e \<in> set (entity_ids db) \<Longrightarrow> \<exists>entity. Entity ev (Some e) db = Inr entity"
  by (cases "find (\<lambda>y. sql_eq (Some e) (e_key y)) (entities db)")
    (auto simp: Entity_def EntityOrigins_def Let_def find_None_iff sql_eq_def e_key_def)

lemma find_uniq_key:
  assumes "uniq f rs" "r \<in> set rs" "f r = Some k" "P r"
  shows "find (\<lambda>y. f y = Some k \<and> P y) rs = Some r"
  using assms by (induction rs) (auto simp: uniq_Cons clash_def list_ex_iff)

text \<open>Then \<^verbatim>\<open>validateToken\<close> succeeds with a token of that member and that key.\<close>

lemma validateToken_succeeds:
  assumes "calm envs" "wf_db db" "JSONB_Set x None = Inr cf" "0 < PubKeyLengthBytes x"
    and q: "uuid_Parse x (rq_Token request) = Some u" "rq_Token request \<noteq> []"
      "rq_EntityID request = Some e" "rq_SignaturePublicKey request = Some pk"
    and ok: "can_register x e u pk db"
  obtains db' calls where "validateToken x envs request db = (db', Reply zero_APIresponse, calls)"
proof -
  from ok obtain r where r: "r \<in> set (members db)" "m_id r = u" "m_entity_id r = e" "m_public_key r = None"
    by (auto simp: can_register_def)
  have "e \<in> set (entity_ids db)" using assms(2) r by (auto simp: wf_db_def wf_members_def refs_iff m_entity_def)
  then obtain entity where e: "Entity (envs 0) (Some e) db = Inr entity"
    using Entity_finds assms(1) by (metis calm_no_faults)
  have "uniq m_key (members db)" using assms(2) by (simp add: wf_db_def wf_members_def)
  then have "find (\<lambda>y. m_id y = u \<and> sql_eq (Some e) (m_entity y)) (members db) = Some r"
    using find_uniq_key [of m_key "members db" r u "\<lambda>y. sql_eq (Some e) (m_entity y)"] r
    by (simp add: m_key_def m_entity_def sql_eq_def)
  then have m: "Member (envs 1) (Some e) (Some u) db = Inr (member_of r)"
    using assms(1) by (simp add: Member_def)
  have "pk \<noteq> []" using ok assms(4) by (auto simp: can_register_def)
  then have "validate_check x envs request db = Inr (entity, member_of r, u)"
    using q r(4) e m by (simp add: validate_check_def slen_def bts_def bytes_Equal_def)
  moreover obtain db1 where "RegisterMember (envs 2) x (Some e) (Some pk) (Some u) db = (db1, None)"
    using RegisterMember_succeeds [of "envs 2" db pk x cf r] assms(1-3) ok r by (auto simp: can_register_def)
  ultimately show ?thesis
    using that q(3,4)
    by (cases "TagByName (envs 3) (Some e) ''PendingValidation'' db1") (auto simp: validateToken_def validate_commit_def Let_def)
qed

text \<open>What the registration of one member leaves of the others.\<close>

lemma validateToken_keeps:
  assumes "wf_db db" "validateToken x envs request db = (db', Reply resp, calls)"
    and q: "uuid_Parse x (rq_Token request) = Some u" "rq_EntityID request = Some e" "rq_SignaturePublicKey request = Some pk"
  shows "wf_db db'" and "registered e u pk db'"
    and "u' \<noteq> u \<Longrightarrow> pk' \<noteq> pk \<Longrightarrow> can_register x e u' pk' db \<Longrightarrow> can_register x e u' pk' db'"
    and "u' \<noteq> u \<Longrightarrow> registered e u' pk' db \<Longrightarrow> registered e u' pk' db'"
proof -
  show "wf_db db'" using acts_for_wf [OF validateToken_acts assms(1)] assms(2) by (metis fst_conv)
  obtain r ts where r: "m_id r = u" "m_entity_id r = e" "r \<in> set (members db)"
    and db': "db' = (with_user (envs 2) (Some pk) db)\<lparr>members := map (\<lambda>y. if m_id y = m_id r
      then r\<lparr>m_public_key := Some pk, m_updated_at := now (envs 2), m_verified := now (envs 2), m_tags := ts\<rparr>
      else y) (members db)\<rparr>"
    by (rule validate_effect [OF assms(1,2)]) (use q in auto)
  have m: "r\<lparr>m_public_key := Some pk, m_updated_at := now (envs 2), m_verified := now (envs 2), m_tags := ts\<rparr> \<in> set (members db')"
    using r by (auto simp: db' intro: image_eqI [of _ _ r])
  show "registered e u pk db'" unfolding registered_def by (rule bexI [OF _ m]) (simp add: r)
  show "registered e u' pk' db'" if u: "u' \<noteq> u" "registered e u' pk' db" for u' pk'
    using u r by (fastforce simp: registered_def db' image_iff)
  show "can_register x e u' pk' db'" if u: "u' \<noteq> u" "pk' \<noteq> pk" "can_register x e u' pk' db" for u' pk'
    using u r by (fastforce simp: can_register_def db' image_iff with_user_def user_row_of_def)
qed

text \<open>What \<^verbatim>\<open>Request\<close> returns from the registry.\<close>

lemma Request_registry:
  "Request c (registry_server x envs api) req (Some pk) s =
     (case ra_methods (Registry_EnableAPI x (envs (se_sent s)) api) (rq_Method req) of
        None \<Rightarrow> (s\<lparr>se_sent := Suc (se_sent s)\<rparr>, LogFatal)
      | Some h \<Rightarrow>
          (case h (req\<lparr>rq_Timestamp := to_int32 (Unix (cl_now c (se_sent s))), rq_SignaturePublicKey := Some pk\<rparr>) (se_world s) of
             (w, out) \<Rightarrow> (s\<lparr>se_world := w, se_sent := Suc (se_sent s)\<rparr>,
               case out of Panic \<Rightarrow> LogFatal | Fail m \<Rightarrow> Finished (SetError m zero_APIresponse)
               | Reply resp \<Rightarrow> Finished (resp\<lparr>rs_Ok := True\<rparr>))))"
  by (auto simp: Request_def registry_server_def route_def Let_def split: option.split prod.split outcome.split)

lemma registrationStatus_calm:
  assumes "calm envs" "wf_db db" "rq_EntityID request = Some e" "rq_SignaturePublicKey request = Some pk"
  shows "registered e u pk db \<Longrightarrow> registrationStatus envs request db =
      (db, Reply (zero_APIresponse\<lparr>rs_Status := Some \<lparr>st_Registered = True, st_NeedsUpdate = False\<rparr>\<rparr>))"
    and "can_register x e u pk db \<Longrightarrow> registrationStatus envs request db =
      (db, Reply (zero_APIresponse\<lparr>rs_Status := Some \<lparr>st_Registered = False, st_NeedsUpdate = False\<rparr>\<rparr>))"
proof -
  have e: "e \<in> set (entity_ids db) \<Longrightarrow> \<exists>entity. Entity (envs 0) (Some e) db = Inr entity"
    using Entity_finds assms(1) by simp
  show "registrationStatus envs request db =
      (db, Reply (zero_APIresponse\<lparr>rs_Status := Some \<lparr>st_Registered = True, st_NeedsUpdate = False\<rparr>\<rparr>))"
    if r: "registered e u pk db"
  proof -
    have "find (\<lambda>y. sql_eq (Some pk) (m_public_key y) \<and> sql_eq (Some e) (m_entity y)) (members db) \<noteq> None"
      using r by (auto simp: registered_def find_None_iff sql_eq_def m_entity_def) (metis)
    moreover have "e \<in> set (entity_ids db)"
      using r assms(2) by (auto simp: registered_def wf_db_def wf_members_def refs_iff m_entity_def)
    ultimately show ?thesis using e assms by (auto simp: registrationStatus_def MemberPubKey_def)
  qed
  show "registrationStatus envs request db =
      (db, Reply (zero_APIresponse\<lparr>rs_Status := Some \<lparr>st_Registered = False, st_NeedsUpdate = False\<rparr>\<rparr>))"
    if r: "can_register x e u pk db"
  proof -
    have "find (\<lambda>y. sql_eq (Some pk) (m_public_key y) \<and> sql_eq (Some e) (m_entity y)) (members db) = None"
      using r by (auto simp: can_register_def find_None_iff sql_eq_def m_entity_def)
    moreover have "e \<in> set (entity_ids db)"
      using r assms(2) by (auto simp: can_register_def wf_db_def wf_members_def refs_iff m_entity_def)
    ultimately show ?thesis using e assms by (auto simp: registrationStatus_def MemberPubKey_def)
  qed
qed

lemma flow_round_registers:
  assumes "\<And>k. calm (envs k)" "wf_db (se_world s)" "JSONB_Set x None = Inr cf" "0 < PubKeyLengthBytes x"
    and "cl_registry c = registry_server x envs api" "uuid_Parse x t = Some u" "t \<noteq> []" "can_register x e u pk (se_world s)"
  obtains db' where "flow_round c (Some e) keys idx t (Some pk) s =
      (s\<lparr>se_world := db', se_sent := se_sent s + 3\<rparr>, Finished ())" "wf_db db'" "registered e u pk db'"
    "\<And>u' pk'. u' \<noteq> u \<Longrightarrow> pk' \<noteq> pk \<Longrightarrow> can_register x e u' pk' (se_world s) \<Longrightarrow> can_register x e u' pk' db'"
    "\<And>u' pk'. u' \<noteq> u \<Longrightarrow> registered e u' pk' (se_world s) \<Longrightarrow> registered e u' pk' db'"
proof -
  have q: "rq_Method (flow_request m (Some e) t) = m" "rq_EntityID (flow_request m (Some e) t) = Some e"
    "rq_Token (flow_request m (Some e) t) = t" for m t
    by (simp_all add: flow_request_def)
  define req where "req = (flow_request ''validateToken'' (Some e) t)
    \<lparr>rq_Timestamp := to_int32 (Unix (cl_now c (Suc (se_sent s)))), rq_SignaturePublicKey := Some pk\<rparr>"
  have req: "uuid_Parse x (rq_Token req) = Some u" "rq_Token req \<noteq> []" "rq_EntityID req = Some e"
    "rq_SignaturePublicKey req = Some pk" using assms(6,7) by (simp_all add: req_def q)
  obtain db' calls where v: "validateToken x (envs (Suc (se_sent s))) req (se_world s) = (db', Reply zero_APIresponse, calls)"
    by (rule validateToken_succeeds [OF assms(1-4) req assms(8)])
  note keep = validateToken_keeps [OF assms(2) v req(1,3,4)]
  note st = registrationStatus_calm [OF assms(1)]
  have "flow_round c (Some e) keys idx t (Some pk) s = (s\<lparr>se_world := db', se_sent := se_sent s + 3\<rparr>, Finished ())"
    using v [unfolded req_def] keep assms(2,5,8)
    by (simp add: flow_round_def andThen_def ret_def Request_registry Registry_EnableAPI_def st(2) [OF assms(2) _ _ assms(8)] q
        st(1) [OF keep(1) _ _ keep(2)] zero_APIresponse_def)
  then show ?thesis using that keep by blast
qed

text \<open>A pair of a token and a key of the client, with the member of the token and the public key.\<close>

record registration =
  rg_token :: string
  rg_key :: string
  rg_member :: uuid
  rg_pubkey :: bytes

definition registrable :: "'w client \<Rightarrow> ext \<Rightarrow> bytes \<Rightarrow> pgdb \<Rightarrow> registration \<Rightarrow> bool" where
  "registrable c x e db g \<longleftrightarrow> cl_AddHexKey c (rg_key g) = Inr (rg_pubkey g) \<and> rg_token g \<noteq> [] \<and>
     uuid_Parse x (rg_token g) = Some (rg_member g) \<and> can_register x e (rg_member g) (rg_pubkey g) db"

lemma registerFlow_run:
  assumes "\<And>k. calm (envs k)" "JSONB_Set x None = Inr cf" "0 < PubKeyLengthBytes x"
    and "cl_registry c = registry_server x envs api"
  shows "wf_db (se_world s) \<Longrightarrow> \<forall>g\<in>set gs. registrable c x e (se_world s) g \<Longrightarrow>
    distinct (map rg_member gs) \<Longrightarrow> distinct (map rg_pubkey gs) \<Longrightarrow> drop idx keys = map rg_key gs \<Longrightarrow>
    \<exists>db'. registerFlow c (Some e) keys idx (map rg_token gs) signer s =
        (s\<lparr>se_world := db', se_sent := se_sent s + 3 * length gs\<rparr>, Finished ()) \<and> wf_db db' \<and>
      (\<forall>g\<in>set gs. registered e (rg_member g) (rg_pubkey g) db') \<and>
      (\<forall>u pk. u \<notin> rg_member ` set gs \<longrightarrow> registered e u pk (se_world s) \<longrightarrow> registered e u pk db')"
proof (induction gs arbitrary: idx signer s)
  case Nil
  then show ?case by (intro exI [of _ "se_world s"]) (auto simp: ret_def)
next
  case (Cons g gs)
  have g: "cl_AddHexKey c (rg_key g) = Inr (rg_pubkey g)" "rg_token g \<noteq> []" "uuid_Parse x (rg_token g) = Some (rg_member g)"
    "can_register x e (rg_member g) (rg_pubkey g) (se_world s)" using Cons.prems(2) by (auto simp: registrable_def)
  have "idx < length keys" using Cons.prems(5) by (cases "idx < length keys") auto
  then have idx: "idx < length keys" "keys ! idx = rg_key g" "drop (Suc idx) keys = map rg_key gs"
    using Cons.prems(5) Cons_nth_drop_Suc [of idx keys] by auto
  have key: "next_key c keys idx signer s = (s, Finished (Some (rg_pubkey g)))"
    using idx g(1) by (auto simp: next_key_def add_key_def ret_def)
  obtain db1 where round: "flow_round c (Some e) keys idx (rg_token g) (Some (rg_pubkey g)) s =
      (s\<lparr>se_world := db1, se_sent := se_sent s + 3\<rparr>, Finished ())" "wf_db db1" "registered e (rg_member g) (rg_pubkey g) db1"
    and keep: "\<And>u' pk'. u' \<noteq> rg_member g \<Longrightarrow> pk' \<noteq> rg_pubkey g \<Longrightarrow> can_register x e u' pk' (se_world s) \<Longrightarrow> can_register x e u' pk' db1"
      "\<And>u' pk'. u' \<noteq> rg_member g \<Longrightarrow> registered e u' pk' (se_world s) \<Longrightarrow> registered e u' pk' db1"
    using flow_round_registers [OF assms(1) Cons.prems(1) assms(2-4) g(3,2,4)] by metis
  let ?s = "s\<lparr>se_world := db1, se_sent := se_sent s + 3\<rparr>"
  have "\<forall>h\<in>set gs. registrable c x e (se_world ?s) h"
  proof
    fix h
    assume h: "h \<in> set gs"
    then have "rg_member h \<noteq> rg_member g" "rg_pubkey h \<noteq> rg_pubkey g" using Cons.prems(3,4) by (auto simp: image_iff)
    then show "registrable c x e (se_world ?s) h" using Cons.prems(2) h keep(1) by (simp add: registrable_def)
  qed
  then obtain db' where "registerFlow c (Some e) keys (Suc idx) (map rg_token gs) (Some (rg_pubkey g)) ?s =
      (?s\<lparr>se_world := db', se_sent := se_sent ?s + 3 * length gs\<rparr>, Finished ())" "wf_db db'"
    "\<forall>g\<in>set gs. registered e (rg_member g) (rg_pubkey g) db'"
    "\<forall>u pk. u \<notin> rg_member ` set gs \<longrightarrow> registered e u pk db1 \<longrightarrow> registered e u pk db'"
    using Cons.IH [of ?s "Suc idx" "Some (rg_pubkey g)"] round(2) Cons.prems(3,4) idx(3) by auto
  then show ?case
    using key round keep(2) Cons.prems(3) by (intro exI [of _ db']) (auto simp: andThen_def algebra_simps)
qed

section \<open>A flow without an entity\<close>

definition no_empty_id :: "pgdb \<Rightarrow> bool" where
  "no_empty_id db \<longleftrightarrow> [] \<notin> set (entity_ids db)"

lemma Entity_empty: "no_empty_id db \<Longrightarrow> \<exists>e. Entity ev (Some []) db = Inl e"
  by (cases "find (\<lambda>y. sql_eq (Some []) (e_key y)) (entities db)")
    (force simp: no_empty_id_def Entity_def e_key_def sql_eq_def split: option.splits dest!: find_Some_mem)+

lemma registry_empty:
  assumes "no_empty_id db" "rq_EntityID request = Some []"
  shows "registrationStatus envs request db = (db, Fail ''entity does not exist'')"
    and "\<exists>msg. validateToken x envs request db = (db, Fail msg, [])"
proof -
  obtain e where "Entity (envs 0) (Some []) db = Inl e" using Entity_empty [OF assms(1)] by blast
  then show "registrationStatus envs request db = (db, Fail ''entity does not exist'')"
    "\<exists>msg. validateToken x envs request db = (db, Fail msg, [])"
    using assms(2) by (auto simp: registrationStatus_def validateToken_def validate_check_def split: option.split dberror.split)
qed

lemma flow_round_empty:
  assumes "no_empty_id (se_world s)" "cl_registry c = registry_server x envs api"
  shows "snd (flow_round c (Some []) keys idx t signer s) \<noteq> Finished ()"
proof (cases signer)
  case None
  then show ?thesis by (simp add: flow_round_def andThen_def Request_def)
next
  case (Some pk)
  have q: "rq_Method (flow_request m (Some []) t) = m" "rq_EntityID (flow_request m (Some []) t) = Some []" for m t
    by (simp_all add: flow_request_def)
  obtain msg where "validateToken x (envs (Suc (se_sent s))) ((flow_request ''validateToken'' (Some []) t)
      \<lparr>rq_Timestamp := to_int32 (Unix (cl_now c (Suc (se_sent s)))), rq_SignaturePublicKey := Some pk\<rparr>) (se_world s) =
      (se_world s, Fail msg, [])"
    using registry_empty(2) [OF assms(1)] q(2) by fastforce
  then show ?thesis
    by (simp add: Some flow_round_def andThen_def act_defs log_key_def Request_registry assms(2) Registry_EnableAPI_def q
        registry_empty(1) [OF assms(1)] SetError_def zero_APIresponse_def)
qed

text \<open>
  What an action keeps of the state of the servers; only requests change it. An action that returns,
  composed of two, returned from both.
\<close>

definition preserves :: "('w \<Rightarrow> bool) \<Rightarrow> ('w, 'a) act \<Rightarrow> bool" where
  "preserves P m \<longleftrightarrow> (\<forall>s. P (se_world s) \<longrightarrow> P (se_world (fst (m s))))"

named_theorems preserves_intros

lemma preserves_andThen [preserves_intros]:
  "preserves P m \<Longrightarrow> (\<And>a. preserves P (f a)) \<Longrightarrow> preserves P (andThen m f)"
  by (auto simp: preserves_def andThen_def split: prod.splits run.splits)

lemma preserves_simple [preserves_intros]:
  "preserves P (ret a)" "preserves P fatal" "preserves P panic" "preserves P (log_line m)" "preserves P (generate_key c)"
  "preserves P (save_lines c dir name ls)"
  by (auto simp: preserves_def act_defs generate_key_def save_lines_def split: sum.split option.split)

lemma preserves_splits [preserves_intros]:
  "(b \<Longrightarrow> preserves P m) \<Longrightarrow> (\<not> b \<Longrightarrow> preserves P n) \<Longrightarrow> preserves P (if b then m else n)"
  "(\<And>x. preserves P (f x)) \<Longrightarrow> (\<And>y. preserves P (g y)) \<Longrightarrow> preserves P (case z of Inl x \<Rightarrow> f x | Inr y \<Rightarrow> g y)"
  "(\<And>x y. preserves P (h x y)) \<Longrightarrow> preserves P (case p of (x, y) \<Rightarrow> h x y)"
  by (auto split: sum.split prod.split)

lemma preserves_Request [preserves_intros]:
  "(\<And>k rid pk q w. P w \<Longrightarrow> P (fst (server k rid pk q w))) \<Longrightarrow> preserves P (Request c server req signer)"
  unfolding preserves_def
proof (intro allI impI)
  fix s :: "'a session"
  assume "\<And>k rid pk q w. P w \<Longrightarrow> P (fst (server k rid pk q w))" "P (se_world s)"
  then show "P (se_world (fst (Request c server req signer s)))"
    by (simp add: Request_def Let_def split_beta)
qed

lemma preserves_draw_keys [preserves_intros]: "preserves P (draw_keys c n)"
  by (induction n) (auto intro!: preserves_intros)

lemma preserves_before_flow:
  "preserves P (keys_of_flags c f)" "preserves P (next_key c keys idx signer)"
  "(\<And>k rid pk q w. P w \<Longrightarrow> P (fst (cl_manager c k rid pk q w))) \<Longrightarrow> preserves P (tokens_of_flags c x f dir)"
  by (auto simp: keys_of_flags_def generateKeys_def tokens_of_flags_def generateEntity_def client_generateTokens_def Let_def next_key_def
      intro!: preserves_intros)

lemma preservesD: "preserves P m \<Longrightarrow> m s = (s', Finished a) \<Longrightarrow> P (se_world s) \<Longrightarrow> P (se_world s')"
  by (metis fst_conv preserves_def)

lemma andThen_Finished:
  "andThen m f s = (s', Finished b) \<longleftrightarrow> (\<exists>s1 a. m s = (s1, Finished a) \<and> f a s1 = (s', Finished b))"
  by (auto simp: andThen_def split: prod.splits run.splits)

lemma ret_Finished: "ret a s = (s', Finished b) \<longleftrightarrow> s' = s \<and> b = a" "fatal s \<noteq> (s', Finished b)"
  by (auto simp: act_defs)

lemma client_generateTokens_length:
  "client_generateTokens c x n key dir s = (s', Finished tokens) \<Longrightarrow> int (length tokens) = n"
  by (auto simp: client_generateTokens_def andThen_Finished ret_Finished Let_def split: if_splits)

lemma tokens_of_flags_nonempty:
  "tokens_of_flags c x f dir s = (s', Finished (tokens, eid)) \<Longrightarrow> mf_tokens f = [] \<Longrightarrow> tokens \<noteq> []"
  by (auto simp: tokens_of_flags_def andThen_Finished ret_Finished split: if_splits prod.splits
      dest!: client_generateTokens_length)

lemma registerFlow_empty:
  assumes "no_empty_id (se_world s)" "cl_registry c = registry_server x envs api" "tokens \<noteq> []"
  shows "registerFlow c (Some []) keys idx tokens signer s \<noteq> (s', Finished ())"
proof
  assume fin: "registerFlow c (Some []) keys idx tokens signer s = (s', Finished ())"
  obtain t ts where "tokens = t # ts" using assms(3) by (cases tokens) auto
  with fin obtain s1 signer' s2 where k: "next_key c keys idx signer s = (s1, Finished signer')"
    and round: "flow_round c (Some []) keys idx t signer' s1 = (s2, Finished ())"
    by (auto simp: andThen_Finished)
  have "no_empty_id (se_world s1)" by (rule preservesD [where P = no_empty_id, OF preserves_before_flow(2) k assms(1)])
  then show False using flow_round_empty [OF _ assms(2)] round by (metis snd_conv)
qed

text \<open>The test client that returns has sent every line that is not skipped, in order, and has an answer to each.\<close>

lemma testclient_loop_answers:
  "testclient_loop c unmarshal signer ls s = (s', Finished resps) \<Longrightarrow>
   length resps = length (filter (\<lambda>l. \<not> skipped_line l) ls) \<and> se_sent s' = se_sent s + length resps \<and>
   (\<forall>l\<in>set ls. skipped_line l \<or> unmarshal l \<noteq> None)"
proof (induction ls arbitrary: s resps)
  case (Cons l ls)
  have sent: "Request c server req signer s = (s1, Finished r) \<Longrightarrow> se_sent s1 = Suc (se_sent s)" for server req s1 r and s :: "'a session"
    by (auto simp: Request_def Let_def split: if_splits prod.splits)
  show ?case
    using Cons by (force simp: andThen_Finished ret_Finished panic_def split: if_splits option.splits dest: sent)
qed (auto simp: ret_Finished)

section \<open>Properties\<close>

text \<open>
  C9: the registration flow of the client against the registry API succeeds: when every token names
  a member of the entity without a key, every key is new to the entity, and no two tokens or keys are
  the same, the client returns, has logged no complaint, sent three requests for every token, and
  every member is registered with the key of its token.
\<close>

theorem registerFlow_registers:
  assumes "\<And>k. calm (envs k)" "JSONB_Set x None = Inr cf" "0 < PubKeyLengthBytes x"
    and "cl_registry c = registry_server x envs api" "wf_db (se_world s)"
    and "\<forall>g\<in>set gs. registrable c x e (se_world s) g"
    and "distinct (map rg_member gs)" "distinct (map rg_pubkey gs)"
  shows "\<exists>s'. registerFlow c (Some e) (map rg_key gs) 0 (map rg_token gs) None s = (s', Finished ()) \<and>
    se_log s' = se_log s \<and> se_sent s' = se_sent s + 3 * length gs \<and> wf_db (se_world s') \<and>
    (\<forall>g\<in>set gs. registered e (rg_member g) (rg_pubkey g) (se_world s'))"
  using registerFlow_run [OF assms(1-4), of s gs e 0 "map rg_key gs" None] assms(5-8) by auto

definition demo_client :: "pgdb client" where
  "demo_client = \<lparr>cl_registry = registry_server demo_ext (\<lambda>_. demo_envs) (projr (NewRegistry (Inr 50) [] [5] ''/api'' False False)),
     cl_manager = (\<lambda>k rid pk q w. (w, WireReply rid (zero_APIresponse\<lparr>rs_Ok := True, rs_Tokens := [2]\<rparr>))),
     cl_Dial = (\<lambda>_. None), cl_now = (\<lambda>_. 0), cl_Intn = (\<lambda>k. int k),
     cl_AddHexKey = (\<lambda>key. if key = ''0a'' then Inr [1, 1] else Inl ''invalid key''), cl_Generate = (\<lambda>k. (''0a'', [1, 1])),
     cl_Address = (\<lambda>pk. pk), cl_ReadFile = (\<lambda>_. Inl ''no file''), cl_TempDir = Inr ''/tmp/managertest1'', cl_WriteFile = (\<lambda>_ _. None)\<rparr>"

definition demo_session :: "pgdb session" where
  "demo_session = \<lparr>se_world = demo_db, se_sent = 0, se_drawn = 0, se_log = [], se_files = []\<rparr>"

theorem registerFlow_registers_witness:
  "\<exists>s'. registerFlow demo_client (Some [7]) [''0a''] 0 [''ab''] None demo_session = (s', Finished ()) \<and>
     se_log s' = [] \<and> registered [7] 2 [1, 1] (se_world s')"
proof -
  let ?g = "\<lparr>rg_token = ''ab'', rg_key = ''0a'', rg_member = 2, rg_pubkey = [1, 1]\<rparr>"
  have g: "\<forall>g\<in>set [?g]. registrable demo_client demo_ext [7] (se_world demo_session) g" by code_simp
  have ext: "JSONB_Set demo_ext None = Inr (projr (JSONB_Set demo_ext None))" "0 < PubKeyLengthBytes demo_ext" by code_simp+
  have c: "cl_registry demo_client = registry_server demo_ext (\<lambda>_. demo_envs) (projr (NewRegistry (Inr 50) [] [5] ''/api'' False False))" by (simp add: demo_client_def)
  have s: "wf_db (se_world demo_session)" "se_log demo_session = []" using wf_demo_db by (simp_all add: demo_session_def)
  obtain s' where "registerFlow demo_client (Some [7]) (map rg_key [?g]) 0 (map rg_token [?g]) None demo_session = (s', Finished ())"
    "se_log s' = []" "\<forall>g\<in>set [?g]. registered [7] (rg_member g) (rg_pubkey g) (se_world s')"
    using registerFlow_registers [OF _ ext c s(1) g] s(2) by auto
  then show ?thesis by (simp del: registerFlow.simps)
qed

text \<open>
  C36: with an entity of its own making, the flow cannot succeed: the identifier it asks for was decoded
  from the empty flag before the entity was generated. Whatever the manager answers, as long as it
  stores no entity with an empty identifier, the run ends in \<^verbatim>\<open>log.Fatal\<close> or in a panic.
\<close>

theorem registrationFlow_generated_entity:
  assumes "mf_method f = ''registrationFlow''" "mf_eid f = []" "mf_tokens f = []"
    and "cl_registry c = registry_server x envs api" "no_empty_id (se_world s)"
    and "\<And>k rid pk q w. no_empty_id w \<Longrightarrow> no_empty_id (fst (cl_manager c k rid pk q w))"
  shows "snd (managertest c x f s) \<in> {LogFatal, RunPanic}"
proof -
  have "managertest c x f s \<noteq> (s', Finished ())" for s'
  proof
    assume "managertest c x f s = (s', Finished ())"
    then obtain s1 keys dir s2 tokens eid where k: "keys_of_flags c f s = (s1, Finished (keys, dir))"
      and t: "tokens_of_flags c x f dir s1 = (s2, Finished (tokens, eid))"
      and flow: "registerFlow c (Some []) keys 0 tokens None s2 = (s', Finished ())"
      using assms(1,2)
      by (auto simp: managertest_def andThen_Finished ret_Finished split: if_splits prod.splits)
    have "no_empty_id (se_world s2)"
      using preservesD [where P = no_empty_id, OF preserves_before_flow(1) k assms(5)] preservesD [where P = no_empty_id, OF preserves_before_flow(3) t] assms(6) by blast
    then show False using registerFlow_empty [OF _ assms(4) tokens_of_flags_nonempty [OF t assms(3)]] flow by blast
  qed
  then show ?thesis by (cases "snd (managertest c x f s)") (metis insertI1 insertI2 old.unit.exhaust prod.collapse)+
qed

theorem registrationFlow_generated_entity_witness:
  "snd (managertest demo_client demo_ext \<lparr>mf_host = ''127.0.0.1:8000'', mf_route = ''/api'', mf_tls = False, mf_entityKey = [],
     mf_eid = [], mf_method = ''registrationFlow'', mf_usersNumber = 1, mf_tokens = [], mf_privKeys = []\<rparr> demo_session) \<in> {LogFatal, RunPanic}"
proof -
  have "no_empty_id (se_world demo_session)" by code_simp
  then show ?thesis
    by (intro registrationFlow_generated_entity [where envs = "\<lambda>_. demo_envs"]) (simp_all add: demo_client_def)
qed

end
