(* ===== verification/Catalog.thy ===== *)
theory Catalog
  imports Migrations
begin

text \<open>
  The SQL of the migrations in \<^verbatim>\<open>database/pgsql/migrations.go\<close>, statement by statement, and what the
  statements do to the catalog of the database: tables with their columns and constraints, enumerations
  and extensions. A statement that the server refuses is \<open>None\<close>; a migration runs in one transaction.
\<close>

section \<open>The catalog\<close>

text \<open>The names of tables and columns and the types and defaults that the migrations use.\<close>

datatype tname = Entities | Entities_origins | Users | Members | Push_tokens | Targets | Censuses | Census_members | Tags

datatype colname = C_updated_at | C_created_at | C_id | C_address | C_email | C_name | C_callback_url | C_callback_secret
  | C_census_managers_addresses | C_origin | C_entity_id | C_public_key | C_digested_public_key | C_street_address | C_first_name | C_last_name
  | C_phone | C_date_of_birth | C_consented | C_verified | C_custom_fields | C_user_id | C_token | C_filters
  | C_target_id | C_merkle_root | C_merkle_tree_uri | C_size | C_member_id | C_census_id | C_is_authorized | C_tags
  | C_ephemeral | C_private_key | C_type

datatype coltype = TimestampTZ | Bytea | ByteaArray | Text | UUID | Boolean | JSONB | Integer | IntArray | Serial | EnumType string

datatype default = CurrentTimestamp | GenRandomUUID | Literal string

record column =
  co_name :: colname
  co_type :: coltype
  co_notnull :: bool
  co_default :: "default option"

text \<open>
  A foreign key names its columns, the table and the columns it refers to, none for the primary key,
  and whether it cascades.
\<close>

datatype con = PrimaryKey "colname list" | Unique "colname list" | ForeignKey "colname list" tname "colname list" bool

primrec con_columns :: "con \<Rightarrow> colname list" where
  "con_columns (PrimaryKey cs) = cs"
| "con_columns (Unique cs) = cs"
| "con_columns (ForeignKey cs t rs casc) = cs"

primrec is_primary :: "con \<Rightarrow> bool" where
  "is_primary (PrimaryKey cs) = True"
| "is_primary (Unique cs) = False"
| "is_primary (ForeignKey cs t rs casc) = False"

record dbtable =
  tb_name :: tname
  tb_columns :: "column list"
  tb_constraints :: "(string \<times> con) list"

record catalog =
  ct_tables :: "dbtable list"
  ct_types :: "(string \<times> string list) list"
  ct_extensions :: "string list"

definition empty_catalog :: catalog where
  "empty_catalog = \<lparr>ct_tables = [], ct_types = [], ct_extensions = []\<rparr>"

text \<open>
  What the server checks: a column needs its enumeration, and the function of its default the
  extension; a foreign key needs the key it refers to.
\<close>

definition column_ok :: "catalog \<Rightarrow> column \<Rightarrow> bool" where
  "column_ok c co \<longleftrightarrow> (case co_type co of EnumType n \<Rightarrow> n \<in> set (map fst (ct_types c)) | _ \<Rightarrow> True) \<and>
     (case co_default co of Some GenRandomUUID \<Rightarrow> ''pgcrypto'' \<in> set (ct_extensions c) | _ \<Rightarrow> True)"

definition is_key :: "colname list \<Rightarrow> con \<Rightarrow> bool" where
  "is_key rs k = (if rs = [] then is_primary k else k = PrimaryKey rs \<or> k = Unique rs)"

definition refers_to_key :: "catalog \<Rightarrow> con \<Rightarrow> bool" where
  "refers_to_key c k =
     (case k of
        ForeignKey cs n rs casc \<Rightarrow>
          list_ex (\<lambda>t. tb_name t = n \<and> list_ex (\<lambda>(m, k'). is_key rs k') (tb_constraints t)) (ct_tables c)
      | _ \<Rightarrow> True)"

text \<open>The foreign keys of the catalog, and whether one refers to the constraint \<open>k\<close> of the table \<open>n\<close>.\<close>

definition referenced :: "catalog \<Rightarrow> tname \<Rightarrow> con \<Rightarrow> bool" where
  "referenced c n k = list_ex (\<lambda>t. list_ex (\<lambda>(m, k').
     case k' of ForeignKey cs n' rs casc \<Rightarrow> n' = n \<and> is_key rs k | _ \<Rightarrow> False) (tb_constraints t)) (ct_tables c)"

section \<open>Statements\<close>

datatype alter = AddColumn column | DropColumn colname | AddConstraint string con | DropConstraint string | SetDefault colname default

datatype ddl = CreateExtension string | DropExtension string | CreateType string "string list" | DropType string
  | AddValue string string | CreateTable tname "column list" | DropTable tname | AlterTable tname "alter list"

text \<open>
  One action of ALTER TABLE. Dropping a column drops the constraints of its table that name it. A key
  to which a foreign key refers is not dropped.
\<close>

definition drop_constraints :: "catalog \<Rightarrow> (string \<times> con \<Rightarrow> bool) \<Rightarrow> dbtable \<Rightarrow> dbtable option" where
  "drop_constraints c p t =
     (if list_ex (\<lambda>nk. p nk \<and> referenced c (tb_name t) (snd nk)) (tb_constraints t) then None
      else Some (t\<lparr>tb_constraints := filter (\<lambda>nk. \<not> p nk) (tb_constraints t)\<rparr>))"

fun alter_table :: "catalog \<Rightarrow> alter \<Rightarrow> dbtable \<Rightarrow> dbtable option" where
  "alter_table c (AddColumn co) t =
     (if co_name co \<in> set (map co_name (tb_columns t)) \<or> \<not> column_ok c co then None
      else Some (t\<lparr>tb_columns := tb_columns t @ [co]\<rparr>))"
| "alter_table c (DropColumn n) t =
     (if n \<notin> set (map co_name (tb_columns t)) then None
      else drop_constraints c (\<lambda>(m, k). n \<in> set (con_columns k)) (t\<lparr>tb_columns := filter (\<lambda>co. co_name co \<noteq> n) (tb_columns t)\<rparr>))"
| "alter_table c (AddConstraint n k) t =
     (if n \<in> set (map fst (tb_constraints t)) \<or> is_primary k \<and> list_ex (\<lambda>(m, k'). is_primary k') (tb_constraints t) \<or>
         \<not> list_all (\<lambda>x. x \<in> set (map co_name (tb_columns t))) (con_columns k) \<or> \<not> refers_to_key c k then None
      else Some (t\<lparr>tb_constraints := tb_constraints t @ [(n, k)]\<rparr>))"
| "alter_table c (DropConstraint n) t =
     (if n \<notin> set (map fst (tb_constraints t)) then None else drop_constraints c (\<lambda>(m, k). m = n) t)"
| "alter_table c (SetDefault n d) t =
     (if n \<notin> set (map co_name (tb_columns t)) \<or> d = GenRandomUUID then None
      else Some (t\<lparr>tb_columns := map (\<lambda>co. if co_name co = n then co\<lparr>co_default := Some d\<rparr> else co) (tb_columns t)\<rparr>))"

definition set_table :: "tname \<Rightarrow> dbtable \<Rightarrow> catalog \<Rightarrow> catalog" where
  "set_table n t c = c\<lparr>ct_tables := map (\<lambda>u. if tb_name u = n then t else u) (ct_tables c)\<rparr>"

text \<open>The actions of one ALTER TABLE, in the order they are written.\<close>

fun alter_all :: "tname \<Rightarrow> alter list \<Rightarrow> catalog \<Rightarrow> catalog option" where
  "alter_all n [] c = Some c"
| "alter_all n (a # as) c =
     (case find (\<lambda>t. tb_name t = n) (ct_tables c) of
        None \<Rightarrow> None
      | Some t \<Rightarrow> (case alter_table c a t of None \<Rightarrow> None | Some t' \<Rightarrow> alter_all n as (set_table n t' c)))"

text \<open>
  The extensions are created if they do not exist, and dropped if they do; a value is added to an
  enumeration if it is not there.
\<close>

fun exec_ddl :: "ddl \<Rightarrow> catalog \<Rightarrow> catalog option" where
  "exec_ddl (CreateExtension n) c =
     (if n \<in> set (ct_extensions c) then Some c else Some (c\<lparr>ct_extensions := ct_extensions c @ [n]\<rparr>))"
| "exec_ddl (DropExtension n) c =
     (if n = ''pgcrypto'' \<and> list_ex (\<lambda>t. list_ex (\<lambda>co. co_default co = Some GenRandomUUID) (tb_columns t)) (ct_tables c) then None
      else Some (c\<lparr>ct_extensions := filter (\<lambda>m. m \<noteq> n) (ct_extensions c)\<rparr>))"
| "exec_ddl (CreateType n vs) c =
     (if n \<in> set (map fst (ct_types c)) then None else Some (c\<lparr>ct_types := ct_types c @ [(n, vs)]\<rparr>))"
| "exec_ddl (DropType n) c =
     (if n \<notin> set (map fst (ct_types c)) \<or> list_ex (\<lambda>t. list_ex (\<lambda>co. co_type co = EnumType n) (tb_columns t)) (ct_tables c) then None
      else Some (c\<lparr>ct_types := filter (\<lambda>mv. fst mv \<noteq> n) (ct_types c)\<rparr>))"
| "exec_ddl (AddValue n v) c =
     (if n \<notin> set (map fst (ct_types c)) then None
      else Some (c\<lparr>ct_types := map (\<lambda>(m, vs). (m, if m = n \<and> v \<notin> set vs then vs @ [v] else vs)) (ct_types c)\<rparr>))"
| "exec_ddl (CreateTable n cs) c =
     (if n \<in> set (map tb_name (ct_tables c)) \<or> \<not> distinct (map co_name cs) \<or> \<not> list_all (column_ok c) cs then None
      else Some (c\<lparr>ct_tables := ct_tables c @ [\<lparr>tb_name = n, tb_columns = cs, tb_constraints = []\<rparr>]\<rparr>))"
| "exec_ddl (DropTable n) c =
     (if n \<notin> set (map tb_name (ct_tables c)) \<or>
         list_ex (\<lambda>t. tb_name t \<noteq> n \<and> list_ex (\<lambda>(m, k). case k of ForeignKey cs n' rs casc \<Rightarrow> n' = n | _ \<Rightarrow> False) (tb_constraints t)) (ct_tables c)
      then None
      else Some (c\<lparr>ct_tables := filter (\<lambda>t. tb_name t \<noteq> n) (ct_tables c)\<rparr>))"
| "exec_ddl (AlterTable n as) c = alter_all n as c"

fun exec_sql :: "ddl list \<Rightarrow> catalog \<Rightarrow> catalog option" where
  "exec_sql [] c = Some c"
| "exec_sql (d # ds) c = (case exec_ddl d c of None \<Rightarrow> None | Some c' \<Rightarrow> exec_sql ds c')"

section \<open>The first migration\<close>

definition col :: "colname \<Rightarrow> coltype \<Rightarrow> column" where
  "col n ty = \<lparr>co_name = n, co_type = ty, co_notnull = True, co_default = None\<rparr>"

definition nullable :: "column \<Rightarrow> column" where
  "nullable co = co\<lparr>co_notnull := False\<rparr>"

definition default_to :: "default \<Rightarrow> column \<Rightarrow> column" where
  "default_to d co = co\<lparr>co_default := Some d\<rparr>"

definition stamp :: "colname \<Rightarrow> column" where
  "stamp n = default_to CurrentTimestamp (col n TimestampTZ)"

definition sql_entities :: "ddl list" where
  "sql_entities =
     [CreateExtension ''pgcrypto'',
      CreateTable Entities [stamp C_updated_at, stamp C_created_at, col C_id Bytea, col C_address Bytea,
        col C_email Text, col C_name Text, col C_callback_url Text, col C_callback_secret Text,
        col C_census_managers_addresses ByteaArray],
      AlterTable Entities [AddConstraint ''entities_pkey'' (PrimaryKey [C_id])],
      AlterTable Entities [AddConstraint ''entities_address_unique'' (Unique [C_address])]]"

definition sql_entities_origins :: "ddl list" where
  "sql_entities_origins =
     [CreateType ''origins'' [''Token'', ''Form'', ''DB''],
      CreateTable Entities_origins [default_to (Literal ''Form'') (col C_origin (EnumType ''origins'')), col C_entity_id Bytea],
      AlterTable Entities_origins [AddConstraint ''entities_origins_entity_id_fkey''
        (ForeignKey [C_entity_id] Entities [C_id] True)],
      AlterTable Entities_origins [AddConstraint ''entities_origins_pkey'' (PrimaryKey [C_origin, C_entity_id])]]"

definition sql_users :: "ddl list" where
  "sql_users =
     [CreateTable Users [stamp C_updated_at, stamp C_created_at, col C_public_key Bytea, col C_digested_public_key Bytea],
      AlterTable Users [AddConstraint ''users_pkey'' (PrimaryKey [C_public_key])],
      AlterTable Users [AddConstraint ''users_digested_public_key_unique'' (Unique [C_digested_public_key])]]"

definition sql_members :: "ddl list" where
  "sql_members =
     [CreateTable Members [stamp C_updated_at, stamp C_created_at,
        default_to GenRandomUUID (col C_id UUID), col C_entity_id Bytea, nullable (col C_public_key Bytea),
        col C_street_address Text, col C_first_name Text, col C_last_name Text, col C_email Text, col C_phone Text,
        col C_date_of_birth TimestampTZ, default_to (Literal ''Token'') (col C_origin (EnumType ''origins'')),
        default_to (Literal ''false'') (col C_consented Boolean), col C_verified TimestampTZ,
        default_to (Literal ''{}'') (col C_custom_fields JSONB)],
      AlterTable Members [AddConstraint ''members_pkey'' (PrimaryKey [C_id])],
      AlterTable Members [AddConstraint ''members_entity_id_fkey'' (ForeignKey [C_entity_id] Entities [C_id] True)],
      AlterTable Members [AddConstraint ''members_public_key_fkey'' (ForeignKey [C_public_key] Users [C_public_key] False)],
      AlterTable Members [AddConstraint ''members_entity_id_public_key_unique'' (Unique [C_entity_id, C_public_key])],
      AlterTable Members [AddConstraint ''members_entity_id_origins_fkey'' (ForeignKey [C_origin, C_entity_id] Entities_origins [] False)]]"

definition sql_push_tokens :: "ddl list" where
  "sql_push_tokens =
     [CreateTable Push_tokens [col C_user_id Bytea, stamp C_created_at, col C_token Text],
      AlterTable Push_tokens [AddConstraint ''push_tokens_pkey'' (PrimaryKey [C_token])],
      AlterTable Push_tokens [AddConstraint ''push_tokens_user_id_fkey'' (ForeignKey [C_user_id] Users [C_public_key] True)]]"

definition sql_targets :: "ddl list" where
  "sql_targets =
     [CreateTable Targets [stamp C_updated_at, stamp C_created_at, default_to GenRandomUUID (col C_id UUID),
        col C_entity_id Bytea, col C_name Text, default_to (Literal ''{}'') (col C_filters JSONB)],
      AlterTable Targets [AddConstraint ''targets_pkey'' (PrimaryKey [C_id])],
      AlterTable Targets [AddConstraint ''targets_entity_id_fkey'' (ForeignKey [C_entity_id] Entities [C_id] True)],
      AlterTable Targets [AddConstraint ''targets_entity_id_name_unique'' (Unique [C_entity_id, C_name])]]"

definition sql_censuses :: "ddl list" where
  "sql_censuses =
     [CreateTable Censuses [stamp C_updated_at, stamp C_created_at, col C_target_id UUID, col C_id Bytea, col C_name Text,
        col C_entity_id Bytea, col C_merkle_root Bytea, col C_merkle_tree_uri Text, col C_size Integer],
      AlterTable Censuses [AddConstraint ''censuses_pkey'' (PrimaryKey [C_id])],
      AlterTable Censuses [AddConstraint ''censuses_target_id_fkey'' (ForeignKey [C_target_id] Targets [C_id] False)],
      AlterTable Censuses [AddConstraint ''censuses_entity_id_fkey'' (ForeignKey [C_entity_id] Entities [C_id] True)]]"

definition sql_census_members :: "ddl list" where
  "sql_census_members =
     [CreateTable Census_members [col C_member_id UUID, col C_census_id Bytea],
      AlterTable Census_members [AddConstraint ''census_members_pkey'' (PrimaryKey [C_member_id, C_census_id])],
      AlterTable Census_members [AddConstraint ''census_members_member_id_fkey'' (ForeignKey [C_member_id] Members [C_id] True)],
      AlterTable Census_members [AddConstraint ''census_members_census_id_fkey'' (ForeignKey [C_census_id] Censuses [C_id] True)]]"

definition migration1up :: "ddl list" where
  "migration1up = sql_entities @ sql_entities_origins @ sql_users @ sql_members @ sql_push_tokens @ sql_targets @ sql_censuses @
     sql_census_members"

definition migration1down :: "ddl list" where
  "migration1down = [DropTable Census_members, DropTable Censuses, DropTable Targets, DropTable Push_tokens,
     DropTable Members, DropTable Users, DropTable Entities_origins, DropType ''origins'', DropTable Entities,
     DropExtension ''pgcrypto'']"

section \<open>The later migrations\<close>

definition migration2up :: "ddl list" where
  "migration2up = [AlterTable Entities [AddColumn (default_to (Literal ''false'') (col C_is_authorized Boolean))]]"

definition migration2down :: "ddl list" where
  "migration2down = [AlterTable Entities [DropColumn C_is_authorized]]"

definition migration3up :: "ddl list" where
  "migration3up =
     [CreateExtension ''intarray'',
      CreateTable Tags [stamp C_updated_at, stamp C_created_at, col C_id Serial, col C_name Text, col C_entity_id Bytea],
      AlterTable Tags [AddConstraint ''tags_pkey'' (PrimaryKey [C_id])],
      AlterTable Tags [AddConstraint ''tags_name_entity_id_unique'' (Unique [C_name, C_entity_id])],
      AlterTable Tags [AddConstraint ''tags_entity_id_fkey'' (ForeignKey [C_entity_id] Entities [C_id] True)],
      AlterTable Members [AddColumn (default_to (Literal ''{}'') (col C_tags IntArray))]]"

definition migration3down :: "ddl list" where
  "migration3down = [DropTable Tags, AlterTable Members [DropColumn C_tags], DropExtension ''intarray'']"

definition migration4up :: "ddl list" where
  "migration4up =
     [AlterTable Censuses [AddColumn (default_to (Literal ''false'') (col C_ephemeral Boolean))],
      AlterTable Census_members [AddColumn (default_to (Literal ''false'') (col C_ephemeral Boolean)), AddColumn (nullable (col C_public_key Bytea)),
        AddColumn (nullable (col C_digested_public_key Bytea)), AddColumn (nullable (col C_private_key Bytea))]]"

definition migration4down :: "ddl list" where
  "migration4down =
     [AlterTable Censuses [DropColumn C_ephemeral],
      AlterTable Census_members [DropColumn C_ephemeral, DropColumn C_public_key, DropColumn C_digested_public_key, DropColumn C_private_key]]"

definition migration5up :: "ddl list" where
  "migration5up =
     [AlterTable Members [DropConstraint ''members_public_key_fkey'',
        AddConstraint ''members_public_key_fkey'' (ForeignKey [C_public_key] Users [C_public_key] True),
        DropColumn C_email, AddColumn (nullable (col C_email Text)),
        AddConstraint ''members_entity_id_email_unique'' (Unique [C_entity_id, C_email])],
      AlterTable Entities [DropColumn C_address],
      AddValue ''origins'' ''API'',
      AlterTable Entities_origins [SetDefault C_origin (Literal ''Token'')]]"

definition migration5down :: "ddl list" where
  "migration5down =
     [AlterTable Members [DropConstraint ''members_public_key_fkey'',
        AddConstraint ''members_public_key_fkey'' (ForeignKey [C_public_key] Users [C_public_key] False),
        DropConstraint ''members_entity_id_email_unique''],
      AlterTable Entities [AddColumn (nullable (col C_address Bytea))]]"

definition migration6up :: "ddl list" where
  "migration6up = [AlterTable Entities [AddColumn (nullable (default_to (Literal ''undefined'') (col C_type Text))),
     AddColumn (nullable (default_to (Literal ''0'') (col C_size Integer)))]]"

definition migration6down :: "ddl list" where
  "migration6down = [AlterTable Entities [DropColumn C_type, DropColumn C_size]]"

definition migration7up :: "ddl list" where
  "migration7up = [AlterTable Entities [AddColumn (default_to (Literal ''false'') (col C_consented Boolean))]]"

definition migration7down :: "ddl list" where
  "migration7down = [AlterTable Entities [DropColumn C_consented]]"

definition ups :: "ddl list list" where
  "ups = [migration1up, migration2up, migration3up, migration4up, migration5up, migration6up, migration7up]"

definition downs :: "ddl list list" where
  "downs = [migration1down, migration2down, migration3down, migration4down, migration5down, migration6down, migration7down]"

section \<open>Migrating up and down\<close>

text \<open>The catalogs that migrations can lead to, in any order, with the number of migrations applied.\<close>

inductive migrated :: "nat \<Rightarrow> catalog \<Rightarrow> bool" where
  fresh: "migrated 0 empty_catalog"
| up: "migrated k c \<Longrightarrow> k < length ups \<Longrightarrow> exec_sql (ups ! k) c = Some c' \<Longrightarrow> migrated (Suc k) c'"
| down: "migrated (Suc k) c \<Longrightarrow> exec_sql (downs ! k) c = Some c' \<Longrightarrow> migrated k c'"

definition move :: "direction \<Rightarrow> nat \<times> catalog \<Rightarrow> (nat \<times> catalog) option" where
  "move dir v =
     (case dir of
        Up \<Rightarrow> if fst v < length ups then map_option (Pair (Suc (fst v))) (exec_sql (ups ! fst v) (snd v)) else None
      | Down \<Rightarrow> (case fst v of 0 \<Rightarrow> None | Suc k \<Rightarrow> map_option (Pair k) (exec_sql (downs ! k) (snd v))))"

fun walk :: "(nat \<times> catalog) option \<Rightarrow> direction list \<Rightarrow> (nat \<times> catalog) list" where
  "walk None ds = []"
| "walk (Some v) [] = [v]"
| "walk (Some v) (d # ds) = v # walk (move d v) ds"

text \<open>
  All of them: the seven steps up; four steps down from the fifth, none of which leads back; and the
  steps up from there, on which the columns are added in another order.
\<close>

definition versions :: "(nat \<times> catalog) list" where
  "versions =
     (let vs = walk (Some (0, empty_catalog)) (replicate 7 Up);
          ws = tl (walk (Some (vs ! 5)) (replicate 4 Down))
      in vs @ ws @ tl (walk (Some (ws ! 2)) [Up, Up]) @ tl (walk (Some (ws ! 3)) [Up, Up, Up]))"

definition up_to :: "nat option list" where
  "up_to = [Some 1, Some 2, Some 3, Some 4, Some 5, Some 6, Some 7, None, Some 5, Some 8, Some 12, Some 14, Some 13, Some 5,
     Some 15, Some 16, Some 5]"

definition down_to :: "nat option list" where
  "down_to = [None, Some 0, Some 1, Some 2, Some 3, Some 8, Some 5, Some 6, Some 9, Some 10, Some 11, Some 0, Some 10, Some 12,
     Some 11, Some 14, Some 15]"

definition table_schema :: "dbtable \<Rightarrow> tname \<times> (colname \<times> bool) list \<times> con list" where
  "table_schema t = (tb_name t, map (\<lambda>co. (co_name co, co_notnull co)) (tb_columns t), map snd (tb_constraints t))"

text \<open>
  The tables that the methods of the database rely on, with their columns, which of these are not
  null, and their constraints: what the row records and the invariant of the schema are made of.
\<close>

definition expected_schema :: "(tname \<times> (colname \<times> bool) list \<times> con list) list" where
  "expected_schema =
     [(Entities,
       [(C_updated_at, True), (C_created_at, True), (C_id, True), (C_email, True), (C_name, True), (C_callback_url, True),
        (C_callback_secret, True), (C_census_managers_addresses, True), (C_is_authorized, True), (C_type, False), (C_size, False),
        (C_consented, True)],
       [PrimaryKey [C_id]]),
      (Entities_origins, [(C_origin, True), (C_entity_id, True)],
       [ForeignKey [C_entity_id] Entities [C_id] True, PrimaryKey [C_origin, C_entity_id]]),
      (Users, [(C_updated_at, True), (C_created_at, True), (C_public_key, True), (C_digested_public_key, True)],
       [PrimaryKey [C_public_key], Unique [C_digested_public_key]]),
      (Members,
       [(C_updated_at, True), (C_created_at, True), (C_id, True), (C_entity_id, True), (C_public_key, False),
        (C_street_address, True), (C_first_name, True), (C_last_name, True), (C_phone, True), (C_date_of_birth, True),
        (C_origin, True), (C_consented, True), (C_verified, True), (C_custom_fields, True), (C_tags, True), (C_email, False)],
       [PrimaryKey [C_id], ForeignKey [C_entity_id] Entities [C_id] True, Unique [C_entity_id, C_public_key],
        ForeignKey [C_origin, C_entity_id] Entities_origins [] False, ForeignKey [C_public_key] Users [C_public_key] True,
        Unique [C_entity_id, C_email]]),
      (Push_tokens, [(C_user_id, True), (C_created_at, True), (C_token, True)],
       [PrimaryKey [C_token], ForeignKey [C_user_id] Users [C_public_key] True]),
      (Targets,
       [(C_updated_at, True), (C_created_at, True), (C_id, True), (C_entity_id, True), (C_name, True), (C_filters, True)],
       [PrimaryKey [C_id], ForeignKey [C_entity_id] Entities [C_id] True, Unique [C_entity_id, C_name]]),
      (Censuses,
       [(C_updated_at, True), (C_created_at, True), (C_target_id, True), (C_id, True), (C_name, True), (C_entity_id, True),
        (C_merkle_root, True), (C_merkle_tree_uri, True), (C_size, True), (C_ephemeral, True)],
       [PrimaryKey [C_id], ForeignKey [C_target_id] Targets [C_id] False, ForeignKey [C_entity_id] Entities [C_id] True]),
      (Census_members,
       [(C_member_id, True), (C_census_id, True), (C_ephemeral, True), (C_public_key, False), (C_digested_public_key, False),
        (C_private_key, False)],
       [PrimaryKey [C_member_id, C_census_id], ForeignKey [C_member_id] Members [C_id] True,
        ForeignKey [C_census_id] Censuses [C_id] True]),
      (Tags, [(C_updated_at, True), (C_created_at, True), (C_id, True), (C_name, True), (C_entity_id, True)],
       [PrimaryKey [C_id], Unique [C_name, C_entity_id], ForeignKey [C_entity_id] Entities [C_id] True])]"

definition not_null :: "catalog \<Rightarrow> tname \<Rightarrow> colname \<Rightarrow> bool option" where
  "not_null c n m = Option.bind (find (\<lambda>t. tb_name t = n) (ct_tables c))
     (\<lambda>t. map_option co_notnull (find (\<lambda>co. co_name co = m) (tb_columns t)))"

text \<open>The facts about the versions, each by evaluation.\<close>

definition counts :: "nat list" where
  "counts = [0, 1, 2, 3, 4, 5, 6, 7, 4, 3, 2, 1, 3, 4, 2, 3, 4]"

lemma versions_up: "let vs = versions in map (move Up) vs = map (map_option ((!) vs)) up_to"
  by code_simp

lemma versions_down: "let vs = versions in map (move Down) vs = map (map_option ((!) vs)) down_to"
  by code_simp

lemma versions_facts:
  "let vs = versions in map fst vs = counts \<and> vs ! 0 = (0, empty_catalog) \<and>
     map table_schema (ct_tables (snd (vs ! 7))) = expected_schema \<and>
     ct_types (snd (vs ! 7)) = [(''origins'', [''Token'', ''Form'', ''DB'', ''API''])] \<and>
     map (\<lambda>v. (not_null (snd v) Members C_email, not_null (snd v) Entities C_address, ct_types (snd v))) [vs ! 4, vs ! 8] =
       [(Some True, Some True, [(''origins'', [''Token'', ''Form'', ''DB''])]),
        (Some False, Some False, [(''origins'', [''Token'', ''Form'', ''DB'', ''API''])])]"
  by code_simp

lemma length_versions: "length versions = 17"
  using arg_cong [OF versions_up [unfolded Let_def], of length] by (simp add: up_to_def)

lemma version_count: "i < 17 \<Longrightarrow> fst (versions ! i) = counts ! i"
  using versions_facts length_versions unfolding Let_def by (metis nth_map)

lemma version_up: "i < 17 \<Longrightarrow> move Up (versions ! i) = map_option ((!) versions) (up_to ! i)"
  using versions_up length_versions unfolding Let_def by (metis length_map nth_map)

lemma version_down: "i < 17 \<Longrightarrow> move Down (versions ! i) = map_option ((!) versions) (down_to ! i)"
  using versions_down length_versions unfolding Let_def by (metis length_map nth_map)

text \<open>The tables of moves are consistent with the counts, and each move down undoes the moves up, but the one into the fifth version.\<close>

lemma moves:
  "\<forall>i<17. case up_to ! i of None \<Rightarrow> counts ! i = 7 | Some j \<Rightarrow> j < 17 \<and> (counts ! i \<noteq> 4 \<longrightarrow> down_to ! j = Some i) \<and> (counts ! i = 4 \<longrightarrow> j = 5)"
  "\<forall>i<17. case down_to ! i of None \<Rightarrow> counts ! i = 0 | Some j \<Rightarrow> j < 17"
  "\<forall>i<17. (counts ! i = 0 \<longrightarrow> i = 0) \<and> (counts ! i = 7 \<longrightarrow> i = 7) \<and> counts ! i \<le> 7"
  by code_simp+

lemma ups_length [simp]: "length ups = 7"
  by (simp add: ups_def)

lemma move_Up: "k < 7 \<Longrightarrow> exec_sql (ups ! k) c = Some c' \<Longrightarrow> move Up (k, c) = Some (Suc k, c')"
  by (simp add: move_def)

lemma move_Down: "move Down (Suc k, c) = map_option (Pair k) (exec_sql (downs ! k) c)"
  by (simp add: move_def)

text \<open>Every reachable catalog is one of the versions.\<close>

lemma migrated_version: "migrated k c \<Longrightarrow> \<exists>i<17. versions ! i = (k, c)"
proof (induction rule: migrated.induct)
  case fresh
  then show ?case using versions_facts by (intro exI [of _ 0]) (simp add: Let_def)
next
  case (up k c c')
  then obtain i where i: "i < 17" "versions ! i = (k, c)" by blast
  then have "map_option ((!) versions) (up_to ! i) = Some (Suc k, c')"
    using version_up [OF i(1)] move_Up up.hyps(2,3) by simp
  then show ?case using moves(1) i(1) by (auto split: option.splits)
next
  case (down k c c')
  then obtain i where i: "i < 17" "versions ! i = (Suc k, c)" by blast
  then have "map_option ((!) versions) (down_to ! i) = Some (k, c')"
    using version_down [OF i(1)] move_Down down.hyps(2) by simp
  then show ?case using moves(2) i(1) by (auto split: option.splits)
qed

text \<open>The versions of the way up are reachable.\<close>

lemma way_up: "j \<le> 7 \<Longrightarrow> \<exists>c. versions ! j = (j, c) \<and> migrated j c"
proof (induction j)
  case 0
  then show ?case using versions_facts by (intro exI [of _ empty_catalog]) (simp add: Let_def migrated.fresh)
next
  case (Suc j)
  then obtain c where c: "versions ! j = (j, c)" "migrated j c" by auto
  have "\<forall>j<7. up_to ! j = Some (Suc j)" by code_simp
  then have "move Up (j, c) = Some (versions ! Suc j)" using version_up [of j] c(1) Suc.prems by simp
  then obtain c' where "exec_sql (ups ! j) c = Some c'" "versions ! Suc j = (Suc j, c')"
    using Suc.prems by (auto simp: move_def)
  then show ?case using migrated.up [OF c(2)] Suc.prems by auto
qed

section \<open>Properties\<close>

text \<open>
  C10: whatever migrations are applied and taken back, in any order, the next one up and the next one
  down always run; with all seven applied, the database has exactly the tables, columns, keys and
  references that the methods rely on, and with none it is empty.
\<close>

theorem migrations_any_order:
  assumes "migrated k c"
  shows "k \<le> 7 \<and> (k < 7 \<longrightarrow> exec_sql (ups ! k) c \<noteq> None) \<and> (\<forall>j. k = Suc j \<longrightarrow> exec_sql (downs ! j) c \<noteq> None) \<and>
    (k = 0 \<longrightarrow> c = empty_catalog) \<and>
    (k = 7 \<longrightarrow> map table_schema (ct_tables c) = expected_schema \<and>
       ct_types c = [(''origins'', [''Token'', ''Form'', ''DB'', ''API''])])"
proof -
  obtain i where i: "i < 17" "versions ! i = (k, c)" using migrated_version [OF assms] by blast
  have count: "counts ! i = k" using version_count [OF i(1)] i(2) by simp
  have "exec_sql (ups ! k) c \<noteq> None" if k: "k < 7"
  proof -
    obtain j where "up_to ! i = Some j" using spec [OF moves(1), of i] i(1) count k by (cases "up_to ! i") simp_all
    then show ?thesis using version_up [OF i(1)] i(2) k by (cases "exec_sql (ups ! k) c") (simp_all add: move_def)
  qed
  moreover have "exec_sql (downs ! j) c \<noteq> None" if k: "k = Suc j" for j
  proof -
    obtain l where "down_to ! i = Some l" using spec [OF moves(2), of i] i(1) count k by (cases "down_to ! i") simp_all
    then show ?thesis using version_down [OF i(1)] i(2) k by (cases "exec_sql (downs ! j) c") (simp_all add: move_Down)
  qed
  ultimately show ?thesis
    using moves(3) i count versions_facts by (auto simp: Let_def)
qed

theorem migrations_any_order_witness:
  "\<exists>c. migrated 7 c \<and> map table_schema (ct_tables c) = expected_schema \<and> exec_sql migration7down c \<noteq> None"
proof -
  obtain c where c: "migrated 7 c" using way_up [of 7] by auto
  show ?thesis using migrations_any_order [OF c] c by (intro exI [of _ c]) (auto simp: downs_def)
qed



end
