(* ===== verification/Health.thy ===== *)
theory Health
  imports Complex_Main Rpcapi
begin

text \<open>
  \<^verbatim>\<open>getHealth\<close> of \<^verbatim>\<open>rpcapi/healthInfo.go\<close>: a number between 0 and 99 out of the memory in use, the load
  and the number of connections, computed with 64-bit floating-point numbers. A finite number is the
  rational it stands for; an operation is the exact one, followed by the rounding of IEEE 754 to the
  nearest, ties to even (products and sums are not fused, as on amd64).
\<close>

section \<open>Rounding\<close>

text \<open>The number of binary digits.\<close>

function bit_length :: "int \<Rightarrow> nat" where
  "bit_length p = (if p \<le> 0 then 0 else Suc (bit_length (p div 2)))"
  by auto

termination bit_length
  by (relation "measure nat") auto

declare bit_length.simps [simp del]

text \<open>The exponent of a positive number: the power of two at or below it.\<close>

definition exponent :: "rat \<Rightarrow> int" where
  "exponent x =
     (case quotient_of x of (p, q) \<Rightarrow>
        let e = int (bit_length p) - int (bit_length q) in if x < 2 powi e then e - 1 else e)"

definition round_half_even :: "rat \<Rightarrow> int" where
  "round_half_even y =
     (let n = \<lfloor>y\<rfloor>; r = y - of_int n
      in if r < 1 / 2 then n else if r > 1 / 2 then n + 1 else if even n then n else n + 1)"

text \<open>The unit of the last of the 53 binary digits, which is fixed for subnormal numbers.\<close>

definition last_place :: "rat \<Rightarrow> rat" where
  "last_place x = 2 powi (max (exponent x) (- 1022) - 52)"

definition float64 :: "rat \<Rightarrow> rat" where
  "float64 x =
     (if x = 0 then 0
      else if x < 0 then - (of_int (round_half_even (- x / last_place (- x))) * last_place (- x))
      else of_int (round_half_even (x / last_place x)) * last_place x)"

text \<open>\<^verbatim>\<open>int32(x)\<close> of a number in range drops the fraction.\<close>

definition trunc_int :: "rat \<Rightarrow> int" where
  "trunc_int x = (if x < 0 then - \<lfloor>- x\<rfloor> else \<lfloor>x\<rfloor>)"

section \<open>The health of the machine\<close>

text \<open>What the machine answers, or an error: the used memory in percent, the load of the last 15 minutes, the TCP connections.\<close>

record vitals =
  vt_UsedPercent :: "string + rat"
  vt_Load15 :: "string + rat"
  vt_Connections :: "string + nat"

definition healthMemMax :: rat where
  "healthMemMax = 100"

definition healthLoadMax :: rat where
  "healthLoadMax = 10"

definition healthSocksMax :: rat where
  "healthSocksMax = 10000"

definition weighted :: "rat \<Rightarrow> rat \<Rightarrow> rat" where
  "weighted used most = float64 (float64 (33 / 100) * float64 (used / most))"

definition health_value :: "rat \<Rightarrow> rat \<Rightarrow> rat \<Rightarrow> rat" where
  "health_value memUsed load15 sockets =
     float64 (float64 (1 - float64 (float64 (weighted memUsed healthMemMax + weighted load15 healthLoadMax) +
       weighted sockets healthSocksMax)) * 100)"

definition getHealth :: "vitals \<Rightarrow> string + int" where
  "getHealth v =
     (case vt_UsedPercent v of
        Inl e \<Rightarrow> Inl e
      | Inr memUsed \<Rightarrow>
          (case vt_Load15 v of
             Inl e \<Rightarrow> Inl e
           | Inr load15 \<Rightarrow>
               (case vt_Connections v of
                  Inl e \<Rightarrow> Inl e
                | Inr n \<Rightarrow>
                    (let sockets = float64 (of_nat n);
                         memUsed = (if memUsed > healthMemMax then healthMemMax else memUsed);
                         load15 = (if load15 > healthLoadMax then healthLoadMax else load15);
                         sockets = (if sockets > healthSocksMax then healthSocksMax else sockets);
                         result = trunc_int (health_value memUsed load15 sockets)
                     in if result < 0 \<or> result \<ge> 100
                        then Inl (''expected health to be between 0 and 99: '' @ FormatInt result)
                        else Inr result))))"

section \<open>The error of a rounding\<close>

lemma bit_length_bounds: "0 < p \<Longrightarrow> 2 ^ (bit_length p - 1) \<le> p \<and> p < 2 ^ bit_length p \<and> 0 < bit_length p"
proof (induction p rule: bit_length.induct)
  case (1 p)
  show ?case
  proof (cases "p = 1")
    case False
    with 1 have IH: "2 ^ (bit_length (p div 2) - 1) \<le> p div 2" "p div 2 < 2 ^ bit_length (p div 2)" "0 < bit_length (p div 2)" by auto
    have n: "bit_length p = Suc (bit_length (p div 2))" using 1(2) by (simp add: bit_length.simps [of p])
    have "(2::int) ^ bit_length (p div 2) = 2 * 2 ^ (bit_length (p div 2) - 1)" using IH(3) by (cases "bit_length (p div 2)") simp_all
    then show ?thesis using IH by (simp add: n) linarith
  qed (simp add: bit_length.simps)
qed

lemma exponent_below:
  assumes "0 < x"
  shows "2 powi exponent x \<le> x"
proof -
  obtain p q where pq: "quotient_of x = (p, q)" by fastforce
  have x: "x = of_int p / of_int q" and q: "0 < q" using quotient_of_div [OF pq] quotient_of_denom_pos [OF pq] by simp_all
  have p: "0 < p" using assms x q by (simp add: zero_less_divide_iff)
  let ?a = "bit_length p" and ?b = "bit_length q"
  have a: "2 ^ (?a - 1) \<le> p" "0 < ?a" and b: "q \<le> 2 ^ ?b"
    using bit_length_bounds [OF p] bit_length_bounds [OF q] by auto
  have a': "(2::rat) ^ (?a - 1) \<le> of_int p" using a(1) by (metis of_int_le_iff of_int_numeral of_int_power)
  have b': "of_int q \<le> (2::rat) ^ ?b" using b by (metis of_int_le_iff of_int_numeral of_int_power)
  have "2 powi (int ?a - int ?b - 1) = (2::rat) ^ (?a - 1) / 2 ^ ?b"
  proof -
    have "int ?a - int ?b - 1 = int (?a - 1) - int ?b" using a(2) by simp
    moreover have "(2::rat) powi (int (?a - 1) - int ?b) = 2 powi int (?a - 1) / 2 powi int ?b"
      by (rule power_int_diff) simp
    ultimately show ?thesis by (simp only: power_int_of_nat)
  qed
  also have "\<dots> \<le> x" unfolding x using a' b' p q by (intro frac_le) auto
  finally show ?thesis by (auto simp: exponent_def pq Let_def)
qed

lemma round_half_even_error: "\<bar>of_int (round_half_even y) - y\<bar> \<le> 1 / 2"
proof -
  have "of_int \<lfloor>y\<rfloor> \<le> y" "y < of_int \<lfloor>y\<rfloor> + 1" using floor_correct [of y] by simp_all
  then show ?thesis by (simp add: round_half_even_def Let_def abs_if del: of_int_floor_le)
qed

text \<open>Below 128, a rounding changes a number by at most \<open>err\<close>.\<close>

definition err :: rat where
  "err = 1 / 2 ^ 47"

lemma powi_less_cancel: "(2::rat) powi a < 2 powi b \<Longrightarrow> a < b"
  using power_int_increasing [of b a "2::rat"] by (cases "a < b") simp_all

lemma last_place_bound:
  assumes "0 < x" "x < 128"
  shows "0 < last_place x \<and> last_place x \<le> 2 * err"
proof -
  have "(2::rat) powi exponent x < 2 powi 7" using exponent_below [OF assms(1)] assms(2) by simp
  then have "exponent x < 7" by (rule powi_less_cancel)
  then have "max (exponent x) (- 1022) - 52 \<le> - 46" by simp
  then have "last_place x \<le> 2 powi (- 46)" unfolding last_place_def by (rule power_int_increasing) simp
  then show ?thesis by (simp add: last_place_def err_def power_int_minus)
qed

lemma float64_error:
  assumes "0 \<le> x" "x < 128"
  shows "\<bar>float64 x - x\<bar> \<le> err"
proof (cases "x = 0")
  case False
  with assms have x: "0 < x" by simp
  note u = last_place_bound [OF x assms(2)]
  have "float64 x - x = (of_int (round_half_even (x / last_place x)) - x / last_place x) * last_place x"
    using x u by (simp add: float64_def field_simps)
  then have "\<bar>float64 x - x\<bar> = \<bar>of_int (round_half_even (x / last_place x)) - x / last_place x\<bar> * last_place x"
    using u by (simp add: abs_mult)
  also have "\<dots> \<le> 1 / 2 * (2 * err)" using u by (intro mult_mono round_half_even_error) auto
  finally show ?thesis by simp
qed (simp add: float64_def err_def)

lemma err_small: "0 < err" "err \<le> 1 / 10 ^ 14"
  by (simp_all add: err_def)

lemma float64_nonneg: "0 \<le> x \<Longrightarrow> 0 \<le> float64 x"
proof (cases "x = 0")
  case False
  assume "0 \<le> x"
  have "0 < last_place x" by (simp add: last_place_def)
  then have "0 \<le> round_half_even (x / last_place x)"
    using \<open>0 \<le> x\<close> by (simp add: round_half_even_def Let_def)
  then show ?thesis using \<open>0 < last_place x\<close> \<open>0 \<le> x\<close> False by (simp add: float64_def)
qed (simp add: float64_def)

lemma place_of_nat:
  assumes "e < 53"
  obtains k where "max e (- 1022) - 52 = - int k"
proof (rule that)
  show "max e (- 1022) - 52 = - int (nat (52 - max e (- 1022)))" using assms by simp
qed

text \<open>Integers below \<open>2 ^ 53\<close> are exact, and no rounding of a number from 1 on halves it.\<close>

lemma float64_of_nat:
  assumes "n < 2 ^ 53"
  shows "float64 (of_nat n) = of_nat n"
proof (cases "n = 0")
  case False
  have "(of_nat n :: rat) < 2 ^ 53" using assms by (metis of_nat_less_iff of_nat_numeral of_nat_power)
  moreover have "2 powi exponent (of_nat n) \<le> (of_nat n :: rat)" using False by (intro exponent_below) simp
  ultimately have "(2::rat) powi exponent (of_nat n) < 2 powi 53" by simp
  then have "exponent (of_nat n) < 53" by (rule powi_less_cancel)
  then obtain k where k: "max (exponent (of_nat n)) (- 1022) - 52 = - int k" by (rule place_of_nat)
  have l: "last_place (of_nat n) = 1 / 2 ^ k" unfolding last_place_def k by (simp add: power_int_minus divide_simps)
  have "of_nat n / last_place (of_nat n) = of_int (int n * 2 ^ k)" by (simp add: l)
  then have "round_half_even (of_nat n / last_place (of_nat n)) = int n * 2 ^ k"
    by (simp only: round_half_even_def Let_def floor_of_int) simp
  then show ?thesis by (simp add: float64_def l False)
qed (simp add: float64_def)

lemma float64_half:
  assumes "1 \<le> x"
  shows "x / 2 \<le> float64 x"
proof -
  let ?u = "last_place x"
  have x: "0 < x" using assms by simp
  have "?u \<le> x"
  proof (cases "exponent x \<le> 0")
    case True
    then have "?u \<le> 2 powi 0" unfolding last_place_def by (intro power_int_increasing) auto
    then show ?thesis using assms by simp
  next
    case False
    then have "?u \<le> 2 powi exponent x" unfolding last_place_def by (intro power_int_increasing) auto
    then show ?thesis using exponent_below [OF x] by simp
  qed
  moreover have "0 < ?u" by (simp add: last_place_def)
  moreover have "float64 x = of_int (round_half_even (x / ?u)) * ?u" using x by (simp add: float64_def)
  moreover have "x / ?u - 1 / 2 \<le> of_int (round_half_even (x / ?u))"
    using round_half_even_error [of "x / ?u"] by linarith
  ultimately show ?thesis using mult_right_mono [of "x / ?u - 1 / 2" "of_int (round_half_even (x / ?u))" ?u] by (simp add: left_diff_distrib)
qed

lemma sockets_clipped:
  "(if float64 (of_nat n) > healthSocksMax then healthSocksMax else float64 (of_nat n)) = min (of_nat n) healthSocksMax"
proof (cases "n < 2 ^ 53")
  case False
  then have n: "(2 :: rat) ^ 53 \<le> of_nat n" by (metis linorder_not_less of_nat_le_iff of_nat_numeral of_nat_power)
  then show ?thesis using float64_half [of "of_nat n"] by (simp add: healthSocksMax_def)
qed (simp add: float64_of_nat min_def)

section \<open>The error of the formula\<close>

lemma float64_within:
  assumes "\<bar>y - x\<bar> \<le> d" "0 \<le> y" "y < 128"
  shows "\<bar>float64 y - x\<bar> \<le> d + err \<and> 0 \<le> float64 y"
proof -
  have "\<bar>float64 y - y\<bar> \<le> err" using assms by (intro float64_error)
  with assms(1) show ?thesis using float64_nonneg [OF assms(2)] by linarith
qed

lemma weighted_error:
  assumes "0 \<le> u" "u \<le> m" "0 < m"
  shows "\<bar>weighted u m - 33 / 100 * (u / m)\<bar> \<le> 3 * err \<and> 0 \<le> weighted u m"
proof -
  let ?q = "u / m"
  define a where "a = float64 ?q"
  define c where "c = float64 (33 / 100)"
  have q: "0 \<le> ?q" "?q \<le> 1" using assms by simp_all
  have a: "\<bar>a - ?q\<bar> \<le> err" "0 \<le> a" unfolding a_def using q by (auto intro: float64_error float64_nonneg)
  have c: "\<bar>c - 33 / 100\<bar> \<le> err" "0 \<le> c" unfolding c_def by (auto intro: float64_error float64_nonneg)
  have le: "a \<le> 2" "c \<le> 1" using a c q err_small by (auto simp: abs_le_iff)
  have "c * a - 33 / 100 * ?q = c * (a - ?q) + (c - 33 / 100) * ?q" by (simp add: algebra_simps)
  moreover have "\<bar>c * (a - ?q)\<bar> \<le> 1 * err" unfolding abs_mult using a c le by (intro mult_mono) auto
  moreover have "\<bar>(c - 33 / 100) * ?q\<bar> \<le> err * 1" unfolding abs_mult using c q err_small by (intro mult_mono) auto
  ultimately have ca: "\<bar>c * a - 33 / 100 * ?q\<bar> \<le> 2 * err" by linarith
  have "c * a \<le> 1 * 2" using a c le by (intro mult_mono) auto
  then show ?thesis
    using float64_within [OF ca] a c by (simp add: weighted_def a_def c_def)
qed

text \<open>The formula in exact arithmetic, on what is left of the measurements after they are limited.\<close>

definition exact_health :: "rat \<Rightarrow> rat \<Rightarrow> rat \<Rightarrow> rat" where
  "exact_health memUsed load15 sockets =
     100 * (1 - (33 / 100 * (min memUsed 100 / 100) + 33 / 100 * (min load15 10 / 10) + 33 / 100 * (min sockets 10000 / 10000)))"

lemma exact_health_bounds:
  assumes "0 \<le> a" "0 \<le> b" "0 \<le> c"
  shows "1 \<le> exact_health a b c"
    "1 / 10 ^ 6 \<le> a \<or> 1 / 10 ^ 6 \<le> b \<or> 1 \<le> c \<Longrightarrow> exact_health a b c < 100 - 1 / 10 ^ 9"
proof -
  define p where "p = min a 100 / 100"
  define q where "q = min b 10 / 10"
  define r where "r = min c 10000 / 10000"
  have e: "exact_health a b c = 100 * (1 - (33 / 100 * p + 33 / 100 * q + 33 / 100 * r))"
    by (simp only: exact_health_def p_def q_def r_def)
  have le: "p \<le> 1" "q \<le> 1" "r \<le> 1" by (simp_all add: p_def q_def r_def)
  then show "1 \<le> exact_health a b c" unfolding e by (simp add: algebra_simps)
  have pos: "0 \<le> p" "0 \<le> q" "0 \<le> r" using assms by (simp_all add: p_def q_def r_def)
  assume "1 / 10 ^ 6 \<le> a \<or> 1 / 10 ^ 6 \<le> b \<or> 1 \<le> c"
  then have "1 / 10 ^ 8 \<le> p \<or> 1 / 10 ^ 8 \<le> q \<or> 1 / 10 ^ 8 \<le> r" by (auto simp: p_def q_def r_def min_def)
  with pos have "1 / 100000000 \<le> p + q + r" by auto
  then show "exact_health a b c < 100 - 1 / 10 ^ 9" unfolding e by simp
qed

lemma health_value_error:
  assumes "0 \<le> a" "0 \<le> b" "0 \<le> c"
  shows "\<bar>health_value (min a healthMemMax) (min b healthLoadMax) (min c healthSocksMax) - exact_health a b c\<bar> \<le> 1 / 10 ^ 10"
proof -
  define x where "x = weighted (min a healthMemMax) healthMemMax"
  define y where "y = weighted (min b healthLoadMax) healthLoadMax"
  define z where "z = weighted (min c healthSocksMax) healthSocksMax"
  define X where "X = 33 / 100 * (min a 100 / 100)"
  define Y where "Y = 33 / 100 * (min b 10 / 10)"
  define Z where "Z = 33 / 100 * (min c 10000 / 10000)"
  have x: "\<bar>x - X\<bar> \<le> 3 * err" "0 \<le> x" using weighted_error [of "min a 100" 100] assms by (simp_all add: x_def X_def healthMemMax_def)
  have y: "\<bar>y - Y\<bar> \<le> 3 * err" "0 \<le> y" using weighted_error [of "min b 10" 10] assms by (simp_all add: y_def Y_def healthLoadMax_def)
  have z: "\<bar>z - Z\<bar> \<le> 3 * err" "0 \<le> z" using weighted_error [of "min c 10000" 10000] assms by (simp_all add: z_def Z_def healthSocksMax_def)
  have XYZ: "X \<le> 33 / 100" "Y \<le> 33 / 100" "Z \<le> 33 / 100" by (simp_all add: X_def Y_def Z_def)
  have pos: "0 \<le> X" "0 \<le> Y" "0 \<le> Z" using assms by (simp_all add: X_def Y_def Z_def)
  have e: "0 < err" "err \<le> 1 / 100000000000000" using err_small by simp_all
  define s where "s = float64 (x + y)"
  have s: "\<bar>s - (X + Y)\<bar> \<le> 7 * err" "0 \<le> s"
  proof -
    have "\<bar>x + y - (X + Y)\<bar> \<le> 6 * err" "0 \<le> x + y" "x + y < 128" using x y XYZ e by linarith+
    from float64_within [OF this] show "\<bar>s - (X + Y)\<bar> \<le> 7 * err" "0 \<le> s" unfolding s_def by linarith+
  qed
  define r where "r = float64 (s + z)"
  have r: "\<bar>r - (X + Y + Z)\<bar> \<le> 11 * err" "0 \<le> r"
  proof -
    have "\<bar>s + z - (X + Y + Z)\<bar> \<le> 10 * err" "0 \<le> s + z" "s + z < 128" using s z XYZ e by linarith+
    from float64_within [OF this] show "\<bar>r - (X + Y + Z)\<bar> \<le> 11 * err" "0 \<le> r" unfolding r_def by linarith+
  qed
  define w where "w = float64 (1 - r)"
  have w: "\<bar>w - (1 - (X + Y + Z))\<bar> \<le> 12 * err" "0 \<le> w"
  proof -
    have "\<bar>1 - r - (1 - (X + Y + Z))\<bar> \<le> 11 * err" "0 \<le> 1 - r" "1 - r < 128" using r XYZ e by linarith+
    from float64_within [OF this] show "\<bar>w - (1 - (X + Y + Z))\<bar> \<le> 12 * err" "0 \<le> w" unfolding w_def by linarith+
  qed
  have "\<bar>w * 100 - 100 * (1 - (X + Y + Z))\<bar> \<le> 1200 * err" using w(1) by (simp add: abs_le_iff algebra_simps)
  moreover have "w \<le> 11 / 10" using w(1) pos e by (simp only: abs_le_iff) linarith
  ultimately have "\<bar>w * 100 - 100 * (1 - (X + Y + Z))\<bar> \<le> 1200 * err" "0 \<le> w * 100" "w * 100 < 128" using w(2) by simp_all
  from float64_within [OF this] have near: "\<bar>float64 (w * 100) - 100 * (1 - (X + Y + Z))\<bar> \<le> 1201 * err" by linarith
  have small: "1201 * err \<le> 1 / 10 ^ 10" using e(2) by simp
  have hv: "health_value (min a healthMemMax) (min b healthLoadMax) (min c healthSocksMax) = float64 (w * 100)"
    by (simp only: health_value_def w_def r_def s_def x_def y_def z_def)
  have ex: "exact_health a b c = 100 * (1 - (X + Y + Z))" by (simp only: exact_health_def X_def Y_def Z_def)
  show ?thesis unfolding hv ex by (rule order_trans [OF near small])
qed

section \<open>Properties\<close>

lemma getHealth_Inr:
  assumes "vt_UsedPercent v = Inr m" "vt_Load15 v = Inr l" "vt_Connections v = Inr n" "0 \<le> m" "0 \<le> l"
  obtains r where "\<bar>r - exact_health m l (of_nat n)\<bar> \<le> 1 / 10 ^ 10"
    "getHealth v = (if trunc_int r < 0 \<or> trunc_int r \<ge> 100
       then Inl (''expected health to be between 0 and 99: '' @ FormatInt (trunc_int r)) else Inr (trunc_int r))"
proof (rule that)
  have limit: "(if a > b then b else a) = min a b" for a b :: rat by (simp add: min_def)
  let ?r = "health_value (min m healthMemMax) (min l healthLoadMax) (min (of_nat n) healthSocksMax)"
  show "\<bar>?r - exact_health m l (of_nat n)\<bar> \<le> 1 / 10 ^ 10"
    using assms by (intro health_value_error) simp_all
  show "getHealth v = (if trunc_int ?r < 0 \<or> trunc_int ?r \<ge> 100
       then Inl (''expected health to be between 0 and 99: '' @ FormatInt (trunc_int ?r)) else Inr (trunc_int ?r))"
    by (simp only: getHealth_def assms Let_def sum.case sockets_clipped [unfolded limit] limit)
qed

text \<open>
  C24: when the machine can be measured, \<^verbatim>\<open>getInfo\<close> answers a health between 0 and 99 as soon as some
  memory, load or connection is in use: the value of the formula without its fraction, up to the tiny
  error of the floating-point operations. With everything at its limit or beyond the health is 1, not
  0, as the weights do not add up to 1. A machine that is quite idle makes the request fail, since its
  health is 100.
\<close>

theorem getHealth_range:
  assumes "vt_UsedPercent v = Inr m" "vt_Load15 v = Inr l" "vt_Connections v = Inr n" "0 \<le> m" "0 \<le> l"
  shows "(1 / 10 ^ 6 \<le> m \<or> 1 / 10 ^ 6 \<le> l \<or> 0 < n \<longrightarrow>
      (\<exists>h. snd (api_info (getHealth v) apis request w) = Reply (zero_APIresponse\<lparr>rs_APIList := apis, rs_Health := h\<rparr>) \<and>
         0 \<le> h \<and> h \<le> 99 \<and> of_int h \<le> exact_health m l (of_nat n) + 1 / 10 ^ 10 \<and>
         exact_health m l (of_nat n) - 1 / 10 ^ 10 < of_int h + 1)) \<and>
    (100 \<le> m \<and> 10 \<le> l \<and> 10000 \<le> n \<longrightarrow> getHealth v = Inr 1) \<and>
    (m = 0 \<and> l = 0 \<and> n = 0 \<longrightarrow>
      snd (api_info (getHealth v) apis request w) =
        Fail ''cannot get health status: (expected health to be between 0 and 99: 100)'')"
proof (intro conjI impI)
  obtain r where r: "\<bar>r - exact_health m l (of_nat n)\<bar> \<le> 1 / 10 ^ 10"
    "getHealth v = (if trunc_int r < 0 \<or> trunc_int r \<ge> 100
       then Inl (''expected health to be between 0 and 99: '' @ FormatInt (trunc_int r)) else Inr (trunc_int r))"
    using getHealth_Inr [OF assms] by blast
  assume used: "1 / 10 ^ 6 \<le> m \<or> 1 / 10 ^ 6 \<le> l \<or> 0 < n"
  then have less: "exact_health m l (of_nat n) < 100 - 1 / 10 ^ 9" using assms by (intro exact_health_bounds(2)) auto
  have least: "1 \<le> exact_health m l (of_nat n)" using assms by (intro exact_health_bounds(1)) simp_all
  have "1 / 10 ^ 10 < 1 / (10 :: rat) ^ 9" "1 / (10 :: rat) ^ 10 < 1" by simp_all
  with r(1) less least have r0: "0 \<le> r" "r < 100" by linarith+
  then have h: "trunc_int r = \<lfloor>r\<rfloor>" "0 \<le> \<lfloor>r\<rfloor>" "\<lfloor>r\<rfloor> < 100" by (simp_all add: trunc_int_def floor_less_iff)
  have "of_int \<lfloor>r\<rfloor> \<le> r" "r < of_int \<lfloor>r\<rfloor> + 1" using floor_correct [of r] by simp_all
  with r(1) have "of_int \<lfloor>r\<rfloor> \<le> exact_health m l (of_nat n) + 1 / 10 ^ 10"
    "exact_health m l (of_nat n) - 1 / 10 ^ 10 < of_int \<lfloor>r\<rfloor> + 1" by linarith+
  moreover have "getHealth v = Inr \<lfloor>r\<rfloor>" using r(2) h by simp
  ultimately show "\<exists>h. snd (api_info (getHealth v) apis request w) = Reply (zero_APIresponse\<lparr>rs_APIList := apis, rs_Health := h\<rparr>) \<and>
      0 \<le> h \<and> h \<le> 99 \<and> of_int h \<le> exact_health m l (of_nat n) + 1 / 10 ^ 10 \<and>
      exact_health m l (of_nat n) - 1 / 10 ^ 10 < of_int h + 1"
    using h by (intro exI [of _ "\<lfloor>r\<rfloor>"]) (simp add: api_info_def)
next
  have limit: "(if a > b then b else a) = min a b" for a b :: rat by (simp add: min_def)
  assume "100 \<le> m \<and> 10 \<le> l \<and> 10000 \<le> n"
  then have all: "min m healthMemMax = 100" "min l healthLoadMax = 10" "min (of_nat n) healthSocksMax = 10000"
    by (simp_all add: healthMemMax_def healthLoadMax_def healthSocksMax_def)
  have one: "trunc_int (health_value 100 10 10000) = 1" by code_simp
  show "getHealth v = Inr 1"
    by (simp add: getHealth_def assms(1-3) Let_def sockets_clipped [unfolded limit] limit all one)
next
  assume idle: "m = 0 \<and> l = 0 \<and> n = 0"
  have "trunc_int (health_value 0 0 0) = 100" "FormatInt 100 = ''100''" by code_simp+
  then have "getHealth v = Inl ''expected health to be between 0 and 99: 100''"
    using idle assms(1-3) by (simp add: getHealth_def Let_def float64_def healthMemMax_def healthLoadMax_def healthSocksMax_def)
  then show "snd (api_info (getHealth v) apis request w) =
      Fail ''cannot get health status: (expected health to be between 0 and 99: 100)''" by (simp add: api_info_def)
qed

theorem getHealth_range_witness:
  "\<forall>(request :: APIrequest) (w :: unit).
     snd (api_info (getHealth \<lparr>vt_UsedPercent = Inr 50, vt_Load15 = Inr 1, vt_Connections = Inr 100\<rparr>) [''registry''] request w) =
       Reply (zero_APIresponse\<lparr>rs_APIList := [''registry''], rs_Health := 79\<rparr>)"
proof (intro allI)
  fix request :: APIrequest and w :: unit
  let ?v = "\<lparr>vt_UsedPercent = Inr 50, vt_Load15 = Inr 1, vt_Connections = Inr 100\<rparr>"
  have e: "exact_health 50 1 (of_nat 100) = 7987 / 100" by (simp add: exact_health_def)
  obtain h where h: "snd (api_info (getHealth ?v) [''registry''] request w) = Reply (zero_APIresponse\<lparr>rs_APIList := [''registry''], rs_Health := h\<rparr>)"
    "of_int h \<le> (7987 / 100 :: rat) + 1 / 10 ^ 10" "(7987 / 100 :: rat) - 1 / 10 ^ 10 < of_int h + 1"
    using getHealth_range [of ?v 50 1 100 "[''registry'']" request w] unfolding e by auto
  then have "(of_int h :: rat) < of_int 80" "of_int 79 < of_int h + (1 :: rat)" by simp_all
  then have "h = 79" by linarith
  with h(1) show "snd (api_info (getHealth ?v) [''registry''] request w) =
      Reply (zero_APIresponse\<lparr>rs_APIList := [''registry''], rs_Health := 79\<rparr>)" by simp
qed

end
