(* ===== verification/Spec2Isabelle.thy ===== *)
theory Spec2Isabelle
  imports Confinement Startup ManagerTest Catalog Health
begin

text \<open>
  A verification library for the backend of the Vocdoni entity manager, a service that keeps the
  organisations (entities), their members, censuses and tags in PostgreSQL and offers three signed
  or authenticated JSON APIs to browsers, mobile clients and the organisations' own servers.

  \<^bold>\<open>The program and the theories.\<close> A request arrives at \<^verbatim>\<open>rpcapi\<close>, which hands it with the public key of
  its signature to a handler of \<^verbatim>\<open>manager\<close>, \<^verbatim>\<open>registry\<close> or \<^verbatim>\<open>tokenapi\<close>; handlers call methods of
  \<^verbatim>\<open>database/pgsql\<close>, send mail with \<^verbatim>\<open>smtpclient\<close> and tokens with \<^verbatim>\<open>ethclient\<close>. The theories follow that
  order from below:

  \<^item> \<open>Prelude\<close>: byte slices that may be nil, UUIDs, instants, SQL comparisons, the uniqueness and
    reference conditions of tables, list lemmas.
  \<^item> \<open>GoTypes\<close> (\<^verbatim>\<open>types/\<close>): the structs as records, the \<^verbatim>\<open>Origin\<close> enumeration with its generated
    stringer, and the record \<open>ext\<close> of the third-party functions, an argument of what uses them.
  \<^item> \<open>Util\<close> (\<^verbatim>\<open>util/util.go\<close>): census identifiers, in-place removal of duplicates, hexadecimal text.
  \<^item> \<open>Schema\<close> (\<^verbatim>\<open>database/pgsql/migrations.go\<close>): one row record per table, the state \<open>pgdb\<close>, the
    surroundings \<open>env\<close> of a method call (failures of its round trips, clock, fresh identifiers, drawn
    keys, collations), the errors, and the invariant \<open>wf_db\<close> made of the constraints.
  \<^item> \<open>Statements\<close>: the INSERT, UPDATE and DELETE statements with their constraint checks and cascades;
    the locale \<open>insert_table\<close> states what every table's insertion promises and is interpreted for
    each table.
  \<^item> \<open>PgTypes\<close> (\<^verbatim>\<open>database/pgsql/types.go\<close>): conversions between Go values and rows, the whitelist of
    sort fields. \<open>Bulk\<close>: \<^verbatim>\<open>bulkInsert\<close> and its batches.
  \<^item> \<open>PgEntities\<close>, \<open>PgMembers\<close>, \<open>PgQueries\<close>, \<open>PgTags\<close>, \<open>PgCensus\<close> (\<^verbatim>\<open>database/pgsql/pgsql.go\<close>): one
    definition per method, with every early return. A method numbers its round trips to the server;
    \<open>io_err ev k\<close> says whether the \<open>k\<close>-th fails. A transaction that is neither committed nor rolled
    back is counted by \<open>leak\<close>. A method that can panic returns an option.
  \<^item> \<open>Database\<close> (\<^verbatim>\<open>database/database.go\<close>): the writing methods as operations, the locales \<open>store\<close> and
    \<open>tenant_store\<close> with their lemmas on histories, and their interpretation on the model.
  \<^item> \<open>Rpcapi\<close> (\<^verbatim>\<open>rpcapi/rpcapi.go\<close>): how a handler ends, the table of methods, routing, and the relation
    \<open>acts_for\<close>: a handler is a sequence of database calls on behalf of one entity. \<open>Health\<close>
    (\<^verbatim>\<open>rpcapi/healthInfo.go\<close>): the health of the machine, over floating-point numbers as rationals that
    are rounded after every operation.
  \<^item> \<open>Registry\<close> (\<^verbatim>\<open>registry/\<close>), \<open>TokenApi\<close> (\<^verbatim>\<open>tokenapi/\<close>), \<open>Manager\<close> and \<open>ManagerCensus\<close> (\<^verbatim>\<open>manager/\<close>): one
    definition per handler. A handler takes the surroundings \<open>envs k\<close> of its \<open>k\<close>-th database call.
    \<^verbatim>\<open>validateToken\<close> is cut at its decision, so that two requests can be interleaved.
  \<^item> \<open>Templates\<close> (\<^verbatim>\<open>smtpclient/static.go\<close>): the plain-text templates byte by byte, with a lexer, parser and
    evaluator for what they use of \<^verbatim>\<open>text/template\<close>.
  \<^item> \<open>Mailing\<close> (\<^verbatim>\<open>smtpclient/smtp.go\<close> and the mailing handlers): the mails with their subject and text; the
    goroutines, wait group and channels as an inductive step relation.
  \<^item> \<open>ManagerApi\<close> (\<^verbatim>\<open>manager/api.go\<close>): the table of methods, and the whole API as a \<open>tenant_store\<close>.
  \<^item> \<open>EthClient\<close> (\<^verbatim>\<open>ethclient/ethclient.go\<close>): the pool of signers; its endless loop is a partial
    function into options, so that not returning is the value \<open>None\<close>.
  \<^item> \<open>Migrations\<close> (the Migrator of \<^verbatim>\<open>database/pgsql/migrations.go\<close>): bringing the schema up to date at the
    start, over a third-party library that is an argument. \<open>Catalog\<close>: the SQL of the seven migrations,
    up and down, statement by statement, and what the statements do to the catalog of the database
    (tables, columns, constraints, enumerations, extensions); \<open>migrated\<close> are the catalogs that steps up
    and down lead to, \<open>versions\<close> lists all seventeen of them.
  \<^item> \<open>ManagerFlows\<close>: sequences of manager requests (sign-up, tokens) and the requests that crash the
    process. \<open>Confinement\<close>: what a manager request can read.
  \<^item> \<open>Config\<close> (\<^verbatim>\<open>config/\<close> and \<^verbatim>\<open>newConfig\<close> of \<^verbatim>\<open>cmd/dvotemanager\<close>): the flags with their defaults, the keys
    bound to them, the configuration file; the machine and the configuration library are a record of
    functions. \<open>Startup\<close> (\<^verbatim>\<open>main\<close> of \<^verbatim>\<open>cmd/dvotemanager\<close>, \<^verbatim>\<open>New\<close> of \<^verbatim>\<open>database/pgsql\<close>, \<^verbatim>\<open>New\<close> and \<^verbatim>\<open>StartPool\<close> of
    \<^verbatim>\<open>smtpclient\<close>): the start of the service up to the APIs it serves.
  \<^item> \<open>ManagerTest\<close> (\<^verbatim>\<open>cmd/managertest\<close>, \<^verbatim>\<open>cmd/testclient\<close>): the clients. A piece of a client is a function from
    its session (the state of the servers, the requests sent, the keys drawn, the log and the files) to
    the session after it and the way it ended; the servers are arguments, and the registry API of
    \<open>Registry\<close> is the server of the registration.

  \<^bold>\<open>What is shown.\<close> Every reachable state of the database satisfies the constraints of the schema,
  whatever calls, arguments and failures occur; tenants are isolated, at the level of database calls
  and of whole manager requests, for what they change and for what they read; the methods have the
  effects their names promise, stated row by row, with round trips (add and read, tag and untag,
  expand a census and dump it, sign up and read, create members and export their tokens); only three
  methods of the manager can crash it; the batches of a bulk insertion amount to one statement and
  respect the placeholder limit; listing by pages lists everything once and the clause it sorts by
  is never caller-controlled text; a token validates once and the handlers of both APIs refine the
  abstract life of a token; nothing in the token API happens without authentication; the mailing
  goroutines always end, and how they end does not depend on the schedule; the templates of the mails
  never fail and a mail holds its link; the faucet returns exactly when some signer can pay, and holds
  exactly that signer; a service that runs has the whole schema and serves exactly the documented
  methods, under a signature; the registration flow of the client against the registry API registers
  every member it has a token for; migrations applied and taken back in any order never get stuck and
  lead to the schema that the methods rely on, and all but the fifth are undone exactly; the health of a machine in use is a
  number between 0 and 99, within the rounding of its formula.
  Several theorems state defects of the code as it is: leaked transactions, the stale stringer, a
  panic on an unknown e-mail address, a race between two validations of a token, the crash after one
  failed mail, options not covered by the authentication, mails to the members of others, a signing
  key that is never generated, flags without effect, a pool timeout that is multiplied twice, a client
  that cannot register members of an entity of its own making, a migration that is not undone.

  \<^bold>\<open>Bounds and fuel.\<close> No definition uses fuel. Loops over slices are structural recursions, index loops
  have a measure, the two endless loops are partial functions with a theorem that says exactly when
  they return. Go's \<^verbatim>\<open>int32\<close> and \<^verbatim>\<open>int64\<close> conversions wrap explicitly (\<open>to_int32\<close>, \<open>to_int64\<close>).

  \<^bold>\<open>Not modelled.\<close> The isolation of concurrent SQL transactions (a method runs at once, but handlers
  may interleave), logging and metrics, the infinities and NaN of floating-point numbers (measurements
  are finite), the HTML part of the mails (escaped by context by \<^verbatim>\<open>html/template\<close>) and the attached logo,
  the third-party pools and routers, the structs of the news feed that nothing uses, the rows that a
  migration meets (a column that is not null and has no default is only ever added to a new table),
  the transport and the JSON text of the clients' messages and the printing of answers by reflection.
  The mock database of \<^verbatim>\<open>database/testdb\<close> keeps no state and returns canned values to the tests of the
  handlers: it promises nothing that the contract of \<open>Database\<close> could be compared with.
\<close>

end
